(* ===== verification/Go_Prelude.thy ===== *)
theory Go_Prelude
  imports Main "HOL-Library.List_Lexorder" "HOL-Library.Char_ord" "HOL-Library.Product_Lexorder"
begin

text \<open>
  The parts of the Go language and its standard library that the daemon's packages share.

  A Go \<open>string\<close> is a byte sequence: a HOL \<open>string\<close> (a list of 8-bit characters), ordered by
  \<open>strings.Compare\<close>, which is the lexicographic order on bytes (\<open>List_Lexorder\<close> over
  \<open>Char_ord\<close>). Case mapping is the ASCII part of \<open>strings.ToLower\<close>/\<open>ToUpper\<close>; the bytes of
  non-ASCII runes are left alone.

  A Go \<open>map\<close> is an association list that is strictly sorted by key (\<open>wf_map\<close>), so a map has one
  representation, \<open>slices.Sorted(maps.Keys(m))\<close> is \<open>mkeys m\<close>, and two equal maps are equal lists.
  Reading (\<open>mget\<close>), writing (\<open>mput\<close>), deleting (\<open>mdel\<close>) and the read-or-create-then-update
  idiom of the planner (\<open>mupsert\<close>) are characterised by their effect on \<open>mget\<close>.
\<close>

named_theorems go_defs \<open>definitions of small library functions, for unfolding\<close>

section \<open>Strings\<close>

definition lower_char :: "char \<Rightarrow> char" where
  "lower_char c = (if CHR ''A'' \<le> c \<and> c \<le> CHR ''Z'' then char_of (of_char c + 32 :: nat) else c)"

definition upper_char :: "char \<Rightarrow> char" where
  "upper_char c = (if CHR ''a'' \<le> c \<and> c \<le> CHR ''z'' then char_of (of_char c - 32 :: nat) else c)"

definition to_lower :: "string \<Rightarrow> string" where
  "to_lower s = map lower_char s"

definition to_upper :: "string \<Rightarrow> string" where
  "to_upper s = map upper_char s"

definition equal_fold :: "string \<Rightarrow> string \<Rightarrow> bool" where
  "equal_fold s t \<longleftrightarrow> to_lower s = to_lower t"

definition has_prefix :: "string \<Rightarrow> string \<Rightarrow> bool" where
  "has_prefix s p \<longleftrightarrow> take (length p) s = p"

definition has_suffix :: "string \<Rightarrow> string \<Rightarrow> bool" where
  "has_suffix s p \<longleftrightarrow> has_prefix (rev s) (rev p)"

text \<open>\<open>strings.CutPrefix\<close>: the rest and whether the prefix was there.\<close>

definition cut_prefix :: "string \<Rightarrow> string \<Rightarrow> string \<times> bool" where
  "cut_prefix s p = (if has_prefix s p then (drop (length p) s, True) else (s, False))"

definition trim_prefix :: "string \<Rightarrow> string \<Rightarrow> string" where
  "trim_prefix s p = fst (cut_prefix s p)"

fun contains_sub :: "string \<Rightarrow> string \<Rightarrow> bool" where
  "contains_sub [] p = (p = [])"
| "contains_sub (c # s) p = (has_prefix (c # s) p \<or> contains_sub s p)"

text \<open>\<open>strings.ReplaceAll\<close> with a one-byte old string.\<close>

definition replace_char :: "char \<Rightarrow> string \<Rightarrow> string \<Rightarrow> string" where
  "replace_char old new s = concat (map (\<lambda>c. if c = old then new else [c]) s)"

fun join_with :: "string \<Rightarrow> string list \<Rightarrow> string" where
  "join_with sep [] = []"
| "join_with sep [x] = x"
| "join_with sep (x # xs) = x @ sep @ join_with sep xs"

text \<open>ASCII white space, as \<open>strings.Fields\<close> and \<open>strings.TrimSpace\<close> see it.\<close>

definition is_space :: "char \<Rightarrow> bool" where
  "is_space c \<longleftrightarrow> of_char c \<in> {9, 10, 11, 12, 13, 32 :: nat}"

definition trim_space :: "string \<Rightarrow> string" where
  "trim_space s = rev (dropWhile is_space (rev (dropWhile is_space s)))"

fun split_fields :: "string \<Rightarrow> string \<Rightarrow> string list" where
  "split_fields cur [] = (if cur = [] then [] else [rev cur])"
| "split_fields cur (c # s) =
     (if is_space c then (if cur = [] then split_fields [] s else rev cur # split_fields [] s)
      else split_fields (c # cur) s)"

definition str_fields :: "string \<Rightarrow> string list" where
  "str_fields s = split_fields [] s"

section \<open>Valid UTF-8\<close>

text \<open>
  The width of the rune \<open>utf8.DecodeRuneInString\<close> finds at the head of a byte string, 0 where the
  encoding is invalid there (the function then returns \<open>RuneError\<close> with width 1).
\<close>

definition in_range :: "nat \<Rightarrow> nat \<Rightarrow> char \<Rightarrow> bool" where
  "in_range lo hi c \<longleftrightarrow> lo \<le> of_char c \<and> of_char c \<le> hi"

abbreviation cont_byte :: "char \<Rightarrow> bool" where
  "cont_byte \<equiv> in_range 128 191"

fun rune_width :: "string \<Rightarrow> nat" where
  "rune_width [] = 0"
| "rune_width (a # s) =
     (let n = of_char a :: nat in
      if n < 128 then 1
      else if 194 \<le> n \<and> n \<le> 223 then
        (case s of b # _ \<Rightarrow> if cont_byte b then 2 else 0 | _ \<Rightarrow> 0)
      else if 224 \<le> n \<and> n \<le> 239 then
        (case s of b # c # _ \<Rightarrow>
           if in_range (if n = 224 then 160 else 128) (if n = 237 then 159 else 191) b \<and> cont_byte c
           then 3 else 0
         | _ \<Rightarrow> 0)
      else if 240 \<le> n \<and> n \<le> 244 then
        (case s of b # c # d # _ \<Rightarrow>
           if in_range (if n = 240 then 144 else 128) (if n = 244 then 143 else 191) b \<and> cont_byte c
              \<and> cont_byte d
           then 4 else 0
         | _ \<Rightarrow> 0)
      else 0)"

declare rune_width.simps [simp del]

text \<open>\<open>strings.ToValidUTF8(s, "")\<close>: every byte that is not part of a valid rune is dropped.\<close>

function to_valid_utf8 :: "string \<Rightarrow> string" where
  "to_valid_utf8 [] = []"
| "to_valid_utf8 (a # s) =
     (let w = rune_width (a # s) in
      if w = 0 then to_valid_utf8 s
      else take w (a # s) @ to_valid_utf8 (drop w (a # s)))"
  by pat_completeness auto
termination
  by (relation "measure length") (auto simp: drop_Cons split: nat.split)

section \<open>Slices\<close>

text \<open>\<open>slices.Contains\<close>-guarded append: \<open>appendUnique\<close> and \<open>appendReason\<close> of package plan.\<close>

definition append_new :: "'a list \<Rightarrow> 'a \<Rightarrow> 'a list" where
  "append_new xs x = (if x \<in> set xs then xs else xs @ [x])"

definition append_all_new :: "'a list \<Rightarrow> 'a list \<Rightarrow> 'a list" where
  "append_all_new xs ys = foldl append_new xs ys"

section \<open>Maps\<close>

type_synonym ('k, 'v) gomap = "('k \<times> 'v) list"
type_synonym 'v smap = "(string, 'v) gomap"

abbreviation mget :: "('k, 'v) gomap \<Rightarrow> 'k \<Rightarrow> 'v option" where
  "mget \<equiv> map_of"

abbreviation mkeys :: "('k, 'v) gomap \<Rightarrow> 'k list" where
  "mkeys m \<equiv> map fst m"

abbreviation mvals :: "('k, 'v) gomap \<Rightarrow> 'v list" where
  "mvals m \<equiv> map snd m"

definition mhas :: "('k, 'v) gomap \<Rightarrow> 'k \<Rightarrow> bool" where
  "mhas m k \<longleftrightarrow> mget m k \<noteq> None"

fun mput :: "'k::linorder \<Rightarrow> 'v \<Rightarrow> ('k, 'v) gomap \<Rightarrow> ('k, 'v) gomap" where
  "mput k v [] = [(k, v)]"
| "mput k v ((a, b) # m) =
     (if k < a then (k, v) # (a, b) # m
      else if k = a then (k, v) # m
      else (a, b) # mput k v m)"

definition mdel :: "'k \<Rightarrow> ('k, 'v) gomap \<Rightarrow> ('k, 'v) gomap" where
  "mdel k m = filter (\<lambda>p. fst p \<noteq> k) m"

definition wf_map :: "('k::linorder, 'v) gomap \<Rightarrow> bool" where
  "wf_map m \<longleftrightarrow> sorted_wrt (<) (mkeys m)"

text \<open>\<open>e := m[k]; if e == nil { e = fresh; m[k] = e }; update(e)\<close>.\<close>

definition mupsert :: "'k::linorder \<Rightarrow> 'v \<Rightarrow> ('v \<Rightarrow> 'v) \<Rightarrow> ('k, 'v) gomap \<Rightarrow> ('k, 'v) gomap" where
  "mupsert k fresh upd m = mput k (upd (case mget m k of None \<Rightarrow> fresh | Some v \<Rightarrow> v)) m"

text \<open>Keep the entries an update accepts, with the updated value (delete while ranging).\<close>

definition mfilter_map :: "('k \<Rightarrow> 'v \<Rightarrow> 'w option) \<Rightarrow> ('k, 'v) gomap \<Rightarrow> ('k, 'w) gomap" where
  "mfilter_map f m = List.map_filter (\<lambda>(k, v). map_option (Pair k) (f k v)) m"

text \<open>A zero value is what a Go map read returns for a missing string key.\<close>

definition mget_str :: "string smap \<Rightarrow> string \<Rightarrow> string" where
  "mget_str m k = (case mget m k of None \<Rightarrow> [] | Some v \<Rightarrow> v)"

section \<open>Lemmas on slices\<close>

lemma set_append_new [simp]: "set (append_new xs x) = insert x (set xs)"
  by (auto simp: append_new_def)

lemma distinct_append_new [simp]: "distinct (append_new xs x) = distinct xs"
  by (auto simp: append_new_def)

lemma append_new_not_Nil [simp]: "append_new xs x \<noteq> []"
  by (auto simp: append_new_def)

lemma append_all_new_Nil [simp]: "append_all_new xs [] = xs"
  by (simp add: append_all_new_def)

lemma append_all_new_Cons: "append_all_new xs (y # ys) = append_all_new (append_new xs y) ys"
  by (simp add: append_all_new_def)

lemma set_append_all_new [simp]: "set (append_all_new xs ys) = set xs \<union> set ys"
  by (induction ys arbitrary: xs) (auto simp: append_all_new_Cons)

lemma distinct_append_all_new [simp]: "distinct (append_all_new xs ys) = distinct xs"
  by (induction ys arbitrary: xs) (auto simp: append_all_new_Cons)

lemma append_all_new_eq_Nil [simp]: "append_all_new xs ys = [] \<longleftrightarrow> xs = [] \<and> ys = []"
proof -
  have "append_all_new xs ys = [] \<longleftrightarrow> set (append_all_new xs ys) = {}"
    by (simp only: set_empty)
  then show ?thesis by (simp only: set_append_all_new) simp
qed

section \<open>Lemmas on maps\<close>

lemma mget_mput [simp]: "mget (mput k v m) = (mget m)(k \<mapsto> v)"
  by (induction m) auto

lemma keys_mput [simp]: "fst ` set (mput k v m) = insert k (fst ` set m)"
  by (induction k v m rule: mput.induct) (simp_all add: insert_commute)

lemma set_mput_subset: "set (mput k v m) \<subseteq> insert (k, v) (set m)"
  by (induction m) (auto split: if_splits)

lemma wf_map_Nil [simp, intro!]: "wf_map []"
  by (simp add: wf_map_def)

lemma wf_map_Cons:
  "wf_map ((k, v) # m) \<longleftrightarrow> (\<forall>k' \<in> fst ` set m. k < k') \<and> wf_map m"
  by (simp add: wf_map_def)

lemma wf_map_mput [simp, intro]: "wf_map m \<Longrightarrow> wf_map (mput k v m)"
proof (induction m)
  case Nil
  show ?case by (simp add: wf_map_def)
next
  case (Cons p m)
  obtain a b where p: "p = (a, b)" by fastforce
  have "\<forall>k' \<in> fst ` set (mput k v m). a < k'" if "\<not> k < a" "k \<noteq> a"
    using that Cons.prems unfolding keys_mput by (auto simp: p wf_map_Cons)
  with Cons show ?case
    by (auto simp: p wf_map_Cons simp del: keys_mput dest: order.strict_trans)
qed

lemma mget_mdel [simp]: "mget (mdel k m) = (mget m)(k := None)"
  by (induction m) (auto simp: mdel_def fun_eq_iff)

lemma mkeys_mdel [simp]: "mkeys (mdel k m) = filter (\<lambda>x. x \<noteq> k) (mkeys m)"
  by (induction m) (auto simp: mdel_def)

lemma sorted_wrt_filterI: "sorted_wrt P xs \<Longrightarrow> sorted_wrt P (filter Q xs)"
  by (induction xs) auto

lemma wf_map_mdel [simp, intro]: "wf_map m \<Longrightarrow> wf_map (mdel k m)"
  by (simp add: wf_map_def sorted_wrt_filterI)

lemma wf_map_distinct: "wf_map m \<Longrightarrow> distinct (mkeys m)"
  by (simp add: wf_map_def strict_sorted_iff)

lemma wf_map_sorted: "wf_map m \<Longrightarrow> sorted (mkeys m)"
  by (simp add: wf_map_def strict_sorted_iff)

lemma wf_map_get: "wf_map m \<Longrightarrow> (k, v) \<in> set m \<longleftrightarrow> mget m k = Some v"
  by (metis map_of_eq_Some_iff wf_map_distinct)

lemma mhas_keys [simp]: "mhas m k \<longleftrightarrow> k \<in> fst ` set m"
  by (auto simp: mhas_def map_of_eq_None_iff)

lemma mget_keys: "mget m k = Some v \<Longrightarrow> k \<in> fst ` set m"
  using mhas_keys [of m k] by (simp only: mhas_def) simp

lemma mget_mupsert:
  "mget (mupsert k fresh upd m) k' =
     (if k' = k then Some (upd (case mget m k of None \<Rightarrow> fresh | Some v \<Rightarrow> v)) else mget m k')"
  by (simp add: mupsert_def)

lemma keys_mupsert [simp]: "fst ` set (mupsert k fresh upd m) = insert k (fst ` set m)"
  by (simp add: mupsert_def)

lemma wf_map_mupsert [simp, intro]: "wf_map m \<Longrightarrow> wf_map (mupsert k fresh upd m)"
  by (simp add: mupsert_def)

text \<open>Two well-formed maps with the same reads are the same map.\<close>

lemma wf_map_ext:
  assumes "wf_map m" "wf_map m'" "mget m = mget m'"
  shows "m = m'"
proof -
  have "set m = set m'"
  proof (rule set_eqI)
    fix p
    show "p \<in> set m \<longleftrightarrow> p \<in> set m'"
      by (cases p) (simp add: wf_map_get assms)
  qed
  moreover have "inj_on fst (set m)"
    using wf_map_distinct [OF assms(1)] by (simp add: distinct_map)
  ultimately show ?thesis
    using assms
    by (intro map_sorted_distinct_set_unique [where f = fst])
      (simp_all add: wf_map_sorted wf_map_distinct)
qed

lemma mfilter_map_Nil [simp]: "mfilter_map f [] = []"
  by (simp add: mfilter_map_def List.map_filter_def)

lemma mfilter_map_Cons [simp]:
  "mfilter_map f ((k, v) # m) =
     (case f k v of None \<Rightarrow> mfilter_map f m | Some w \<Rightarrow> (k, w) # mfilter_map f m)"
  by (simp add: mfilter_map_def List.map_filter_def split: option.split)

lemma in_mfilter_map:
  "(k, w) \<in> set (mfilter_map f m) \<longleftrightarrow> (\<exists>v. (k, v) \<in> set m \<and> f k v = Some w)"
  by (induction m) (auto split: option.splits)

lemma keys_mfilter_map: "fst ` set (mfilter_map f m) \<subseteq> fst ` set m"
  by (force simp: in_mfilter_map)

lemma wf_map_mfilter_map [simp, intro]: "wf_map m \<Longrightarrow> wf_map (mfilter_map f m)"
proof (induction m)
  case Nil
  show ?case by simp
next
  case (Cons p m)
  obtain a b where p: "p = (a, b)" by fastforce
  from Cons.prems have "\<forall>k' \<in> fst ` set (mfilter_map f m). a < k'"
    using keys_mfilter_map [of f m] unfolding p wf_map_Cons by blast
  with Cons show ?case
    by (simp add: p wf_map_Cons split: option.split)
qed

text \<open>Invariants of the values of a map.\<close>

definition mall :: "('k \<Rightarrow> 'v \<Rightarrow> bool) \<Rightarrow> ('k, 'v) gomap \<Rightarrow> bool" where
  "mall P m \<longleftrightarrow> (\<forall>(k, v) \<in> set m. P k v)"

lemma mall_Nil [simp, intro!]: "mall P []"
  by (simp add: mall_def)

lemma mall_mput [intro]: "mall P m \<Longrightarrow> P k v \<Longrightarrow> mall P (mput k v m)"
  using set_mput_subset [of k v m] by (fastforce simp: mall_def)

lemma mall_get: "mall P m \<Longrightarrow> mget m k = Some v \<Longrightarrow> P k v"
  by (auto simp: mall_def dest: map_of_SomeD)

lemma mall_mupsert:
  assumes "mall P m" "P k (upd fresh)" "\<And>v. P k v \<Longrightarrow> P k (upd v)"
  shows "mall P (mupsert k fresh upd m)"
  using assms by (auto simp: mupsert_def intro!: mall_mput split: option.split dest: mall_get)

lemma mall_mono: "mall P m \<Longrightarrow> (\<And>k v. P k v \<Longrightarrow> Q k v) \<Longrightarrow> mall Q m"
  by (auto simp: mall_def)

section \<open>Folds\<close>

text \<open>
  The loops of the program are \<open>fold\<close>s over a list of keys. An invariant of the body is an
  invariant of the loop; what one iteration establishes and the later ones keep holds at the end.
\<close>

lemma map_eq_in: "map f xs = ys \<Longrightarrow> y \<in> set ys \<Longrightarrow> \<exists>x \<in> set xs. f x = y"
  by auto

lemma fold_inv:
  assumes "P s" "\<And>x s. x \<in> set xs \<Longrightarrow> P s \<Longrightarrow> P (f x s)"
  shows "P (fold f xs s)"
  using assms by (induction xs arbitrary: s) auto

lemma fold_establish:
  assumes "x \<in> set xs" "\<And>s. P (f x s)" "\<And>y s. y \<in> set xs \<Longrightarrow> P s \<Longrightarrow> P (f y s)"
  shows "P (fold f xs s)"
  using assms
proof (induction xs arbitrary: s)
  case Nil
  then show ?case by simp
next
  case (Cons y ys)
  show ?case
  proof (cases "x \<in> set ys")
    case True
    with Cons show ?thesis by simp
  next
    case False
    with Cons.prems(1) have "y = x" by simp
    with Cons.prems(2) have "P (f y s)" by simp
    with Cons.prems(3) have "P (fold f ys (f y s))" by (auto intro: fold_inv)
    then show ?thesis by simp
  qed
qed

lemma fold_field:
  assumes "\<And>x s. g (f x s) = h x (g s)"
  shows "g (fold f xs s) = fold h xs (g s)"
  using assms by (induction xs arbitrary: s) auto

lemma fold_nop: "(\<And>x s. x \<in> set xs \<Longrightarrow> f x s = s) \<Longrightarrow> fold f xs s = s"
  by (induction xs) auto

section \<open>Lemmas on strings\<close>

lemma to_valid_utf8_length: "length (to_valid_utf8 s) \<le> length s"
proof (induction s rule: to_valid_utf8.induct)
  case 1
  show ?case by simp
next
  case (2 a s)
  show ?case
  proof (cases "rune_width (a # s) = 0")
    case True
    with 2 show ?thesis by (simp add: Let_def)
  next
    case False
    with 2(2) have "length (to_valid_utf8 (drop (rune_width (a # s)) (a # s)))
        \<le> length (drop (rune_width (a # s)) (a # s))" by simp
    with False show ?thesis by (simp add: Let_def min_def) arith
  qed
qed

lemma replace_char_notin: "old \<notin> set new \<Longrightarrow> old \<notin> set (replace_char old new s)"
  by (auto simp: replace_char_def split: if_splits)

lemma lower_char_not_upper: "\<not> (CHR ''A'' \<le> lower_char c \<and> lower_char c \<le> CHR ''Z'')"
proof (cases "CHR ''A'' \<le> c \<and> c \<le> CHR ''Z''")
  case True
  then have n: "65 \<le> (of_char c :: nat)" "(of_char c :: nat) \<le> 90"
    by (auto simp: less_eq_char_def)
  then have "(of_char (lower_char c) :: nat) = of_char c + 32"
    using True by (simp add: lower_char_def)
  with n show ?thesis by (simp add: less_eq_char_def)
next
  case False
  then show ?thesis unfolding lower_char_def by presburger
qed

lemma lower_char_idem [simp]: "lower_char (lower_char c) = lower_char c"
  using lower_char_not_upper [of c] unfolding lower_char_def [of "lower_char c"] by presburger

lemma to_lower_idem [simp]: "to_lower (to_lower s) = to_lower s"
  by (simp add: to_lower_def)

end
