(* ===== verification/Config_Types.thy ===== *)
theory Config_Types
  imports Go_Prelude
begin

text \<open>
  Package \<open>internal/config\<close>: the parsed \<open>zmconfigd.cf\<close> (\<open>MtaConfig\<close> and its sections), the legacy
  truth values, and the daemon's own settings (\<open>Config\<close>) with the rules by which localconfig
  overrides them. A nil \<open>*MtaConfigSection\<close> in the section map is \<open>None\<close>.
\<close>

section \<open>The parsed zmconfigd.cf\<close>

record RewriteEntry =
  rwe_value :: string
  rwe_mode :: string

record Conditional =
  cond_type :: string
  cond_key :: string
  cond_negated :: bool
  cond_postconf :: "string smap"
  cond_postconfd :: "string smap"
  cond_required :: "string smap"

record MtaConfigSection =
  sec_name :: string
  sec_depends :: "bool smap"
  sec_rewrites :: "RewriteEntry smap"
  sec_restarts :: "bool smap"
  sec_required :: "string smap"
  sec_postconf :: "string smap"
  sec_postconfd :: "string smap"
  sec_ldap :: "string smap"
  sec_proxygen :: bool
  sec_conditionals :: "Conditional list"

record MtaConfig =
  mta_sections :: "MtaConfigSection option smap"

text \<open>The zero value of a section, the base of the concrete sections used below.\<close>

definition empty_section :: "string \<Rightarrow> MtaConfigSection" where
  "empty_section n =
     \<lparr>sec_name = n, sec_depends = [], sec_rewrites = [], sec_restarts = [], sec_required = [],
      sec_postconf = [], sec_postconfd = [], sec_ldap = [], sec_proxygen = False,
      sec_conditionals = []\<rparr>"

section \<open>Truth values\<close>

definition hasPrefixFold :: "string \<Rightarrow> string \<Rightarrow> bool" where
  "hasPrefixFold s prefix \<longleftrightarrow>
     length prefix \<le> length s \<and> equal_fold (take (length prefix) s) prefix"

definition IsTruthy :: "string \<Rightarrow> bool" where
  "IsTruthy s \<longleftrightarrow> equal_fold s ''TRUE'' \<or> s = ''1''"

definition IsFalseValue :: "string \<Rightarrow> bool" where
  "IsFalseValue val \<longleftrightarrow>
     (case val of
        [] \<Rightarrow> True
      | c # _ \<Rightarrow> c = CHR ''0'' \<or> hasPrefixFold val ''no'' \<or> hasPrefixFold val ''false'')"

definition IsTrueValue :: "string \<Rightarrow> bool" where
  "IsTrueValue val \<longleftrightarrow> \<not> IsFalseValue val"

section \<open>Integers: strconv.Atoi on a 64-bit host\<close>

definition digit_val :: "char \<Rightarrow> int option" where
  "digit_val c = (if CHR ''0'' \<le> c \<and> c \<le> CHR ''9'' then Some (of_char c - 48) else None)"

fun parse_digits :: "int \<Rightarrow> string \<Rightarrow> int option" where
  "parse_digits acc [] = Some acc"
| "parse_digits acc (c # s) =
     (case digit_val c of None \<Rightarrow> None | Some d \<Rightarrow> parse_digits (10 * acc + d) s)"

definition int_min :: int where "int_min = - (2 ^ 63)"
definition int_max :: int where "int_max = 2 ^ 63 - 1"

text \<open>\<open>None\<close> is any error: an empty or non-numeric text, or a value out of range.\<close>

definition atoi :: "string \<Rightarrow> int option" where
  "atoi s =
     (let (neg, ds) =
        (case s of
           c # r \<Rightarrow> if c = CHR ''-'' then (True, r) else if c = CHR ''+'' then (False, r) else (False, s)
         | [] \<Rightarrow> (False, s))
      in if ds = [] then None
         else (case parse_digits 0 ds of
                 None \<Rightarrow> None
               | Some n \<Rightarrow>
                   let v = (if neg then - n else n) in
                   if int_min \<le> v \<and> v \<le> int_max then Some v else None))"

section \<open>The daemon settings\<close>

record Config =
  cfg_BaseDir :: string
  cfg_ConfigFile :: string
  cfg_TemplateDir :: string
  cfg_Sections :: "string list"
  cfg_ServiceHooks :: string
  cfg_Interval :: int
  cfg_WatchdogInterval :: int
  cfg_SkipIdlePolls :: bool
  cfg_RestartConfig :: bool
  cfg_RestartDebounce :: int
  cfg_MetricsTextfile :: string
  cfg_CycleSummary :: bool
  cfg_Debug :: bool
  cfg_Watchdog :: bool
  cfg_WdList :: "string list"
  cfg_LogLevel :: int
  cfg_LdapIsMaster :: bool
  cfg_LdapRootPassword :: string
  cfg_LdapMasterURL :: string
  cfg_LdapChangeTrigger :: bool
  cfg_LdapChangePollSeconds :: int
  cfg_LdapChangeDebounceSeconds :: int

text \<open>
  The defaults of \<open>NewConfigWithHostname\<close> for a base directory; the program name, log file and
  host name, which localconfig does not override, are not part of the record.
\<close>

definition NewConfig :: "string \<Rightarrow> Config" where
  "NewConfig baseDir =
     \<lparr>cfg_BaseDir = baseDir, cfg_ConfigFile = baseDir @ ''/conf/zmconfigd.cf'',
      cfg_TemplateDir = baseDir, cfg_Sections = [], cfg_ServiceHooks = [], cfg_Interval = 300,
      cfg_WatchdogInterval = 120, cfg_SkipIdlePolls = False, cfg_RestartConfig = True,
      cfg_RestartDebounce = 0, cfg_MetricsTextfile = [], cfg_CycleSummary = False,
      cfg_Debug = False, cfg_Watchdog = True, cfg_WdList = [''antivirus''], cfg_LogLevel = 3,
      cfg_LdapIsMaster = False, cfg_LdapRootPassword = [], cfg_LdapMasterURL = [],
      cfg_LdapChangeTrigger = True, cfg_LdapChangePollSeconds = 5,
      cfg_LdapChangeDebounceSeconds = 2\<rparr>"

text \<open>
  The field helpers return the new value of the destination, which they keep when the key is
  absent (or, for an integer, empty or unparseable).
\<close>

definition localStr :: "string smap \<Rightarrow> string \<Rightarrow> string \<Rightarrow> string" where
  "localStr data key dst = (case mget data key of Some v \<Rightarrow> v | None \<Rightarrow> dst)"

definition localInt :: "string smap \<Rightarrow> string \<Rightarrow> int \<Rightarrow> int" where
  "localInt data key dst =
     (case mget data key of
        Some v \<Rightarrow> if v = [] then dst else (case atoi v of Some i \<Rightarrow> i | None \<Rightarrow> dst)
      | None \<Rightarrow> dst)"

definition localBoolTrue :: "string smap \<Rightarrow> string \<Rightarrow> bool \<Rightarrow> bool" where
  "localBoolTrue data key dst = (case mget data key of Some v \<Rightarrow> equal_fold v ''TRUE'' | None \<Rightarrow> dst)"

definition localBoolNotFalse :: "string smap \<Rightarrow> string \<Rightarrow> bool \<Rightarrow> bool" where
  "localBoolNotFalse data key dst =
     (case mget data key of Some v \<Rightarrow> \<not> equal_fold v ''FALSE'' | None \<Rightarrow> dst)"

definition localBoolUnlessOff :: "string smap \<Rightarrow> string \<Rightarrow> bool \<Rightarrow> bool" where
  "localBoolUnlessOff data key dst =
     (case mget data key of
        None \<Rightarrow> dst
      | Some v \<Rightarrow> to_lower (trim_space v) \<notin> {''false'', ''no'', ''0'', ''off''})"

definition setTemplateDir :: "string smap \<Rightarrow> Config \<Rightarrow> Config" where
  "setTemplateDir data c =
     (case mget data ''zmconfigd_template_dir'' of
        None \<Rightarrow> c
      | Some v \<Rightarrow> if v = [] then c
                  else c\<lparr>cfg_TemplateDir := v, cfg_ConfigFile := v @ ''/conf/zmconfigd.cf''\<rparr>)"

definition SetRuntimeVals :: "string smap \<Rightarrow> Config \<Rightarrow> Config" where
  "SetRuntimeVals data c0 =
     (let c1 = setTemplateDir data c0;
          c2 = (case mget data ''zmconfigd_sections'' of
                  Some v \<Rightarrow> c1\<lparr>cfg_Sections := str_fields v\<rparr> | None \<Rightarrow> c1)
      in c2\<lparr>cfg_ServiceHooks := localStr data ''zmconfigd_service_hooks'' (cfg_ServiceHooks c2)\<rparr>)"

definition SetVals :: "string smap \<Rightarrow> Config \<Rightarrow> Config" where
  "SetVals data c =
     (let c1 = c
        \<lparr>cfg_LdapIsMaster := localBoolTrue data ''ldap_is_master'' (cfg_LdapIsMaster c),
         cfg_LdapRootPassword := localStr data ''ldap_root_password'' (cfg_LdapRootPassword c),
         cfg_LdapMasterURL := localStr data ''ldap_master_url'' (cfg_LdapMasterURL c),
         cfg_LogLevel := localInt data ''zmconfigd_log_level'' (cfg_LogLevel c),
         cfg_Interval := localInt data ''zmconfigd_interval'' (cfg_Interval c),
         cfg_WatchdogInterval := localInt data ''zmconfigd_watchdog_interval'' (cfg_WatchdogInterval c),
         cfg_SkipIdlePolls := localBoolTrue data ''zmconfigd_skip_idle_polls'' (cfg_SkipIdlePolls c),
         cfg_Debug := localBoolTrue data ''zmconfigd_debug'' (cfg_Debug c),
         cfg_Watchdog := localBoolNotFalse data ''zmconfigd_watchdog'' (cfg_Watchdog c),
         cfg_RestartConfig :=
           localBoolNotFalse data ''zmconfigd_enable_config_restarts'' (cfg_RestartConfig c),
         cfg_RestartDebounce :=
           localInt data ''zmconfigd_restart_debounce_seconds'' (cfg_RestartDebounce c),
         cfg_MetricsTextfile := localStr data ''zmconfigd_metrics_textfile'' (cfg_MetricsTextfile c),
         cfg_CycleSummary := localBoolTrue data ''zmconfigd_cycle_summary'' (cfg_CycleSummary c),
         cfg_LdapChangeTrigger :=
           localBoolUnlessOff data ''zmconfigd_ldap_change_trigger'' (cfg_LdapChangeTrigger c),
         cfg_LdapChangePollSeconds :=
           localInt data ''zmconfigd_ldap_change_poll_seconds'' (cfg_LdapChangePollSeconds c),
         cfg_LdapChangeDebounceSeconds :=
           localInt data ''zmconfigd_ldap_change_debounce_seconds''
             (cfg_LdapChangeDebounceSeconds c)\<rparr>;
          c2 = SetRuntimeVals data c1
      in (case mget data ''zmconfigd_watchdog_services'' of
            Some v \<Rightarrow> c2\<lparr>cfg_WdList := str_fields v\<rparr> | None \<Rightarrow> c2))"

definition TemplatePath :: "Config \<Rightarrow> string \<Rightarrow> string" where
  "TemplatePath c rel =
     (let root = (if cfg_TemplateDir c = [] then cfg_BaseDir c else cfg_TemplateDir c)
      in root @ ''/'' @ rel)"

section \<open>Lemmas\<close>

lemma localInt_idem [simp]: "localInt data key (localInt data key dst) = localInt data key dst"
  by (auto simp: localInt_def split: option.split)

lemma localStr_idem [simp]: "localStr data key (localStr data key dst) = localStr data key dst"
  by (auto simp: localStr_def split: option.split)

lemma localBool_idem [simp]:
  "localBoolTrue data key (localBoolTrue data key dst) = localBoolTrue data key dst"
  "localBoolNotFalse data key (localBoolNotFalse data key dst) = localBoolNotFalse data key dst"
  "localBoolUnlessOff data key (localBoolUnlessOff data key dst) = localBoolUnlessOff data key dst"
  by (auto simp: localBoolTrue_def localBoolNotFalse_def localBoolUnlessOff_def split: option.split)

lemma atoi_range:
  assumes "atoi s = Some v"
  shows "int_min \<le> v \<and> v \<le> int_max"
  using assms by (auto simp: atoi_def Let_def split: option.splits list.splits if_splits prod.splits)

lemma localInt_range:
  assumes "int_min \<le> dst" "dst \<le> int_max"
  shows "int_min \<le> localInt data key dst \<and> localInt data key dst \<le> int_max"
  using assms atoi_range by (auto simp: localInt_def split: option.split)

end
