(* ===== verification/Snapshots.thy ===== *)
theory Snapshots
  imports Config_Types
begin

text \<open>
  Package \<open>internal/snapshot\<close>: the immutable view of the configuration one cycle works on. A
  \<open>*Snapshot\<close> is a \<open>Snapshot option\<close>; the nil pointer (\<open>None\<close>) is a valid empty snapshot, so every
  accessor is defined on it. The copies that \<open>New\<close> and the \<open>With\<close> functions take are invisible
  here: HOL values are immutable.
\<close>

section \<open>Types and constants\<close>

abbreviation TypeVar :: string where "TypeVar \<equiv> ''VAR''"
abbreviation TypeLocal :: string where "TypeLocal \<equiv> ''LOCAL''"
abbreviation TypeFile :: string where "TypeFile \<equiv> ''FILE''"
abbreviation TypeMapFile :: string where "TypeMapFile \<equiv> ''MAPFILE''"
abbreviation TypeMapLocal :: string where "TypeMapLocal \<equiv> ''MAPLOCAL''"
abbreviation TypeService :: string where "TypeService \<equiv> ''SERVICE''"

abbreviation ServiceTrue :: string where "ServiceTrue \<equiv> ''TRUE''"
abbreviation ServiceFalse :: string where "ServiceFalse \<equiv> ''FALSE''"

text \<open>A lookup is a type and a key.\<close>

type_synonym Lookup = "string \<times> string"

record Parts =
  p_local :: "string smap"
  p_global :: "string smap"
  p_server :: "string smap"
  p_misc :: "string smap"
  p_services :: "string smap"

record Snapshot =
  s_local :: "string smap"
  s_global :: "string smap"
  s_server :: "string smap"
  s_misc :: "string smap"
  s_services :: "string smap"
  s_observed :: "(Lookup, string) gomap"

type_synonym SnapshotRef = "Snapshot option"

section \<open>Construction\<close>

definition zero_snapshot :: Snapshot where
  "zero_snapshot =
     \<lparr>s_local = [], s_global = [], s_server = [], s_misc = [], s_services = [], s_observed = []\<rparr>"

definition NewSnapshot :: "Parts \<Rightarrow> SnapshotRef" where
  "NewSnapshot parts =
     Some \<lparr>s_local = p_local parts, s_global = p_global parts, s_server = p_server parts,
           s_misc = p_misc parts, s_services = p_services parts, s_observed = []\<rparr>"

definition shallow :: "SnapshotRef \<Rightarrow> Snapshot" where
  "shallow s = (case s of None \<Rightarrow> zero_snapshot | Some x \<Rightarrow> x)"

definition WithObserved :: "SnapshotRef \<Rightarrow> (Lookup, string) gomap \<Rightarrow> SnapshotRef" where
  "WithObserved s obs = Some ((shallow s)\<lparr>s_observed := obs\<rparr>)"

definition WithLocal :: "SnapshotRef \<Rightarrow> string smap \<Rightarrow> SnapshotRef" where
  "WithLocal s m = Some ((shallow s)\<lparr>s_local := m\<rparr>)"

definition WithGlobal :: "SnapshotRef \<Rightarrow> string smap \<Rightarrow> SnapshotRef" where
  "WithGlobal s m = Some ((shallow s)\<lparr>s_global := m\<rparr>)"

definition WithMisc :: "SnapshotRef \<Rightarrow> string smap \<Rightarrow> SnapshotRef" where
  "WithMisc s m = Some ((shallow s)\<lparr>s_misc := m\<rparr>)"

definition WithServer :: "SnapshotRef \<Rightarrow> string smap \<Rightarrow> string smap \<Rightarrow> SnapshotRef" where
  "WithServer s server services =
     Some ((shallow s)\<lparr>s_server := server, s_services := services\<rparr>)"

section \<open>Accessors\<close>

definition Local :: "SnapshotRef \<Rightarrow> string \<Rightarrow> string option" where
  "Local s key = (case s of None \<Rightarrow> None | Some x \<Rightarrow> mget (s_local x) key)"

definition Global :: "SnapshotRef \<Rightarrow> string \<Rightarrow> string option" where
  "Global s key = (case s of None \<Rightarrow> None | Some x \<Rightarrow> mget (s_global x) key)"

definition Server :: "SnapshotRef \<Rightarrow> string \<Rightarrow> string option" where
  "Server s key = (case s of None \<Rightarrow> None | Some x \<Rightarrow> mget (s_server x) key)"

definition Misc :: "SnapshotRef \<Rightarrow> string \<Rightarrow> string option" where
  "Misc s key = (case s of None \<Rightarrow> None | Some x \<Rightarrow> mget (s_misc x) key)"

definition Var :: "SnapshotRef \<Rightarrow> string \<Rightarrow> string option" where
  "Var s key =
     (case Server s key of
        Some v \<Rightarrow> Some v
      | None \<Rightarrow> (case Misc s key of Some v \<Rightarrow> Some v | None \<Rightarrow> Global s key))"

definition ServiceEnabled :: "SnapshotRef \<Rightarrow> string \<Rightarrow> bool" where
  "ServiceEnabled s name = (case s of None \<Rightarrow> False | Some x \<Rightarrow> mhas (s_services x) name)"

definition ServiceNames :: "SnapshotRef \<Rightarrow> string list" where
  "ServiceNames s = (case s of None \<Rightarrow> [] | Some x \<Rightarrow> mkeys (s_services x))"

definition ServiceValue :: "SnapshotRef \<Rightarrow> string \<Rightarrow> string" where
  "ServiceValue s name = (case s of None \<Rightarrow> [] | Some x \<Rightarrow> mget_str (s_services x) name)"

definition Observed :: "SnapshotRef \<Rightarrow> string \<Rightarrow> string \<Rightarrow> string option" where
  "Observed s lookupType key =
     (case s of None \<Rightarrow> None | Some x \<Rightarrow> mget (s_observed x) (lookupType, key))"

definition SnapshotValue :: "SnapshotRef \<Rightarrow> string \<Rightarrow> string \<Rightarrow> string option" where
  "SnapshotValue s lookupType key =
     (if lookupType = TypeVar then Var s key
      else if lookupType = TypeLocal then Local s key
      else if lookupType = TypeService then
        (if ServiceEnabled s key then Some ServiceTrue else Some ServiceFalse)
      else Observed s lookupType key)"

text \<open>The observed value with Go's zero value for a missing one, as the diff reads it.\<close>

definition observed_or_empty :: "SnapshotRef \<Rightarrow> string \<Rightarrow> string \<Rightarrow> string" where
  "observed_or_empty s lookupType key =
     (case Observed s lookupType key of None \<Rightarrow> [] | Some v \<Rightarrow> v)"

section \<open>Lemmas\<close>

text \<open>The service list is strictly sorted where the underlying map is a map.\<close>

definition wf_snapshot :: "SnapshotRef \<Rightarrow> bool" where
  "wf_snapshot s = (case s of None \<Rightarrow> True | Some x \<Rightarrow>
     wf_map (s_local x) \<and> wf_map (s_global x) \<and> wf_map (s_server x) \<and> wf_map (s_misc x) \<and>
     wf_map (s_services x) \<and> wf_map (s_observed x))"

lemma set_ServiceNames [simp]: "set (ServiceNames s) = {n. ServiceEnabled s n}"
  by (auto simp: ServiceNames_def ServiceEnabled_def split: option.split)

lemma in_ServiceNames: "n \<in> set (ServiceNames s) \<longleftrightarrow> ServiceEnabled s n"
  by simp

lemma shallow_Some [simp]: "shallow (Some x) = x"
  by (simp add: shallow_def)

lemma Observed_WithObserved [simp]: "Observed (WithObserved s obs) t k = mget obs (t, k)"
  by (simp add: Observed_def WithObserved_def)

lemma With_frame [simp]:
  "ServiceEnabled (WithObserved s obs) n = ServiceEnabled s n"
  "ServiceNames (WithObserved s obs) = ServiceNames s"
  "Local (WithObserved s obs) k = Local s k"
  "Var (WithObserved s obs) k = Var s k"
  by (auto simp: WithObserved_def shallow_def zero_snapshot_def ServiceEnabled_def ServiceNames_def
      Local_def Var_def Server_def Misc_def Global_def split: option.split)

lemma wf_NewSnapshot:
  assumes "wf_map (p_local p)" "wf_map (p_global p)" "wf_map (p_server p)" "wf_map (p_misc p)"
    "wf_map (p_services p)"
  shows "wf_snapshot (NewSnapshot p)"
  using assms by (simp add: wf_snapshot_def NewSnapshot_def)

text \<open>The precedence of a VAR lookup: server over misc over global (the legacy assignment order).\<close>

lemma Var_precedence:
  "Var s k = ((Global s ++ Misc s) ++ Server s) k"
  by (simp add: Var_def map_add_def split: option.split)

end
