(* ===== verification/Redaction.thy ===== *)
theory Redaction
  imports Go_Prelude
begin

text \<open>
  Package \<open>internal/redact\<close>: which configuration keys name a secret, and what is shown in place
  of their values. The regular expressions of \<open>Text\<close> (PEM blocks, URL passwords) are not
  modelled here.
\<close>

abbreviation Placeholder :: string where
  "Placeholder \<equiv> ''[REDACTED]''"

definition secretKeyTokens :: "string list" where
  "secretKeyTokens =
     [''password'', ''passwd'', ''passphrase'', ''secret'', ''token'', ''credential'',
      ''privatekey'', ''private_key'', ''apikey'', ''api_key'', ''_pwd'', ''bindpw'', ''creds'']"

definition secretKeySuffixes :: "string list" where
  "secretKeySuffixes = [''_key'', ''_pass'', ''_pw'', ''_pin'']"

definition IsSecretKey :: "string \<Rightarrow> bool" where
  "IsSecretKey key =
     (let k = to_lower key in
      if k = ''pin'' then True
      else if list_ex (contains_sub k) secretKeyTokens then True
      else list_ex (has_suffix k) secretKeySuffixes)"

definition ForLog :: "string \<Rightarrow> string \<Rightarrow> string" where
  "ForLog key val = (if val = [] \<or> \<not> IsSecretKey key then val else Placeholder)"

definition valueAttrNames :: "string list" where
  "valueAttrNames = [''value'', ''old'', ''new'', ''have'', ''want'', ''previous'', ''current'']"

definition IsValueAttr :: "string \<Rightarrow> bool" where
  "IsValueAttr name \<longleftrightarrow> name \<in> set valueAttrNames \<or> has_suffix name ''_value''"

definition keyAttrNames :: "string list" where
  "keyAttrNames =
     [''key'', ''attr'', ''attribute'', ''variable'', ''var'', ''lc_key'', ''param'', ''setting'']"

definition IsKeyAttr :: "string \<Rightarrow> bool" where
  "IsKeyAttr name \<longleftrightarrow> name \<in> set keyAttrNames"

lemma ForLog_secret: "IsSecretKey key \<Longrightarrow> ForLog key val = (if val = [] then [] else Placeholder)"
  by (simp add: ForLog_def)

lemma ForLog_empty [simp]: "ForLog key val = [] \<longleftrightarrow> val = []"
  by (simp add: ForLog_def)

lemma IsSecretKey_case: "IsSecretKey (to_lower key) = IsSecretKey key"
  by (simp add: IsSecretKey_def)

text \<open>Redacting twice is redacting once: every log sink may apply it again.\<close>

lemma ForLog_idem [simp]: "ForLog key (ForLog key val) = ForLog key val"
  by (simp add: ForLog_def)

lemma ForLog_length: "length (ForLog key val) \<le> max (length val) 10"
  by (simp add: ForLog_def le_max_iff_disj)

end
