(* ===== verification/Plan_Types.thy ===== *)
theory Plan_Types
  imports Snapshots Redaction
begin

text \<open>
  Package \<open>internal/plan\<close>, everything but \<open>compute.go\<close>: the plan and its entries (\<open>types.go\<close>), the
  reasons entries carry (\<open>reason.go\<close>), the heavy services (\<open>heavy.go\<close>), the merge of deferred
  restarts (\<open>deferred.go\<close>) and the redacted copy that is rendered (\<open>render.go\<close>).
\<close>

section \<open>Reasons\<close>

datatype ReasonKind =
    ReasonFirstRun | ReasonForced | ReasonRequested | ReasonVarChanged | ReasonEvaluated
  | ReasonServiceEnabled | ReasonServiceDisabled | ReasonDependency | ReasonRetry | ReasonDrift
  | ReasonDeferred | ReasonMapfileSync

fun kind_str :: "ReasonKind \<Rightarrow> string" where
  "kind_str ReasonFirstRun = ''first-run''"
| "kind_str ReasonForced = ''forced''"
| "kind_str ReasonRequested = ''requested''"
| "kind_str ReasonVarChanged = ''var-changed''"
| "kind_str ReasonEvaluated = ''evaluated''"
| "kind_str ReasonServiceEnabled = ''service-enabled''"
| "kind_str ReasonServiceDisabled = ''service-disabled''"
| "kind_str ReasonDependency = ''dependency''"
| "kind_str ReasonRetry = ''retry''"
| "kind_str ReasonDrift = ''drift''"
| "kind_str ReasonDeferred = ''deferred''"
| "kind_str ReasonMapfileSync = ''mapfile-sync''"

record Reason =
  r_kind :: ReasonKind
  r_section :: string
  r_type :: string
  r_key :: string
  r_old :: string
  r_new :: string
  r_service :: string
  r_detail :: string

text \<open>A composite literal \<open>Reason\{Kind: k\}\<close>: every other field is the zero value.\<close>

definition mk_reason :: "ReasonKind \<Rightarrow> Reason" where
  "mk_reason k =
     \<lparr>r_kind = k, r_section = [], r_type = [], r_key = [], r_old = [], r_new = [], r_service = [],
      r_detail = []\<rparr>"

definition section_reason :: "ReasonKind \<Rightarrow> string \<Rightarrow> Reason" where
  "section_reason k sn = (mk_reason k)\<lparr>r_section := sn\<rparr>"

definition service_reason :: "ReasonKind \<Rightarrow> string \<Rightarrow> Reason" where
  "service_reason k svc = (mk_reason k)\<lparr>r_service := svc\<rparr>"

definition maxReasonValue :: nat where
  "maxReasonValue = 120"

definition displayValue :: "string \<Rightarrow> string \<Rightarrow> string" where
  "displayValue key val =
     (let v = ForLog key val in
      if length v > maxReasonValue then to_valid_utf8 (take maxReasonValue v) @ ''...'' else v)"

definition varChanged :: "string \<Rightarrow> string \<Rightarrow> string \<Rightarrow> string \<Rightarrow> string \<Rightarrow> Reason" where
  "varChanged sn lookupType key oldVal newVal =
     (mk_reason ReasonVarChanged)
       \<lparr>r_section := sn, r_type := lookupType, r_key := key,
        r_old := displayValue key oldVal, r_new := displayValue key newVal\<rparr>"

definition quoteValue :: "string \<Rightarrow> string" where
  "quoteValue v = (if v = [] then ''<unset>'' else [CHR 0x27] @ v @ [CHR 0x27])"

definition ReasonString :: "Reason \<Rightarrow> string" where
  "ReasonString r =
     (case r_kind r of
        ReasonFirstRun \<Rightarrow> ''first run: section '' @ r_section r @ '' rendered for the first time''
      | ReasonForced \<Rightarrow> ''section '' @ r_section r @ '' forced by REWRITE request''
      | ReasonRequested \<Rightarrow> ''section '' @ r_section r @ '' requested by REWRITE command''
      | ReasonEvaluated \<Rightarrow> ''section '' @ r_section r @ '' evaluated against the host state''
      | ReasonVarChanged \<Rightarrow>
          ''section '' @ r_section r @ '' changed because '' @ r_type r @ '' '' @ r_key r @
          '' changed '' @ quoteValue (r_old r) @ ''->'' @ quoteValue (r_new r)
      | ReasonServiceEnabled \<Rightarrow> ''service '' @ r_service r @ '' was enabled''
      | ReasonServiceDisabled \<Rightarrow> ''service '' @ r_service r @ '' was disabled''
      | ReasonDependency \<Rightarrow> ''dependency of '' @ r_service r
      | ReasonRetry \<Rightarrow> ''retry: previous attempt did not complete''
      | ReasonDrift \<Rightarrow> ''drift: '' @ r_detail r
      | ReasonDeferred \<Rightarrow> ''restart deferred from the REWRITE of section '' @ r_section r
      | ReasonMapfileSync \<Rightarrow> ''mapped file kept in sync with the configuration'')"

definition Strings :: "Reason list \<Rightarrow> string list" where
  "Strings reasons = map ReasonString reasons"

definition appendReason :: "Reason list \<Rightarrow> Reason \<Rightarrow> Reason list" where
  "appendReason reasons r = append_new reasons r"

definition appendReasons :: "Reason list \<Rightarrow> Reason list \<Rightarrow> Reason list" where
  "appendReasons reasons add = append_all_new reasons add"

definition appendUnique :: "string list \<Rightarrow> string \<Rightarrow> string list" where
  "appendUnique xs s = append_new xs s"

section \<open>The plan\<close>

datatype Action = ActionRestart | ActionStop | ActionStart | ActionPendingRestart

fun action_str :: "Action \<Rightarrow> string" where
  "action_str ActionRestart = ''restart''"
| "action_str ActionStop = ''stop''"
| "action_str ActionStart = ''start''"
| "action_str ActionPendingRestart = ''pending-restart''"

record Section =
  sn_name :: string
  sn_reasons :: "Reason list"

record Mapfile =
  mf_key :: string
  mf_local :: bool
  mf_sections :: "string list"
  mf_reasons :: "Reason list"

record Rewrite =
  rw_source :: string
  rw_target :: string
  rw_mode :: string
  rw_sections :: "string list"
  rw_reasons :: "Reason list"

record Postconf =
  pc_key :: string
  pc_value :: string
  pc_sections :: "string list"
  pc_reasons :: "Reason list"

record Postconfd =
  pd_key :: string
  pd_value :: string
  pd_sections :: "string list"
  pd_reasons :: "Reason list"

record Ldap =
  ld_key :: string
  ld_value :: string
  ld_sections :: "string list"
  ld_reasons :: "Reason list"

record Proxygen =
  pg_sections :: "string list"
  pg_reasons :: "Reason list"

record Restart =
  rs_service :: string
  rs_action :: Action
  rs_sections :: "string list"
  rs_reasons :: "Reason list"

record Plan =
  pl_FirstRun :: bool
  pl_Sections :: "Section list"
  pl_Heal :: "Mapfile list"
  pl_Mapfiles :: "Mapfile list"
  pl_Rewrites :: "Rewrite list"
  pl_Postconf :: "Postconf list"
  pl_Postconfd :: "Postconfd list"
  pl_Ldap :: "Ldap list"
  pl_Proxygen :: "Proxygen option"
  pl_Restarts :: "Restart list"
  pl_Deferred :: "Restart list"
  pl_Tracked :: "string smap"
  pl_Enabled :: "string list"

definition IsEmpty :: "Plan \<Rightarrow> bool" where
  "IsEmpty p \<longleftrightarrow>
     pl_Mapfiles p = [] \<and> pl_Rewrites p = [] \<and> pl_Postconf p = [] \<and> pl_Postconfd p = [] \<and>
     pl_Ldap p = [] \<and> pl_Proxygen p = None \<and> pl_Restarts p = []"

record Carry =
  c_Rewrites :: "Rewrite list"
  c_Postconf :: "Postconf list"
  c_Postconfd :: "Postconfd list"
  c_Ldap :: "Ldap list"
  c_Proxygen :: "Proxygen option"
  c_Restarts :: "Restart list"

definition empty_carry :: Carry where
  "empty_carry =
     \<lparr>c_Rewrites = [], c_Postconf = [], c_Postconfd = [], c_Ldap = [], c_Proxygen = None,
      c_Restarts = []\<rparr>"

definition CarryIsEmpty :: "Carry \<Rightarrow> bool" where
  "CarryIsEmpty c \<longleftrightarrow>
     c_Rewrites c = [] \<and> c_Postconf c = [] \<and> c_Postconfd c = [] \<and> c_Ldap c = [] \<and>
     c_Proxygen c = None \<and> c_Restarts c = []"

section \<open>Heavy services\<close>

definition heavyServices :: "string list" where
  "heavyServices =
     [''mailbox'', ''mailboxd'', ''service'', ''appserver-db'', ''mysql'', ''mariadb'', ''store'',
      ''ldap'', ''directory'', ''directory-server'']"

definition HeavyService :: "string \<Rightarrow> bool" where
  "HeavyService svc \<longleftrightarrow> to_lower svc \<in> set heavyServices"

definition Classify :: "Action \<Rightarrow> string \<Rightarrow> bool \<Rightarrow> Action" where
  "Classify action svc systemd =
     (if systemd \<and> action = ActionRestart \<and> HeavyService svc then ActionPendingRestart else action)"

definition classify_restart :: "bool \<Rightarrow> Restart \<Rightarrow> Restart" where
  "classify_restart systemd r = r\<lparr>rs_action := Classify (rs_action r) (rs_service r) systemd\<rparr>"

section \<open>Merging restart lists\<close>

text \<open>
  \<open>mergeRestart\<close> folds an entry into the entry of its service, or appends it. An entry that is
  appended is copied as it is, with the duplicates its lists may have.
\<close>

fun mergeRestart :: "Restart list \<Rightarrow> Restart \<Rightarrow> Restart list" where
  "mergeRestart [] r = [r]"
| "mergeRestart (have # list) r =
     (if rs_service have = rs_service r then
        have\<lparr>rs_action := rs_action r,
             rs_sections := foldl appendUnique (rs_sections have) (rs_sections r),
             rs_reasons := appendReasons (rs_reasons have) (rs_reasons r)\<rparr> # list
      else have # mergeRestart list r)"

definition MergeRestarts :: "Restart list \<Rightarrow> Restart list \<Rightarrow> bool \<Rightarrow> Restart list" where
  "MergeRestarts stale fresh systemd =
     (let merged = foldl mergeRestart (foldl mergeRestart [] stale) fresh
      in map (classify_restart systemd) (sort_key rs_service merged))"

section \<open>The redacted copy\<close>

definition Redacted :: "Plan \<Rightarrow> Plan" where
  "Redacted p =
     p\<lparr>pl_Postconf := map (\<lambda>c. c\<lparr>pc_value := ForLog (pc_key c) (pc_value c)\<rparr>) (pl_Postconf p),
       pl_Postconfd := map (\<lambda>c. c\<lparr>pd_value := ForLog (pd_key c) (pd_value c)\<rparr>) (pl_Postconfd p),
       pl_Ldap := map (\<lambda>l. l\<lparr>ld_value := ForLog (ld_key l) (ld_value l)\<rparr>) (pl_Ldap p)\<rparr>"

text \<open>
  \<open>WriteText\<close> as the lines it prints: an item is a padded kind, its subject and one line per
  reason (\<open>fmt.Fprintf\<close> with \<open>%-12s\<close>). A write error of the stream is not modelled.
\<close>

definition pad12 :: "string \<Rightarrow> string" where
  "pad12 s = s @ replicate (12 - length s) CHR '' ''"

definition text_item :: "string \<Rightarrow> string \<Rightarrow> Reason list \<Rightarrow> string list" where
  "text_item kind subject reasons =
     (pad12 kind @ '' '' @ subject) # map (\<lambda>r. ''    because: '' @ ReasonString r) reasons"

definition WriteText :: "Plan \<Rightarrow> string list" where
  "WriteText p =
     (let red = Redacted p in
      if IsEmpty red \<and> pl_Heal red = [] \<and> pl_Deferred red = [] then [''No changes.'']
      else
        concat (map (\<lambda>m. text_item ''mapfile'' (mf_key m) (mf_reasons m)) (pl_Mapfiles red)) @
        concat (map (\<lambda>m. text_item ''mapfile-sync'' (mf_key m) (mf_reasons m)) (pl_Heal red)) @
        concat (map (\<lambda>r. text_item ''rewrite'' (rw_source r @ '' -> '' @ rw_target r)
          (rw_reasons r)) (pl_Rewrites red)) @
        concat (map (\<lambda>c. text_item ''postconf -e'' (pc_key c @ ''='' @ pc_value c)
          (pc_reasons c)) (pl_Postconf red)) @
        concat (map (\<lambda>c. text_item ''postconf -X'' (pd_key c) (pd_reasons c)) (pl_Postconfd red)) @
        concat (map (\<lambda>l. text_item ''ldap'' (ld_key l @ ''='' @ ld_value l) (ld_reasons l))
          (pl_Ldap red)) @
        (case pl_Proxygen red of
           None \<Rightarrow> []
         | Some g \<Rightarrow> text_item ''proxygen'' ''regenerate proxy configuration'' (pg_reasons g)) @
        concat (map (\<lambda>r. text_item (action_str (rs_action r)) (rs_service r) (rs_reasons r))
          (pl_Restarts red)) @
        concat (map (\<lambda>r. text_item ''deferred'' (action_str (rs_action r) @ '' '' @ rs_service r)
          (rs_reasons r)) (pl_Deferred red)))"

end
