(* ===== verification/Plan_Compute.thy ===== *)
theory Plan_Compute
  imports Plan_Types
begin

text \<open>
  Package \<open>internal/plan\<close>, \<open>compute.go\<close>: \<open>Compute\<close>, the pure middle of a cycle. The builder is a
  record that every step takes and returns; the definitions follow the order of the source. The
  pointers in the builder's maps are values here: each entry is reached through one map only (the
  entry \<open>pruneMapfiles\<close> moves from \<open>heal\<close> to \<open>mapfiles\<close> leaves \<open>heal\<close> at once). Where the source
  ranges over a map in Go's unspecified order, the fold below uses the key order; the bodies of
  those loops touch one key each.
\<close>

section \<open>Input\<close>

record Host =
  h_Mapfiles :: "string smap"
  h_Rewrites :: "string smap"
  h_Postconf :: "string smap"
  h_Postconfd :: "string smap"
  h_Ldap :: "string smap"
  h_Proxygen :: string

record Input =
  in_Prev :: SnapshotRef
  in_Cur :: SnapshotRef
  in_Conf :: "MtaConfig option"
  in_Forced :: "string list"
  in_Requested :: "string list"
  in_FirstRun :: bool
  in_Tracked :: "string smap"
  in_Carry :: Carry
  in_Scope :: "string list"
  in_AssumeChanged :: bool
  in_Host :: "Host option"
  in_Systemd :: bool

datatype plan_error = ErrAllServicesDisabled

type_synonym mapfileKey = "string \<times> bool"

record builder =
  b_sections :: "Section list"
  b_mapfiles :: "(mapfileKey, Mapfile) gomap"
  b_heal :: "Mapfile smap"
  b_rewrites :: "Rewrite smap"
  b_postconf :: "Postconf smap"
  b_postconfd :: "Postconfd smap"
  b_ldap :: "Ldap smap"
  b_proxygen :: "Proxygen option"
  b_restarts :: "Restart smap"
  b_deferred :: "Restart smap"
  b_tracked :: "string smap"

definition newBuilder :: "Input \<Rightarrow> builder" where
  "newBuilder i =
     \<lparr>b_sections = [], b_mapfiles = [], b_heal = [], b_rewrites = [], b_postconf = [],
      b_postconfd = [], b_ldap = [], b_proxygen = None, b_restarts = [], b_deferred = [],
      b_tracked = in_Tracked i\<rparr>"

definition forced :: "Input \<Rightarrow> string \<Rightarrow> bool" where
  "forced i sn \<longleftrightarrow> sn \<in> set (in_Forced i)"

definition requested :: "Input \<Rightarrow> string \<Rightarrow> bool" where
  "requested i sn \<longleftrightarrow> sn \<in> set (in_Requested i)"

definition guardAllDisabled :: "Input \<Rightarrow> plan_error option" where
  "guardAllDisabled i =
     (if length (in_Tracked i) \<le> 1 then None
      else if list_ex (ServiceEnabled (in_Cur i)) (mkeys (in_Tracked i)) then None
      else Some ErrAllServicesDisabled)"

section \<open>Which sections are processed, and why\<close>

definition sectionServiceMap :: "string smap" where
  "sectionServiceMap =
     [(''amavis'', ''mta''), (''dhparam'', ''!dhparam''), (''nginx'', ''proxy''), (''sasl'', ''mta''),
      (''webxml'', ''mailbox'')]"

definition SectionEnabled :: "string \<Rightarrow> (string \<Rightarrow> bool) \<Rightarrow> bool" where
  "SectionEnabled name enabled =
     (let svc = (case mget sectionServiceMap name of Some s \<Rightarrow> s | None \<Rightarrow> name)
      in (case cut_prefix svc ''!'' of
            (rest, True) \<Rightarrow> \<not> enabled rest
          | (_, False) \<Rightarrow> enabled svc))"

definition inScope :: "Input \<Rightarrow> string \<Rightarrow> bool" where
  "inScope i name \<longleftrightarrow> in_Scope i = [] \<or> name \<in> set (in_Scope i)"

definition diffVar :: "Input \<Rightarrow> string \<Rightarrow> string \<times> string \<Rightarrow> Reason list" where
  "diffVar i sn kv =
     (case kv of (key, lookupType) \<Rightarrow>
       let lookupKey = trim_prefix key ''!'';
           prevVal = observed_or_empty (in_Prev i) lookupType lookupKey;
           curVal = observed_or_empty (in_Cur i) lookupType lookupKey
       in if curVal = [] then
            (if prevVal \<noteq> [] then [varChanged sn lookupType lookupKey prevVal []] else [])
          else if prevVal \<noteq> curVal then [varChanged sn lookupType lookupKey prevVal curVal]
          else [])"

definition diffSection :: "Input \<Rightarrow> string \<Rightarrow> MtaConfigSection \<Rightarrow> Reason list" where
  "diffSection i sn sec = concat (map (diffVar i sn) (sec_required sec))"

definition sectionReasons :: "Input \<Rightarrow> string \<Rightarrow> Reason list \<Rightarrow> Reason list" where
  "sectionReasons i sn changes =
     (if forced i sn then [section_reason ReasonForced sn] else []) @
     (if requested i sn then [section_reason ReasonRequested sn] else []) @
     (if in_FirstRun i then [section_reason ReasonFirstRun sn] else changes) @
     (if in_AssumeChanged i then [section_reason ReasonEvaluated sn] else [])"

section \<open>The actions of a section\<close>

definition healMapfile :: "string \<Rightarrow> string \<times> string \<Rightarrow> Mapfile smap \<Rightarrow> Mapfile smap" where
  "healMapfile sn kv heal =
     (case kv of (key, lookupType) \<Rightarrow>
       if lookupType \<noteq> TypeMapFile then heal
       else
         let lookupKey = trim_prefix key ''!'' in
         mupsert lookupKey \<lparr>mf_key = lookupKey, mf_local = False, mf_sections = [], mf_reasons = []\<rparr>
           (\<lambda>m. m\<lparr>mf_sections := appendUnique (mf_sections m) sn,
                  mf_reasons := appendReason (mf_reasons m)
                    ((section_reason ReasonMapfileSync sn)\<lparr>r_key := lookupKey\<rparr>)\<rparr>)
           heal)"

definition healMapfiles :: "string \<Rightarrow> MtaConfigSection \<Rightarrow> bool \<Rightarrow> builder \<Rightarrow> builder" where
  "healMapfiles sn sec compared b =
     (if compared then b\<lparr>b_heal := fold (healMapfile sn) (sec_required sec) (b_heal b)\<rparr> else b)"

definition mapfileOp ::
    "string \<Rightarrow> Reason list \<Rightarrow> string \<times> string \<Rightarrow> (mapfileKey, Mapfile) gomap
      \<Rightarrow> (mapfileKey, Mapfile) gomap" where
  "mapfileOp sn reasons kv ms =
     (case kv of (key, lookupType) \<Rightarrow>
       if lookupType \<noteq> TypeMapFile \<and> lookupType \<noteq> TypeMapLocal then ms
       else
         let lookupKey = trim_prefix key ''!''; local = (lookupType = TypeMapLocal) in
         mupsert (lookupKey, local)
           \<lparr>mf_key = lookupKey, mf_local = local, mf_sections = [], mf_reasons = []\<rparr>
           (\<lambda>m. m\<lparr>mf_sections := appendUnique (mf_sections m) sn,
                  mf_reasons := appendReasons (mf_reasons m) reasons\<rparr>)
           ms)"

definition mapfileOps :: "string \<Rightarrow> MtaConfigSection \<Rightarrow> Reason list \<Rightarrow> builder \<Rightarrow> builder" where
  "mapfileOps sn sec reasons b =
     b\<lparr>b_mapfiles := fold (mapfileOp sn reasons) (sec_required sec) (b_mapfiles b)\<rparr>"

definition compileRewrite ::
    "string \<Rightarrow> Reason list \<Rightarrow> string \<times> RewriteEntry \<Rightarrow> Rewrite smap \<Rightarrow> Rewrite smap" where
  "compileRewrite sn reasons kv rws =
     (case kv of (src, entry) \<Rightarrow>
       mupsert src
         \<lparr>rw_source = src, rw_target = [], rw_mode = [], rw_sections = [], rw_reasons = []\<rparr>
         (\<lambda>r. r\<lparr>rw_target := rwe_value entry, rw_mode := rwe_mode entry,
                rw_sections := appendUnique (rw_sections r) sn,
                rw_reasons := appendReasons (rw_reasons r) reasons\<rparr>)
         rws)"

definition compileRewrites :: "string \<Rightarrow> MtaConfigSection \<Rightarrow> Reason list \<Rightarrow> builder \<Rightarrow> builder" where
  "compileRewrites sn sec reasons b =
     b\<lparr>b_rewrites := fold (compileRewrite sn reasons) (sec_rewrites sec) (b_rewrites b)\<rparr>"

definition setPostconf ::
    "string \<Rightarrow> Reason list \<Rightarrow> string \<times> string \<Rightarrow> Postconf smap \<Rightarrow> Postconf smap" where
  "setPostconf sn reasons kv pcs =
     (case kv of (key, val) \<Rightarrow>
       mupsert key \<lparr>pc_key = key, pc_value = [], pc_sections = [], pc_reasons = []\<rparr>
         (\<lambda>p. p\<lparr>pc_value := replace_char (CHR 0x0A) '' '' val,
                pc_sections := appendUnique (pc_sections p) sn,
                pc_reasons := appendReasons (pc_reasons p) reasons\<rparr>)
         pcs)"

definition setPostconfd ::
    "string \<Rightarrow> Reason list \<Rightarrow> string \<times> string \<Rightarrow> Postconfd smap \<Rightarrow> Postconfd smap" where
  "setPostconfd sn reasons kv pds =
     (case kv of (key, val) \<Rightarrow>
       mupsert key \<lparr>pd_key = key, pd_value = [], pd_sections = [], pd_reasons = []\<rparr>
         (\<lambda>p. p\<lparr>pd_value := replace_char (CHR 0x0A) '' '' val,
                pd_sections := appendUnique (pd_sections p) sn,
                pd_reasons := appendReasons (pd_reasons p) reasons\<rparr>)
         pds)"

definition compileLdapKey ::
    "string \<Rightarrow> Reason list \<Rightarrow> string \<times> string \<Rightarrow> Ldap smap \<Rightarrow> Ldap smap" where
  "compileLdapKey sn reasons kv lds =
     (case kv of (key, val) \<Rightarrow>
       if val = [] then lds
       else
         mupsert key \<lparr>ld_key = key, ld_value = [], ld_sections = [], ld_reasons = []\<rparr>
           (\<lambda>l. l\<lparr>ld_value := val,
                  ld_sections := appendUnique (ld_sections l) sn,
                  ld_reasons := appendReasons (ld_reasons l) reasons\<rparr>)
           lds)"

definition compileLdap :: "string \<Rightarrow> MtaConfigSection \<Rightarrow> Reason list \<Rightarrow> builder \<Rightarrow> builder" where
  "compileLdap sn sec reasons b =
     b\<lparr>b_ldap := fold (compileLdapKey sn reasons) (sec_ldap sec) (b_ldap b)\<rparr>"

definition compileProxygen :: "string \<Rightarrow> MtaConfigSection \<Rightarrow> Reason list \<Rightarrow> builder \<Rightarrow> builder" where
  "compileProxygen sn sec reasons b =
     (if sec_proxygen sec then
        let g = (case b_proxygen b of None \<Rightarrow> \<lparr>pg_sections = [], pg_reasons = []\<rparr> | Some g \<Rightarrow> g) in
        b\<lparr>b_proxygen := Some (g\<lparr>pg_sections := appendUnique (pg_sections g) sn,
                                pg_reasons := appendReasons (pg_reasons g) reasons\<rparr>)\<rparr>
      else b)"

definition conditionHolds :: "Input \<Rightarrow> Conditional \<Rightarrow> bool" where
  "conditionHolds i cond =
     (let (key, negate) = cut_prefix (cond_key cond) ''!'';
          holds = (case SnapshotValue (in_Cur i) (cond_type cond) key of
                     Some val \<Rightarrow> IsTrueValue val \<noteq> negate
                   | None \<Rightarrow> negate)
      in if cond_negated cond then \<not> holds else holds)"

definition compileConditional ::
    "Input \<Rightarrow> string \<Rightarrow> Reason list \<Rightarrow> Conditional \<Rightarrow> builder \<Rightarrow> builder" where
  "compileConditional i sn reasons cond b =
     (if conditionHolds i cond then
        b\<lparr>b_postconf := fold (setPostconf sn reasons) (cond_postconf cond) (b_postconf b),
          b_postconfd := fold (setPostconfd sn reasons) (cond_postconfd cond) (b_postconfd b)\<rparr>
      else b)"

definition addRestart ::
    "string \<Rightarrow> Action \<Rightarrow> string \<Rightarrow> Reason list \<Rightarrow> Restart smap \<Rightarrow> Restart smap" where
  "addRestart svc action sn reasons dst =
     mupsert svc
       \<lparr>rs_service = svc, rs_action = ActionRestart, rs_sections = [], rs_reasons = []\<rparr>
       (\<lambda>r. r\<lparr>rs_action := action,
              rs_sections := (if sn \<noteq> [] then appendUnique (rs_sections r) sn else rs_sections r),
              rs_reasons := appendReasons (rs_reasons r) reasons\<rparr>)
       dst"

definition compileSectionRestart ::
    "Input \<Rightarrow> string \<Rightarrow> Reason list \<Rightarrow> string \<Rightarrow> Restart smap \<Rightarrow> Restart smap" where
  "compileSectionRestart i sn reasons svc dst =
     (let name = to_lower svc in
      if ServiceEnabled (in_Cur i) name then addRestart name ActionRestart sn reasons dst
      else if name = ''archiving'' then dst
      else if name = ''opendkim'' \<and> ServiceEnabled (in_Cur i) ''mta''
        then addRestart name ActionRestart sn reasons dst
      else addRestart name ActionStop sn reasons dst)"

definition compileSectionRestarts ::
    "Input \<Rightarrow> Restart smap \<Rightarrow> string \<Rightarrow> MtaConfigSection \<Rightarrow> Reason list \<Rightarrow> Restart smap" where
  "compileSectionRestarts i dst sn sec reasons =
     fold (compileSectionRestart i sn reasons) (mkeys (sec_restarts sec)) dst"

definition varChanges :: "Reason list \<Rightarrow> Reason list" where
  "varChanges reasons = filter (\<lambda>r. r_kind r = ReasonVarChanged) reasons"

definition compileRestarts ::
    "Input \<Rightarrow> string \<Rightarrow> MtaConfigSection \<Rightarrow> Reason list \<Rightarrow> builder \<Rightarrow> builder" where
  "compileRestarts i sn sec reasons b =
     (if in_FirstRun i then b
      else if \<not> forced i sn \<and> \<not> requested i sn then
        b\<lparr>b_restarts := compileSectionRestarts i (b_restarts b) sn sec reasons\<rparr>
      else
        let changes = varChanges reasons in
        if changes = [] then b
        else b\<lparr>b_deferred := compileSectionRestarts i (b_deferred b) sn sec
                 (changes @ [section_reason ReasonDeferred sn])\<rparr>)"

definition compileSection ::
    "Input \<Rightarrow> string \<Rightarrow> MtaConfigSection \<Rightarrow> Reason list \<Rightarrow> builder \<Rightarrow> builder" where
  "compileSection i sn sec reasons b0 =
     (let b1 = compileRewrites sn sec reasons b0;
          b2 = b1\<lparr>b_postconf := fold (setPostconf sn reasons) (sec_postconf sec) (b_postconf b1)\<rparr>;
          b3 = b2\<lparr>b_postconfd := fold (setPostconfd sn reasons) (sec_postconfd sec) (b_postconfd b2)\<rparr>;
          b4 = compileProxygen sn sec reasons b3;
          b5 = compileLdap sn sec reasons b4;
          b6 = fold (compileConditional i sn reasons) (sec_conditionals sec) b5
      in compileRestarts i sn sec reasons b6)"

text \<open>
  Whether a section is looked at (\<open>considered\<close>), whether its variables are compared, the changes
  found and the reasons it is processed for: the head of the loop body of \<open>processSections\<close>. None
  of them depends on the builder.
\<close>

definition considered :: "Input \<Rightarrow> string \<Rightarrow> MtaConfigSection option \<Rightarrow> bool" where
  "considered i sn sec \<longleftrightarrow>
     sec \<noteq> None \<and> inScope i sn \<and> SectionEnabled sn (ServiceEnabled (in_Cur i))"

definition compared :: "Input \<Rightarrow> string \<Rightarrow> bool" where
  "compared i sn \<longleftrightarrow> in_Forced i = [] \<or> forced i sn"

definition changes_of :: "Input \<Rightarrow> string \<Rightarrow> MtaConfigSection \<Rightarrow> Reason list" where
  "changes_of i sn sec = (if compared i sn then diffSection i sn sec else [])"

definition reasons_of :: "Input \<Rightarrow> string \<Rightarrow> MtaConfigSection \<Rightarrow> Reason list" where
  "reasons_of i sn sec = sectionReasons i sn (changes_of i sn sec)"

definition processSection :: "Input \<Rightarrow> string \<times> MtaConfigSection option \<Rightarrow> builder \<Rightarrow> builder" where
  "processSection i entry b =
     (case entry of
        (sn, None) \<Rightarrow> b
      | (sn, Some sec) \<Rightarrow>
          if \<not> considered i sn (Some sec) then b
          else
            let changes = changes_of i sn sec;
                b1 = healMapfiles sn sec (compared i sn) b;
                reasons = reasons_of i sn sec
            in if reasons = [] then b1
               else
                 let b2 = b1\<lparr>b_sections := b_sections b1 @ [\<lparr>sn_name = sn, sn_reasons = reasons\<rparr>]\<rparr>;
                     b3 = (if changes \<noteq> [] \<or> in_FirstRun i then mapfileOps sn sec reasons b2 else b2)
                 in compileSection i sn sec reasons b3)"

definition processSections :: "Input \<Rightarrow> builder \<Rightarrow> builder" where
  "processSections i b =
     (case in_Conf i of None \<Rightarrow> b | Some conf \<Rightarrow> fold (processSection i) (mta_sections conf) b)"

section \<open>Service tracking\<close>

definition trackedStatus :: "bool \<Rightarrow> string" where
  "trackedStatus enabled = (if enabled then ''running'' else ''stopped'')"

definition toggle :: "string \<Rightarrow> Action \<Rightarrow> ReasonKind \<Rightarrow> Restart" where
  "toggle svc action kind =
     \<lparr>rs_service = svc, rs_action = action, rs_sections = [],
      rs_reasons = [service_reason kind svc]\<rparr>"

definition stopToggles :: "Input \<Rightarrow> string smap \<Rightarrow> Restart smap" where
  "stopToggles i tracked =
     fold (\<lambda>svc toggles.
         if \<not> ServiceEnabled (in_Cur i) svc
         then mput svc (toggle svc ActionStop ReasonServiceDisabled) toggles else toggles)
       (mkeys tracked) []"

definition serviceToggle ::
    "Input \<Rightarrow> string \<Rightarrow> string smap \<times> Restart smap \<Rightarrow> string smap \<times> Restart smap" where
  "serviceToggle i svc st =
     (case st of (tracked, toggles) \<Rightarrow>
       if mhas tracked svc then (tracked, toggles)
       else if in_FirstRun i
         then (mput svc (trackedStatus (IsTrueValue (ServiceValue (in_Cur i) svc))) tracked, toggles)
       else (tracked, mput svc (toggle svc ActionStart ReasonServiceEnabled) toggles))"

definition serviceToggles :: "Input \<Rightarrow> string smap \<Rightarrow> string smap \<times> Restart smap" where
  "serviceToggles i tracked =
     fold (serviceToggle i) (ServiceNames (in_Cur i)) (tracked, stopToggles i tracked)"

definition mergeToggle :: "string \<times> Restart \<Rightarrow> Restart smap \<Rightarrow> Restart smap" where
  "mergeToggle kv restarts =
     (case kv of (svc, st) \<Rightarrow>
       (case mget restarts svc of
          Some have \<Rightarrow>
            mput svc (have\<lparr>rs_reasons := appendReasons (rs_reasons have) (rs_reasons st)\<rparr>) restarts
        | None \<Rightarrow> mput svc st restarts))"

definition trackServices :: "Input \<Rightarrow> builder \<Rightarrow> builder" where
  "trackServices i b =
     (case serviceToggles i (b_tracked b) of
        (tracked, toggles) \<Rightarrow>
          b\<lparr>b_tracked := tracked, b_restarts := fold mergeToggle toggles (b_restarts b)\<rparr>)"

section \<open>Retrying what the previous execution did not complete\<close>

text \<open>
  \<open>carryItems\<close> is generic in the source: \<open>ref\<close> gives an item's key and a pointer to its reasons. The
  pointer is a reader and a writer here.
\<close>

definition carryItem ::
    "('e \<Rightarrow> string) \<Rightarrow> ('e \<Rightarrow> Reason list) \<Rightarrow> (Reason list \<Rightarrow> 'e \<Rightarrow> 'e) \<Rightarrow> Reason \<Rightarrow> 'e
      \<Rightarrow> 'e smap \<Rightarrow> 'e smap" where
  "carryItem key reasons set_reasons retry it dst =
     (case mget dst (key it) of
        Some have \<Rightarrow> mput (key it) (set_reasons (appendReason (reasons have) retry) have) dst
      | None \<Rightarrow> mput (key it) (set_reasons (appendReason (reasons it) retry) it) dst)"

definition carryItems ::
    "('e \<Rightarrow> string) \<Rightarrow> ('e \<Rightarrow> Reason list) \<Rightarrow> (Reason list \<Rightarrow> 'e \<Rightarrow> 'e) \<Rightarrow> Reason \<Rightarrow> 'e list
      \<Rightarrow> 'e smap \<Rightarrow> 'e smap" where
  "carryItems key reasons set_reasons retry items dst =
     fold (carryItem key reasons set_reasons retry) items dst"

definition set_rw_reasons :: "Reason list \<Rightarrow> Rewrite \<Rightarrow> Rewrite" where
  "set_rw_reasons rs r = r\<lparr>rw_reasons := rs\<rparr>"
definition set_pc_reasons :: "Reason list \<Rightarrow> Postconf \<Rightarrow> Postconf" where
  "set_pc_reasons rs r = r\<lparr>pc_reasons := rs\<rparr>"
definition set_pd_reasons :: "Reason list \<Rightarrow> Postconfd \<Rightarrow> Postconfd" where
  "set_pd_reasons rs r = r\<lparr>pd_reasons := rs\<rparr>"
definition set_ld_reasons :: "Reason list \<Rightarrow> Ldap \<Rightarrow> Ldap" where
  "set_ld_reasons rs r = r\<lparr>ld_reasons := rs\<rparr>"
definition set_rs_reasons :: "Reason list \<Rightarrow> Restart \<Rightarrow> Restart" where
  "set_rs_reasons rs r = r\<lparr>rs_reasons := rs\<rparr>"
definition set_mf_reasons :: "Reason list \<Rightarrow> Mapfile \<Rightarrow> Mapfile" where
  "set_mf_reasons rs r = r\<lparr>mf_reasons := rs\<rparr>"

definition mergeCarryProxygen :: "Proxygen option \<Rightarrow> Proxygen option \<Rightarrow> Reason \<Rightarrow> Proxygen option" where
  "mergeCarryProxygen carried have retry =
     (case carried of
        None \<Rightarrow> have
      | Some c \<Rightarrow>
          let p = (case have of None \<Rightarrow> c | Some g \<Rightarrow> g)
          in Some (p\<lparr>pg_reasons := appendReason (pg_reasons p) retry\<rparr>))"

definition mergeCarry :: "Input \<Rightarrow> builder \<Rightarrow> builder" where
  "mergeCarry i b =
     (let retry = mk_reason ReasonRetry; c = in_Carry i in
      b\<lparr>b_rewrites := carryItems rw_source rw_reasons set_rw_reasons retry (c_Rewrites c) (b_rewrites b),
        b_postconf := carryItems pc_key pc_reasons set_pc_reasons retry (c_Postconf c) (b_postconf b),
        b_postconfd :=
          carryItems pd_key pd_reasons set_pd_reasons retry (c_Postconfd c) (b_postconfd b),
        b_ldap := carryItems ld_key ld_reasons set_ld_reasons retry (c_Ldap c) (b_ldap b),
        b_proxygen := mergeCarryProxygen (c_Proxygen c) (b_proxygen b) retry,
        b_restarts :=
          carryItems rs_service rs_reasons set_rs_reasons retry (c_Restarts c) (b_restarts b)\<rparr>)"

section \<open>Comparing with the host\<close>

definition drift_reason :: "string \<Rightarrow> Reason" where
  "drift_reason drift = (mk_reason ReasonDrift)\<lparr>r_detail := drift\<rparr>"

text \<open>\<open>keep\<close> for the entries of one map: the entries that drifted, and the sections behind them.\<close>

definition prune_entries ::
    "('k \<Rightarrow> string) \<Rightarrow> (Reason list \<Rightarrow> 'e \<Rightarrow> 'e) \<Rightarrow> ('k, 'e) gomap \<Rightarrow> ('k, 'e) gomap" where
  "prune_entries drift set_reasons m =
     mfilter_map (\<lambda>k e. if drift k = [] then None
                        else Some (set_reasons [drift_reason (drift k)] e)) m"

definition touched_by :: "('k \<Rightarrow> string) \<Rightarrow> ('e \<Rightarrow> string list) \<Rightarrow> ('k, 'e) gomap \<Rightarrow> string list" where
  "touched_by drift sections m =
     concat (map (\<lambda>(k, e). if drift k = [] then [] else sections e) m)"

definition pruneHeal ::
    "Host \<Rightarrow> string \<times> Mapfile \<Rightarrow> (mapfileKey, Mapfile) gomap \<Rightarrow> (mapfileKey, Mapfile) gomap" where
  "pruneHeal h kv ms =
     (case kv of (key, m) \<Rightarrow>
       let drift = mget_str (h_Mapfiles h) key in
       if drift = [] then ms
       else
         (case mget ms (key, False) of
            Some have \<Rightarrow> mput (key, False) (set_mf_reasons [drift_reason drift] have) ms
          | None \<Rightarrow> mput (key, False) (set_mf_reasons [drift_reason drift] m) ms))"

definition pruneMapfiles :: "Host \<Rightarrow> builder \<Rightarrow> builder \<times> string list" where
  "pruneMapfiles h b =
     (let driftK = mget_str (h_Mapfiles h);
          ms = fold (pruneHeal h) (b_heal b) (b_mapfiles b);
          touched = touched_by driftK mf_sections (b_heal b) @
                    touched_by (driftK \<circ> fst) mf_sections ms
      in (b\<lparr>b_heal := [], b_mapfiles := prune_entries (driftK \<circ> fst) set_mf_reasons ms\<rparr>, touched))"

definition pruneFiles :: "Host \<Rightarrow> builder \<Rightarrow> builder \<times> string list" where
  "pruneFiles h b =
     (let driftK = mget_str (h_Rewrites h);
          b1 = b\<lparr>b_rewrites := prune_entries driftK set_rw_reasons (b_rewrites b)\<rparr>;
          touched = touched_by driftK rw_sections (b_rewrites b)
      in (case b_proxygen b1 of
            None \<Rightarrow> (b1, touched)
          | Some g \<Rightarrow>
              if h_Proxygen h = [] then (b1\<lparr>b_proxygen := None\<rparr>, touched)
              else (b1\<lparr>b_proxygen := Some (g\<lparr>pg_reasons := [drift_reason (h_Proxygen h)]\<rparr>)\<rparr>,
                    touched @ pg_sections g)))"

definition pruneDirectives :: "Host \<Rightarrow> builder \<Rightarrow> builder \<times> string list" where
  "pruneDirectives h b =
     (b\<lparr>b_postconf := prune_entries (mget_str (h_Postconf h)) set_pc_reasons (b_postconf b),
        b_postconfd := prune_entries (mget_str (h_Postconfd h)) set_pd_reasons (b_postconfd b),
        b_ldap := prune_entries (mget_str (h_Ldap h)) set_ld_reasons (b_ldap b)\<rparr>,
      touched_by (mget_str (h_Postconf h)) pc_sections (b_postconf b) @
      touched_by (mget_str (h_Postconfd h)) pd_sections (b_postconfd b))"

definition pruneRestart :: "string list \<Rightarrow> Restart \<Rightarrow> Restart option" where
  "pruneRestart touched r =
     (if list_ex (\<lambda>s. s \<in> set touched) (rs_sections r)
      then Some (r\<lparr>rs_reasons := [drift_reason (''configuration of section '' @
                     join_with '', '' (rs_sections r) @ '' would change'')]\<rparr>)
      else None)"

definition pruneToHost :: "Input \<Rightarrow> builder \<Rightarrow> builder" where
  "pruneToHost i b0 =
     (case in_Host i of
        None \<Rightarrow> b0
      | Some h \<Rightarrow>
          let (b1, t1) = pruneMapfiles h b0;
              (b2, t2) = pruneFiles h b1;
              (b3, t3) = pruneDirectives h b2;
              touched = t1 @ t2 @ t3
          in b3\<lparr>b_sections := filter (\<lambda>s. sn_name s \<in> set touched) (b_sections b3),
                b_deferred := [],
                b_restarts := mfilter_map (\<lambda>_. pruneRestart touched) (b_restarts b3)\<rparr>)"

section \<open>The plan\<close>

definition collectSorted :: "('e \<Rightarrow> 'o::linorder) \<Rightarrow> ('k, 'e) gomap \<Rightarrow> 'e list" where
  "collectSorted order m = sort_key order (mvals m)"

definition hasMapfile :: "builder \<Rightarrow> string \<Rightarrow> bool" where
  "hasMapfile b key \<longleftrightarrow> mhas (b_mapfiles b) (key, False)"

definition finish :: "Input \<Rightarrow> builder \<Rightarrow> Plan" where
  "finish i b =
     \<lparr>pl_FirstRun = in_FirstRun i,
      pl_Sections = b_sections b,
      pl_Heal = mvals (filter (\<lambda>(key, _). \<not> hasMapfile b key) (b_heal b)),
      pl_Mapfiles = collectSorted (\<lambda>m. (mf_key m, mf_local m)) (b_mapfiles b),
      pl_Rewrites = collectSorted rw_source (b_rewrites b),
      pl_Postconf = collectSorted pc_key (b_postconf b),
      pl_Postconfd = collectSorted pd_key (b_postconfd b),
      pl_Ldap = collectSorted ld_key (b_ldap b),
      pl_Proxygen = b_proxygen b,
      pl_Restarts =
        map (classify_restart (in_Systemd i)) (collectSorted rs_service (b_restarts b)),
      pl_Deferred =
        map (classify_restart (in_Systemd i)) (collectSorted rs_service (b_deferred b)),
      pl_Tracked = b_tracked b,
      pl_Enabled = ServiceNames (in_Cur i)\<rparr>"

definition compute_builder :: "Input \<Rightarrow> builder" where
  "compute_builder i =
     pruneToHost i (mergeCarry i (trackServices i (processSections i (newBuilder i))))"

definition Compute :: "Input \<Rightarrow> plan_error + Plan" where
  "Compute i =
     (case guardAllDisabled i of
        Some e \<Rightarrow> Inl e
      | None \<Rightarrow> Inr (finish i (compute_builder i)))"

end
