(* ===== verification/Plan_Invariants.thy ===== *)
theory Plan_Invariants
  imports Plan_Compute
begin

text \<open>
  The invariant of the planner's builder: every map is a map from an entry's own key to the entry,
  and every entry has at least one reason. The interface \<open>plan_entry\<close> states what the generic
  steps (\<open>carryItems\<close>, the pruning, \<open>collectSorted\<close>) need of an entry type; it is interpreted for the
  six entry types of the plan.
\<close>

section \<open>Entries\<close>

definition entries_ok :: "('e \<Rightarrow> 'k::linorder) \<Rightarrow> ('e \<Rightarrow> Reason list) \<Rightarrow> ('k, 'e) gomap \<Rightarrow> bool" where
  "entries_ok key reasons m \<longleftrightarrow> wf_map m \<and> mall (\<lambda>k e. key e = k \<and> reasons e \<noteq> []) m"

lemma entries_ok_Nil [simp, intro!]: "entries_ok key reasons []"
  by (simp add: entries_ok_def)

lemma entries_ok_wf: "entries_ok key reasons m \<Longrightarrow> wf_map m"
  by (simp add: entries_ok_def)

lemma entries_ok_get:
  "entries_ok key reasons m \<Longrightarrow> mget m k = Some e \<Longrightarrow> key e = k \<and> reasons e \<noteq> []"
  by (auto simp: entries_ok_def dest: mall_get)

lemma entries_ok_mput [intro]:
  "entries_ok key reasons m \<Longrightarrow> key e = k \<Longrightarrow> reasons e \<noteq> [] \<Longrightarrow> entries_ok key reasons (mput k e m)"
  by (auto simp: entries_ok_def intro: mall_mput)

lemma entries_ok_mupsert:
  assumes "entries_ok key reasons m" "key (upd fresh) = k" "\<And>e. key e = k \<Longrightarrow> key (upd e) = k"
    "\<And>e. reasons (upd e) \<noteq> []"
  shows "entries_ok key reasons (mupsert k fresh upd m)"
  using assms by (auto simp: entries_ok_def intro!: mall_mupsert)

lemma mall_filter: "mall P m \<Longrightarrow> mall P (filter Q m)"
  by (auto simp: mall_def)

lemma entries_ok_values_sorted:
  assumes "entries_ok key reasons m"
  shows "map key (mvals m) = mkeys m"
  using assms by (auto simp: entries_ok_def mall_def)

lemma collectSorted_values:
  assumes "entries_ok key reasons m"
  shows "collectSorted key m = mvals m"
proof -
  have "sorted (map key (mvals m))"
    unfolding entries_ok_values_sorted [OF assms] using assms
    by (simp only: entries_ok_def wf_map_sorted)
  then show ?thesis by (simp add: collectSorted_def sort_key_id_if_sorted)
qed

lemma collectSorted_strict:
  assumes "entries_ok key reasons m"
  shows "sorted_wrt (<) (map key (collectSorted key m))"
  unfolding collectSorted_values [OF assms] entries_ok_values_sorted [OF assms]
  using assms by (simp only: entries_ok_def wf_map_def)

lemma collectSorted_reasons:
  assumes "entries_ok key reasons m" "e \<in> set (collectSorted key m)"
  shows "reasons e \<noteq> []"
  using assms by (auto simp: collectSorted_values [OF assms(1)] entries_ok_def mall_def)

lemma in_collectSorted:
  assumes "entries_ok key reasons m"
  shows "e \<in> set (collectSorted key m) \<longleftrightarrow> mget m (key e) = Some e"
proof
  assume "e \<in> set (collectSorted key m)"
  then obtain k where "(k, e) \<in> set m" by (auto simp: collectSorted_values [OF assms])
  moreover from this have "key e = k" using assms by (auto simp: entries_ok_def mall_def)
  ultimately show "mget m (key e) = Some e" using assms by (simp add: entries_ok_def wf_map_get)
next
  assume "mget m (key e) = Some e"
  then have "(key e, e) \<in> set m" by (rule map_of_SomeD)
  then show "e \<in> set (collectSorted key m)" by (force simp: collectSorted_values [OF assms])
qed

section \<open>The interface of an entry type\<close>

locale plan_entry =
  fixes key :: "'e \<Rightarrow> 'k::linorder"
    and sections :: "'e \<Rightarrow> string list"
    and reasons :: "'e \<Rightarrow> Reason list"
    and set_reasons :: "Reason list \<Rightarrow> 'e \<Rightarrow> 'e"
  assumes key_set [simp]: "key (set_reasons rs e) = key e"
    and sections_set [simp]: "sections (set_reasons rs e) = sections e"
    and reasons_set [simp]: "reasons (set_reasons rs e) = rs"
    and set_set [simp]: "set_reasons rs (set_reasons rs' e) = set_reasons rs e"
    and set_same [simp]: "set_reasons (reasons e) e = e"
begin

lemma prune_ok:
  assumes "entries_ok key reasons m"
  shows "entries_ok key reasons (prune_entries drift set_reasons m)"
  using assms
  by (fastforce simp: entries_ok_def prune_entries_def mall_def in_mfilter_map split: if_splits)

lemma prune_get:
  assumes "wf_map m"
  shows "mget (prune_entries drift set_reasons m) k =
    (case mget m k of
       None \<Rightarrow> None
     | Some e \<Rightarrow> if drift k = [] then None else Some (set_reasons [drift_reason (drift k)] e))"
proof -
  have wf: "wf_map (prune_entries drift set_reasons m)"
    using assms by (simp add: prune_entries_def)
  have "mget (prune_entries drift set_reasons m) k = Some e' \<longleftrightarrow>
    (\<exists>e. mget m k = Some e \<and> drift k \<noteq> [] \<and> e' = set_reasons [drift_reason (drift k)] e)" for e'
    using assms
    by (auto simp: wf_map_get [symmetric] wf prune_entries_def in_mfilter_map split: if_splits)
  then show ?thesis
    by (cases "mget (prune_entries drift set_reasons m) k"; cases "mget m k") (force split: if_splits)+
qed

lemma prune_drift:
  assumes "e \<in> set (mvals (prune_entries drift set_reasons m))"
  shows "\<exists>d. d \<noteq> [] \<and> reasons e = [drift_reason d]"
  using assms by (fastforce simp: prune_entries_def in_mfilter_map split: if_splits)

end

text \<open>
  The carry as a relation between two lists: every entry of \<open>old\<close> is in \<open>new\<close> but for its reasons,
  every item has an entry in \<open>new\<close>, and \<open>new\<close> has nothing else; an item gives its contents only to a
  key that \<open>old\<close> does not have.
\<close>

definition carried_over ::
    "('e \<Rightarrow> string) \<Rightarrow> (Reason list \<Rightarrow> 'e \<Rightarrow> 'e) \<Rightarrow> 'e list \<Rightarrow> 'e list \<Rightarrow> 'e list \<Rightarrow> bool" where
  "carried_over key set_reasons items old new \<longleftrightarrow>
     (\<forall>e0 \<in> set old. \<exists>rs. set_reasons rs e0 \<in> set new) \<and>
     (\<forall>it \<in> set items. key it \<in> key ` set new) \<and>
     (\<forall>e \<in> set new. (\<exists>e0 \<in> set old. \<exists>rs. e = set_reasons rs e0) \<or>
        (\<exists>it \<in> set items. key it \<notin> key ` set old \<and> (\<exists>rs. e = set_reasons rs it)))"

text \<open>Carrying is done on the entry types keyed by a string.\<close>

locale carried_entry = plan_entry key sections reasons set_reasons
  for key :: "'e \<Rightarrow> string" and sections reasons set_reasons
begin

lemma carryItem_get:
  "mget (carryItem key reasons set_reasons retry it m) k =
     (if k = key it then
        Some (case mget m k of
                Some have \<Rightarrow> set_reasons (appendReason (reasons have) retry) have
              | None \<Rightarrow> set_reasons (appendReason (reasons it) retry) it)
      else mget m k)"
  by (simp add: carryItem_def split: option.split)

lemma carryItem_ok:
  assumes "entries_ok key reasons m"
  shows "entries_ok key reasons (carryItem key reasons set_reasons retry it m)"
  using assms entries_ok_get [OF assms]
  by (auto simp: carryItem_def appendReason_def split: option.split intro!: entries_ok_mput)

lemma carryItems_ok:
  assumes "entries_ok key reasons m"
  shows "entries_ok key reasons (carryItems key reasons set_reasons retry items m)"
  unfolding carryItems_def by (rule fold_inv) (auto intro: carryItem_ok assms)

lemma carryItems_keys:
  "fst ` set (carryItems key reasons set_reasons retry items m) = fst ` set m \<union> key ` set items"
proof (induction items arbitrary: m)
  case Nil
  show ?case by (simp add: carryItems_def)
next
  case (Cons it items)
  have "fst ` set (carryItem key reasons set_reasons retry it m) = insert (key it) (fst ` set m)"
    by (simp add: carryItem_def split: option.split)
  with Cons show ?case by (simp add: carryItems_def)
qed

text \<open>A fresh entry survives: only its reasons grow.\<close>

lemma carryItems_fresh:
  assumes "mget m k = Some e"
  shows "\<exists>rs. mget (carryItems key reasons set_reasons retry items m) k = Some (set_reasons rs e)
    \<and> set (reasons e) \<subseteq> set rs \<and> set rs \<subseteq> insert retry (set (reasons e))"
proof -
  let ?P = "\<lambda>m'. \<exists>rs. mget m' k = Some (set_reasons rs e) \<and> set (reasons e) \<subseteq> set rs
    \<and> set rs \<subseteq> insert retry (set (reasons e))"
  have "?P m" using assms by (metis set_same subset_insertI subset_refl)
  moreover have "?P (carryItem key reasons set_reasons retry it m')" if "?P m'" for it m'
  proof -
    from that obtain rs where rs: "mget m' k = Some (set_reasons rs e)"
      "set (reasons e) \<subseteq> set rs" "set rs \<subseteq> insert retry (set (reasons e))" by blast
    show ?thesis
    proof (cases "k = key it")
      case True
      with rs show ?thesis
        by (intro exI [of _ "append_new rs retry"]) (auto simp: carryItem_get appendReason_def)
    next
      case False
      with rs show ?thesis by (auto simp: carryItem_get)
    qed
  qed
  ultimately show ?thesis unfolding carryItems_def by (intro fold_inv [where P = ?P]) blast+
qed

text \<open>An entry that was not there comes from the carried items, unchanged but for the reasons.\<close>

lemma carryItems_origin:
  assumes "mget (carryItems key reasons set_reasons retry items m) k = Some e"
  shows "(\<exists>e0 rs. mget m k = Some e0 \<and> e = set_reasons rs e0)
    \<or> (\<exists>it \<in> set items. key it = k \<and> (\<exists>rs. e = set_reasons rs it))"
proof -
  let ?P = "\<lambda>m'. \<forall>e. mget m' k = Some e \<longrightarrow>
     (\<exists>e0 rs. mget m k = Some e0 \<and> e = set_reasons rs e0)
    \<or> (\<exists>it \<in> set items. key it = k \<and> (\<exists>rs. e = set_reasons rs it))"
  have "?P m" by (metis set_same)
  moreover have "?P (carryItem key reasons set_reasons retry it m')"
    if "it \<in> set items" "?P m'" for it m'
    using that by (auto simp: carryItem_get split: option.splits) (metis set_set)+
  ultimately have "?P (carryItems key reasons set_reasons retry items m)"
    unfolding carryItems_def by (intro fold_inv [where P = ?P]) blast+
  with assms show ?thesis by blast
qed

text \<open>Every carried item is planned again, marked as a retry.\<close>

lemma carryItems_retried:
  assumes "it \<in> set items"
  shows "\<exists>e. mget (carryItems key reasons set_reasons retry items m) (key it) = Some e
    \<and> retry \<in> set (reasons e)"
  unfolding carryItems_def
proof (rule fold_establish [OF assms])
  show "\<exists>e. mget (carryItem key reasons set_reasons retry it s) (key it) = Some e
      \<and> retry \<in> set (reasons e)" for s
    by (auto simp: carryItem_get appendReason_def split: option.split)
  show "\<exists>e. mget (carryItem key reasons set_reasons retry it' s) (key it) = Some e
      \<and> retry \<in> set (reasons e)"
    if "\<exists>e. mget s (key it) = Some e \<and> retry \<in> set (reasons e)" for it' s
    using that by (auto simp: carryItem_get appendReason_def split: option.split)
qed

text \<open>
  The same as lists: \<open>new\<close> is \<open>old\<close> with the items carried over, the entries of \<open>old\<close> taking
  precedence.
\<close>

lemma carryItems_over:
  assumes ok: "entries_ok key reasons m"
  shows "carried_over key set_reasons items (collectSorted key m)
    (collectSorted key (carryItems key reasons set_reasons retry items m))"
    (is "carried_over _ _ _ ?old ?new")
proof -
  have old: "e \<in> set ?old \<longleftrightarrow> mget m (key e) = Some e" for e by (rule in_collectSorted [OF ok])
  have new: "e \<in> set ?new \<longleftrightarrow> mget (carryItems key reasons set_reasons retry items m) (key e) = Some e"
    for e by (rule in_collectSorted [OF carryItems_ok [OF ok]])
  have fresh: "\<exists>rs. set_reasons rs e0 \<in> set ?new" if "e0 \<in> set ?old" for e0
  proof -
    from carryItems_fresh [OF that [unfolded old], of retry items] obtain rs
      where "mget (carryItems key reasons set_reasons retry items m) (key e0) = Some (set_reasons rs e0)"
      by blast
    then have "set_reasons rs e0 \<in> set ?new" unfolding new by simp
    then show ?thesis by blast
  qed
  have items: "key it \<in> key ` set ?new" if "it \<in> set items" for it
  proof -
    from carryItems_retried [OF that, of retry m] obtain e
      where e: "mget (carryItems key reasons set_reasons retry items m) (key it) = Some e" by blast
    then have "key e = key it" using entries_ok_get [OF carryItems_ok [OF ok]] by blast
    moreover from this e have "e \<in> set ?new" unfolding new by simp
    ultimately show ?thesis by (intro image_eqI [of _ _ e]) simp_all
  qed
  have origin: "(\<exists>e0 \<in> set ?old. \<exists>rs. e = set_reasons rs e0) \<or>
      (\<exists>it \<in> set items. key it \<notin> key ` set ?old \<and> (\<exists>rs. e = set_reasons rs it))"
    if "e \<in> set ?new" for e
  proof (cases "mget m (key e)")
    case (Some e0)
    have "e0 \<in> set ?old" unfolding old using Some entries_ok_get [OF ok Some] by simp
    moreover from carryItems_fresh [OF Some, of retry items] obtain rs
      where "mget (carryItems key reasons set_reasons retry items m) (key e) = Some (set_reasons rs e0)"
      by blast
    moreover from this that have "e = set_reasons rs e0" unfolding new by simp
    ultimately show ?thesis by blast
  next
    case None
    have no: "key e \<notin> key ` set ?old"
    proof
      assume "key e \<in> key ` set ?old"
      then obtain e' where "e' \<in> set ?old" "key e = key e'" by blast
      then show False using None unfolding old by simp
    qed
    from carryItems_origin [OF that [unfolded new]] None
    have "\<exists>it \<in> set items. key it = key e \<and> (\<exists>rs. e = set_reasons rs it)" by simp
    then obtain it rs where it: "it \<in> set items" "key it = key e" "e = set_reasons rs it" by blast
    have "key it \<notin> key ` set ?old" unfolding it(2) by (rule no)
    with it(1,3) show ?thesis by blast
  qed
  show ?thesis unfolding carried_over_def by (intro conjI ballI fresh items origin)
qed

end

interpretation rewrite_entry: carried_entry rw_source rw_sections rw_reasons set_rw_reasons
  by unfold_locales (simp_all add: set_rw_reasons_def)

interpretation postconf_entry: carried_entry pc_key pc_sections pc_reasons set_pc_reasons
  by unfold_locales (simp_all add: set_pc_reasons_def)

interpretation postconfd_entry: carried_entry pd_key pd_sections pd_reasons set_pd_reasons
  by unfold_locales (simp_all add: set_pd_reasons_def)

interpretation ldap_entry: carried_entry ld_key ld_sections ld_reasons set_ld_reasons
  by unfold_locales (simp_all add: set_ld_reasons_def)

interpretation restart_entry: carried_entry rs_service rs_sections rs_reasons set_rs_reasons
  by unfold_locales (simp_all add: set_rs_reasons_def)

interpretation mapfile_entry:
  plan_entry "\<lambda>m. (mf_key m, mf_local m)" mf_sections mf_reasons set_mf_reasons
  by unfold_locales (simp_all add: set_mf_reasons_def)

end
