(* ===== verification/Plan_Builder.thy ===== *)
theory Plan_Builder
  imports Plan_Invariants
begin

text \<open>
  What one iteration of \<open>processSections\<close> does to each field of the builder. The decision to process
  a section and its reasons depend on the input only, so each field of the builder evolves on its
  own: the loop is one independent fold per field. The builder invariant (every map is well formed
  and keyed by its entries, every entry has a reason) follows field by field.
\<close>

definition processed :: "Input \<Rightarrow> string \<Rightarrow> MtaConfigSection \<Rightarrow> bool" where
  "processed i sn sec \<longleftrightarrow> considered i sn (Some sec) \<and> reasons_of i sn sec \<noteq> []"

definition restarts_now :: "Input \<Rightarrow> string \<Rightarrow> bool" where
  "restarts_now i sn \<longleftrightarrow> \<not> in_FirstRun i \<and> \<not> forced i sn \<and> \<not> requested i sn"

definition restarts_later :: "Input \<Rightarrow> string \<Rightarrow> MtaConfigSection \<Rightarrow> bool" where
  "restarts_later i sn sec \<longleftrightarrow>
     \<not> in_FirstRun i \<and> (forced i sn \<or> requested i sn) \<and> varChanges (reasons_of i sn sec) \<noteq> []"

definition deferred_reasons :: "Input \<Rightarrow> string \<Rightarrow> MtaConfigSection \<Rightarrow> Reason list" where
  "deferred_reasons i sn sec =
     varChanges (reasons_of i sn sec) @ [section_reason ReasonDeferred sn]"

section \<open>One iteration, field by field\<close>

lemma conditionals_frame [simp]:
  "b_sections (fold (compileConditional i sn rs) cs b) = b_sections b"
  "b_mapfiles (fold (compileConditional i sn rs) cs b) = b_mapfiles b"
  "b_heal (fold (compileConditional i sn rs) cs b) = b_heal b"
  "b_rewrites (fold (compileConditional i sn rs) cs b) = b_rewrites b"
  "b_ldap (fold (compileConditional i sn rs) cs b) = b_ldap b"
  "b_proxygen (fold (compileConditional i sn rs) cs b) = b_proxygen b"
  "b_restarts (fold (compileConditional i sn rs) cs b) = b_restarts b"
  "b_deferred (fold (compileConditional i sn rs) cs b) = b_deferred b"
  "b_tracked (fold (compileConditional i sn rs) cs b) = b_tracked b"
  by (induction cs arbitrary: b; simp add: compileConditional_def)+

lemma healMapfiles_frame [simp]:
  "b_sections (healMapfiles sn sec c b) = b_sections b"
  "b_mapfiles (healMapfiles sn sec c b) = b_mapfiles b"
  "b_rewrites (healMapfiles sn sec c b) = b_rewrites b"
  "b_postconf (healMapfiles sn sec c b) = b_postconf b"
  "b_postconfd (healMapfiles sn sec c b) = b_postconfd b"
  "b_ldap (healMapfiles sn sec c b) = b_ldap b"
  "b_proxygen (healMapfiles sn sec c b) = b_proxygen b"
  "b_restarts (healMapfiles sn sec c b) = b_restarts b"
  "b_deferred (healMapfiles sn sec c b) = b_deferred b"
  "b_tracked (healMapfiles sn sec c b) = b_tracked b"
  by (simp_all add: healMapfiles_def)

lemma mapfileOps_frame [simp]:
  "b_sections (mapfileOps sn sec rs b) = b_sections b"
  "b_heal (mapfileOps sn sec rs b) = b_heal b"
  "b_rewrites (mapfileOps sn sec rs b) = b_rewrites b"
  "b_postconf (mapfileOps sn sec rs b) = b_postconf b"
  "b_postconfd (mapfileOps sn sec rs b) = b_postconfd b"
  "b_ldap (mapfileOps sn sec rs b) = b_ldap b"
  "b_proxygen (mapfileOps sn sec rs b) = b_proxygen b"
  "b_restarts (mapfileOps sn sec rs b) = b_restarts b"
  "b_deferred (mapfileOps sn sec rs b) = b_deferred b"
  "b_tracked (mapfileOps sn sec rs b) = b_tracked b"
  by (simp_all add: mapfileOps_def)

lemma compileProxygen_frame [simp]:
  "b_sections (compileProxygen sn sec rs b) = b_sections b"
  "b_mapfiles (compileProxygen sn sec rs b) = b_mapfiles b"
  "b_heal (compileProxygen sn sec rs b) = b_heal b"
  "b_rewrites (compileProxygen sn sec rs b) = b_rewrites b"
  "b_postconf (compileProxygen sn sec rs b) = b_postconf b"
  "b_postconfd (compileProxygen sn sec rs b) = b_postconfd b"
  "b_ldap (compileProxygen sn sec rs b) = b_ldap b"
  "b_restarts (compileProxygen sn sec rs b) = b_restarts b"
  "b_deferred (compileProxygen sn sec rs b) = b_deferred b"
  "b_tracked (compileProxygen sn sec rs b) = b_tracked b"
  by (simp_all add: compileProxygen_def Let_def)

lemma compileLdap_frame [simp]:
  "b_sections (compileLdap sn sec rs b) = b_sections b"
  "b_mapfiles (compileLdap sn sec rs b) = b_mapfiles b"
  "b_heal (compileLdap sn sec rs b) = b_heal b"
  "b_rewrites (compileLdap sn sec rs b) = b_rewrites b"
  "b_postconf (compileLdap sn sec rs b) = b_postconf b"
  "b_postconfd (compileLdap sn sec rs b) = b_postconfd b"
  "b_proxygen (compileLdap sn sec rs b) = b_proxygen b"
  "b_restarts (compileLdap sn sec rs b) = b_restarts b"
  "b_deferred (compileLdap sn sec rs b) = b_deferred b"
  "b_tracked (compileLdap sn sec rs b) = b_tracked b"
  by (simp_all add: compileLdap_def)

lemma compileRewrites_frame [simp]:
  "b_sections (compileRewrites sn sec rs b) = b_sections b"
  "b_mapfiles (compileRewrites sn sec rs b) = b_mapfiles b"
  "b_heal (compileRewrites sn sec rs b) = b_heal b"
  "b_postconf (compileRewrites sn sec rs b) = b_postconf b"
  "b_postconfd (compileRewrites sn sec rs b) = b_postconfd b"
  "b_ldap (compileRewrites sn sec rs b) = b_ldap b"
  "b_proxygen (compileRewrites sn sec rs b) = b_proxygen b"
  "b_restarts (compileRewrites sn sec rs b) = b_restarts b"
  "b_deferred (compileRewrites sn sec rs b) = b_deferred b"
  "b_tracked (compileRewrites sn sec rs b) = b_tracked b"
  by (simp_all add: compileRewrites_def)

lemma compileRestarts_frame [simp]:
  "b_sections (compileRestarts i sn sec rs b) = b_sections b"
  "b_mapfiles (compileRestarts i sn sec rs b) = b_mapfiles b"
  "b_heal (compileRestarts i sn sec rs b) = b_heal b"
  "b_rewrites (compileRestarts i sn sec rs b) = b_rewrites b"
  "b_postconf (compileRestarts i sn sec rs b) = b_postconf b"
  "b_postconfd (compileRestarts i sn sec rs b) = b_postconfd b"
  "b_ldap (compileRestarts i sn sec rs b) = b_ldap b"
  "b_proxygen (compileRestarts i sn sec rs b) = b_proxygen b"
  "b_tracked (compileRestarts i sn sec rs b) = b_tracked b"
  by (simp_all add: compileRestarts_def Let_def)

lemmas section_defs = compileSection_def Let_def

lemma processSection_None [simp]: "processSection i (sn, None) b = b"
  by (simp add: processSection_def)

lemma processSection_Some:
  "processSection i (sn, Some sec) b =
     (if \<not> considered i sn (Some sec) then b
      else if reasons_of i sn sec = [] then healMapfiles sn sec (compared i sn) b
      else
        let b1 = healMapfiles sn sec (compared i sn) b;
            b2 = b1\<lparr>b_sections := b_sections b1 @ [\<lparr>sn_name = sn, sn_reasons = reasons_of i sn sec\<rparr>]\<rparr>;
            b3 = (if changes_of i sn sec \<noteq> [] \<or> in_FirstRun i
                  then mapfileOps sn sec (reasons_of i sn sec) b2 else b2)
        in compileSection i sn sec (reasons_of i sn sec) b3)"
  by (simp add: processSection_def Let_def)

lemma processSection_restarts:
  "b_restarts (processSection i (sn, Some sec) b) =
     (if processed i sn sec \<and> restarts_now i sn
      then compileSectionRestarts i (b_restarts b) sn sec (reasons_of i sn sec) else b_restarts b)"
  by (simp add: processSection_Some processed_def compileRestarts_def restarts_now_def section_defs)

lemma processSection_deferred:
  "b_deferred (processSection i (sn, Some sec) b) =
     (if processed i sn sec \<and> restarts_later i sn sec
      then compileSectionRestarts i (b_deferred b) sn sec (deferred_reasons i sn sec)
      else b_deferred b)"
  by (simp add: processSection_Some processed_def compileRestarts_def restarts_later_def deferred_reasons_def section_defs)

lemma processSection_sections:
  "b_sections (processSection i (sn, Some sec) b) =
     b_sections b @ (if processed i sn sec
                     then [\<lparr>sn_name = sn, sn_reasons = reasons_of i sn sec\<rparr>] else [])"
  by (simp add: processSection_Some processed_def section_defs)

lemma processSection_tracked [simp]: "b_tracked (processSection i e b) = b_tracked b"
  by (cases e; cases "snd e") (auto simp: processSection_Some section_defs)

lemma processSection_heal:
  "b_heal (processSection i (sn, Some sec) b) =
     (if considered i sn (Some sec) \<and> compared i sn
      then fold (healMapfile sn) (sec_required sec) (b_heal b) else b_heal b)"
  by (simp add: processSection_Some processed_def healMapfiles_def section_defs)

lemma processSection_mapfiles:
  "b_mapfiles (processSection i (sn, Some sec) b) =
     (if processed i sn sec \<and> (changes_of i sn sec \<noteq> [] \<or> in_FirstRun i)
      then fold (mapfileOp sn (reasons_of i sn sec)) (sec_required sec) (b_mapfiles b)
      else b_mapfiles b)"
  by (simp add: processSection_Some processed_def mapfileOps_def section_defs)

lemma processSection_rewrites:
  "b_rewrites (processSection i (sn, Some sec) b) =
     (if processed i sn sec
      then fold (compileRewrite sn (reasons_of i sn sec)) (sec_rewrites sec) (b_rewrites b)
      else b_rewrites b)"
  by (simp add: processSection_Some processed_def compileRewrites_def section_defs)

lemma processSection_ldap:
  "b_ldap (processSection i (sn, Some sec) b) =
     (if processed i sn sec
      then fold (compileLdapKey sn (reasons_of i sn sec)) (sec_ldap sec) (b_ldap b) else b_ldap b)"
  by (simp add: processSection_Some processed_def compileLdap_def section_defs)

lemma processSection_proxygen:
  "b_proxygen (processSection i (sn, Some sec) b) =
     (if processed i sn sec \<and> sec_proxygen sec
      then Some (let g = (case b_proxygen b of None \<Rightarrow> \<lparr>pg_sections = [], pg_reasons = []\<rparr> | Some g \<Rightarrow> g)
                 in g\<lparr>pg_sections := appendUnique (pg_sections g) sn,
                      pg_reasons := appendReasons (pg_reasons g) (reasons_of i sn sec)\<rparr>)
      else b_proxygen b)"
  by (simp add: processSection_Some processed_def compileProxygen_def section_defs)

lemma conditionals_postconf:
  "b_postconf (fold (compileConditional i sn rs) cs b) =
     fold (\<lambda>c m. if conditionHolds i c then fold (setPostconf sn rs) (cond_postconf c) m else m)
       cs (b_postconf b)"
  by (rule fold_field) (simp add: compileConditional_def)

lemma conditionals_postconfd:
  "b_postconfd (fold (compileConditional i sn rs) cs b) =
     fold (\<lambda>c m. if conditionHolds i c then fold (setPostconfd sn rs) (cond_postconfd c) m else m)
       cs (b_postconfd b)"
  by (rule fold_field) (simp add: compileConditional_def)

lemma processSection_postconf:
  "b_postconf (processSection i (sn, Some sec) b) =
     (if processed i sn sec
      then fold (\<lambda>c m. if conditionHolds i c
                       then fold (setPostconf sn (reasons_of i sn sec)) (cond_postconf c) m else m)
             (sec_conditionals sec)
             (fold (setPostconf sn (reasons_of i sn sec)) (sec_postconf sec) (b_postconf b))
      else b_postconf b)"
  by (simp add: processSection_Some processed_def section_defs conditionals_postconf)

lemma processSection_postconfd:
  "b_postconfd (processSection i (sn, Some sec) b) =
     (if processed i sn sec
      then fold (\<lambda>c m. if conditionHolds i c
                       then fold (setPostconfd sn (reasons_of i sn sec)) (cond_postconfd c) m else m)
             (sec_conditionals sec)
             (fold (setPostconfd sn (reasons_of i sn sec)) (sec_postconfd sec) (b_postconfd b))
      else b_postconfd b)"
  by (simp add: processSection_Some processed_def section_defs conditionals_postconfd)

section \<open>The builder invariant\<close>

definition builder_ok :: "builder \<Rightarrow> bool" where
  "builder_ok b \<longleftrightarrow>
     entries_ok (\<lambda>m. (mf_key m, mf_local m)) mf_reasons (b_mapfiles b) \<and>
     entries_ok mf_key mf_reasons (b_heal b) \<and> mall (\<lambda>_ m. \<not> mf_local m) (b_heal b) \<and>
     entries_ok rw_source rw_reasons (b_rewrites b) \<and>
     entries_ok pc_key pc_reasons (b_postconf b) \<and>
     entries_ok pd_key pd_reasons (b_postconfd b) \<and>
     entries_ok ld_key ld_reasons (b_ldap b) \<and>
     entries_ok rs_service rs_reasons (b_restarts b) \<and>
     entries_ok rs_service rs_reasons (b_deferred b) \<and>
     (\<forall>g. b_proxygen b = Some g \<longrightarrow> pg_reasons g \<noteq> []) \<and>
     (\<forall>s \<in> set (b_sections b). sn_reasons s \<noteq> [])"

lemma addRestart_ok:
  assumes "entries_ok rs_service rs_reasons m" "rs \<noteq> []"
  shows "entries_ok rs_service rs_reasons (addRestart svc a sn rs m)"
  using assms by (auto simp: addRestart_def appendReasons_def intro!: entries_ok_mupsert)

lemma compileSectionRestarts_ok:
  assumes "entries_ok rs_service rs_reasons m" "rs \<noteq> []"
  shows "entries_ok rs_service rs_reasons (compileSectionRestarts i m sn sec rs)"
  unfolding compileSectionRestarts_def
  using assms(2)
  by (intro fold_inv [where P = "entries_ok rs_service rs_reasons"] assms(1))
    (auto simp: compileSectionRestart_def Let_def intro!: addRestart_ok)

lemma healMapfile_ok:
  assumes "entries_ok mf_key mf_reasons m \<and> mall (\<lambda>_ e. \<not> mf_local e) m"
  shows "entries_ok mf_key mf_reasons (healMapfile sn kv m) \<and>
    mall (\<lambda>_ e. \<not> mf_local e) (healMapfile sn kv m)"
  using assms
  by (auto simp: healMapfile_def appendReason_def Let_def split: prod.split
      intro!: entries_ok_mupsert mall_mupsert)

lemma mapfileOp_ok:
  assumes "entries_ok (\<lambda>m. (mf_key m, mf_local m)) mf_reasons ms" "rs \<noteq> []"
  shows "entries_ok (\<lambda>m. (mf_key m, mf_local m)) mf_reasons (mapfileOp sn rs kv ms)"
  using assms
  by (auto simp: mapfileOp_def appendReasons_def Let_def split: prod.split intro!: entries_ok_mupsert)

lemma compileRewrite_ok:
  assumes "entries_ok rw_source rw_reasons m" "rs \<noteq> []"
  shows "entries_ok rw_source rw_reasons (compileRewrite sn rs kv m)"
  using assms
  by (auto simp: compileRewrite_def appendReasons_def split: prod.split intro!: entries_ok_mupsert)

lemma setPostconf_ok:
  assumes "entries_ok pc_key pc_reasons m" "rs \<noteq> []"
  shows "entries_ok pc_key pc_reasons (setPostconf sn rs kv m)"
  using assms
  by (auto simp: setPostconf_def appendReasons_def split: prod.split intro!: entries_ok_mupsert)

lemma setPostconfd_ok:
  assumes "entries_ok pd_key pd_reasons m" "rs \<noteq> []"
  shows "entries_ok pd_key pd_reasons (setPostconfd sn rs kv m)"
  using assms
  by (auto simp: setPostconfd_def appendReasons_def split: prod.split intro!: entries_ok_mupsert)

lemma compileLdapKey_ok:
  assumes "entries_ok ld_key ld_reasons m" "rs \<noteq> []"
  shows "entries_ok ld_key ld_reasons (compileLdapKey sn rs kv m)"
  using assms
  by (auto simp: compileLdapKey_def appendReasons_def split: prod.split intro!: entries_ok_mupsert)

lemma processSection_ok:
  assumes "builder_ok b"
  shows "builder_ok (processSection i (sn, Some sec) b)"
proof -
  let ?rs = "reasons_of i sn sec" and ?b = "processSection i (sn, Some sec) b"
  note ok = assms [unfolded builder_ok_def]
  have "entries_ok (\<lambda>m. (mf_key m, mf_local m)) mf_reasons (b_mapfiles ?b)"
    using ok by (auto simp: processSection_mapfiles processed_def intro!: mapfileOp_ok
        fold_inv [where P = "entries_ok (\<lambda>m. (mf_key m, mf_local m)) mf_reasons"])
  moreover have "entries_ok mf_key mf_reasons (b_heal ?b) \<and> mall (\<lambda>_ m. \<not> mf_local m) (b_heal ?b)"
    using ok unfolding processSection_heal
    by (auto intro!: fold_inv [where
          P = "\<lambda>m. entries_ok mf_key mf_reasons m \<and> mall (\<lambda>_ e. \<not> mf_local e) m"] healMapfile_ok)
  moreover have "entries_ok rw_source rw_reasons (b_rewrites ?b)"
    using ok by (auto simp: processSection_rewrites processed_def intro!: compileRewrite_ok
        fold_inv [where P = "entries_ok rw_source rw_reasons"])
  moreover have "entries_ok pc_key pc_reasons (b_postconf ?b)"
    using ok
    by (auto simp: processSection_postconf processed_def intro!: setPostconf_ok fold_inv
        [where P = "entries_ok pc_key pc_reasons"])
  moreover have "entries_ok pd_key pd_reasons (b_postconfd ?b)"
    using ok
    by (auto simp: processSection_postconfd processed_def intro!: setPostconfd_ok fold_inv
        [where P = "entries_ok pd_key pd_reasons"])
  moreover have "entries_ok ld_key ld_reasons (b_ldap ?b)"
    using ok by (auto simp: processSection_ldap processed_def intro!: compileLdapKey_ok
        fold_inv [where P = "entries_ok ld_key ld_reasons"])
  moreover have "entries_ok rs_service rs_reasons (b_restarts ?b)"
    using ok by (auto simp: processSection_restarts processed_def intro!: compileSectionRestarts_ok)
  moreover have "entries_ok rs_service rs_reasons (b_deferred ?b)"
    using ok
    by (auto simp: processSection_deferred deferred_reasons_def intro!: compileSectionRestarts_ok)
  moreover have "\<forall>g. b_proxygen ?b = Some g \<longrightarrow> pg_reasons g \<noteq> []"
    using ok by (auto simp: processSection_proxygen processed_def appendReasons_def Let_def)
  moreover have "\<forall>s \<in> set (b_sections ?b). sn_reasons s \<noteq> []"
    using ok by (auto simp: processSection_sections processed_def)
  ultimately show ?thesis by (simp add: builder_ok_def)
qed

lemma processSections_ok:
  assumes "builder_ok b"
  shows "builder_ok (processSections i b)"
proof -
  have "builder_ok (processSection i e b')" if "builder_ok b'" for e b'
    using that processSection_ok [of b' i "fst e"] by (cases e; cases "snd e") auto
  with assms show ?thesis
    by (auto simp: processSections_def intro!: fold_inv [where P = builder_ok] split: option.split)
qed

lemma newBuilder_ok [simp, intro!]: "builder_ok (newBuilder i)"
  by (simp add: builder_ok_def newBuilder_def)

section \<open>Service tracking\<close>

lemma stopToggles_get:
  "mget (stopToggles i tr) svc =
     (if svc \<in> fst ` set tr \<and> \<not> ServiceEnabled (in_Cur i) svc
      then Some (toggle svc ActionStop ReasonServiceDisabled) else None)"
proof -
  let ?step = "\<lambda>svc toggles. if \<not> ServiceEnabled (in_Cur i) svc
    then mput svc (toggle svc ActionStop ReasonServiceDisabled) toggles else toggles"
  have "mget (fold ?step ks m) svc =
     (if svc \<in> set ks \<and> \<not> ServiceEnabled (in_Cur i) svc
      then Some (toggle svc ActionStop ReasonServiceDisabled) else mget m svc)" for ks m
    by (induction ks arbitrary: m) auto
  from this [of "mkeys tr" "[]"] show ?thesis by (simp add: stopToggles_def)
qed

lemma serviceToggle_fold_tracked:
  "\<not> in_FirstRun i \<Longrightarrow> fst (fold (serviceToggle i) svcs st) = fst st"
  by (induction svcs arbitrary: st) (auto simp: serviceToggle_def split: prod.split)

lemma serviceToggle_fold_get:
  assumes "\<not> in_FirstRun i"
  shows "mget (snd (fold (serviceToggle i) svcs (tr, tg))) svc =
    (if svc \<in> set svcs \<and> svc \<notin> fst ` set tr
     then Some (toggle svc ActionStart ReasonServiceEnabled) else mget tg svc)"
  using assms by (induction svcs arbitrary: tg) (auto simp: serviceToggle_def)

lemma serviceToggle_fold_first:
  assumes "in_FirstRun i"
  shows "snd (fold (serviceToggle i) svcs st) = snd st"
    and "fst ` set (fst (fold (serviceToggle i) svcs st)) = fst ` set (fst st) \<union> set svcs"
  using assms by (induction svcs arbitrary: st) (auto simp: serviceToggle_def split: prod.split)

lemma serviceToggles_get:
  "mget (snd (serviceToggles i tr)) svc =
     (if svc \<in> fst ` set tr \<and> \<not> ServiceEnabled (in_Cur i) svc
        then Some (toggle svc ActionStop ReasonServiceDisabled)
      else if \<not> in_FirstRun i \<and> svc \<notin> fst ` set tr \<and> ServiceEnabled (in_Cur i) svc
        then Some (toggle svc ActionStart ReasonServiceEnabled)
      else None)"
  by (cases "in_FirstRun i")
    (auto simp: serviceToggles_def serviceToggle_fold_get serviceToggle_fold_first(1)
      stopToggles_get in_ServiceNames)

lemma serviceToggles_tracked:
  "fst ` set (fst (serviceToggles i tr)) =
     fst ` set tr \<union> (if in_FirstRun i then set (ServiceNames (in_Cur i)) else {})"
  by (cases "in_FirstRun i")
    (simp_all add: serviceToggles_def serviceToggle_fold_tracked serviceToggle_fold_first(2))

lemma stopToggles_ok: "entries_ok rs_service rs_reasons (stopToggles i tr)"
  unfolding stopToggles_def
  by (rule fold_inv [where P = "entries_ok rs_service rs_reasons"]) (auto simp: toggle_def)

lemma serviceToggles_ok: "entries_ok rs_service rs_reasons (snd (serviceToggles i tr))"
  unfolding serviceToggles_def
  by (rule fold_inv [where P = "\<lambda>st. entries_ok rs_service rs_reasons (snd st)"])
    (auto simp: stopToggles_ok serviceToggle_def toggle_def split: prod.split)

lemma mergeToggle_get:
  "mget (mergeToggle (svc, st) m) k =
     (if k = svc then
        Some (case mget m svc of
                Some have \<Rightarrow> have\<lparr>rs_reasons := appendReasons (rs_reasons have) (rs_reasons st)\<rparr>
              | None \<Rightarrow> st)
      else mget m k)"
  by (simp add: mergeToggle_def split: option.split)

lemma mergeToggles_get:
  assumes "wf_map tg"
  shows "mget (fold mergeToggle tg m) k =
    (case mget tg k of
       None \<Rightarrow> mget m k
     | Some st \<Rightarrow>
         Some (case mget m k of
                 Some have \<Rightarrow> have\<lparr>rs_reasons := appendReasons (rs_reasons have) (rs_reasons st)\<rparr>
               | None \<Rightarrow> st))"
  using assms
proof (induction tg arbitrary: m)
  case (Cons e tg)
  obtain svc st where e: "e = (svc, st)" by (cases e)
  from Cons.prems have wf: "wf_map tg" and fresh: "mget tg svc = None"
    by (auto simp: e wf_map_Cons map_of_eq_None_iff)
  show ?case by (auto simp: e Cons.IH [OF wf] mergeToggle_get fresh split: option.split)
qed simp

lemma mergeToggles_ok:
  assumes "entries_ok rs_service rs_reasons m" "entries_ok rs_service rs_reasons tg"
  shows "entries_ok rs_service rs_reasons (fold mergeToggle tg m)"
proof (rule fold_inv [where P = "entries_ok rs_service rs_reasons"])
  fix e :: "string \<times> Restart" and s :: "Restart smap"
  assume e: "e \<in> set tg" and s: "entries_ok rs_service rs_reasons s"
  obtain svc st where [simp]: "e = (svc, st)" by (cases e)
  from e assms(2) have "rs_service st = svc" "rs_reasons st \<noteq> []"
    by (auto simp: entries_ok_def mall_def)
  with s entries_ok_get [OF s] show "entries_ok rs_service rs_reasons (mergeToggle e s)"
    by (auto simp: mergeToggle_def appendReasons_def split: option.split)
qed (rule assms(1))

lemma trackServices_fields [simp]:
  "b_sections (trackServices i b) = b_sections b"
  "b_mapfiles (trackServices i b) = b_mapfiles b"
  "b_heal (trackServices i b) = b_heal b"
  "b_rewrites (trackServices i b) = b_rewrites b"
  "b_postconf (trackServices i b) = b_postconf b"
  "b_postconfd (trackServices i b) = b_postconfd b"
  "b_ldap (trackServices i b) = b_ldap b"
  "b_proxygen (trackServices i b) = b_proxygen b"
  "b_deferred (trackServices i b) = b_deferred b"
  "b_tracked (trackServices i b) = fst (serviceToggles i (b_tracked b))"
  "b_restarts (trackServices i b) =
     fold mergeToggle (snd (serviceToggles i (b_tracked b))) (b_restarts b)"
  by (simp_all add: trackServices_def split: prod.split)

lemma trackServices_ok: "builder_ok b \<Longrightarrow> builder_ok (trackServices i b)"
  by (simp add: builder_ok_def mergeToggles_ok serviceToggles_ok)

section \<open>Carry and host\<close>

lemma mergeCarry_ok:
  assumes "builder_ok b"
  shows "builder_ok (mergeCarry i b)"
  using assms
  by (auto simp: builder_ok_def mergeCarry_def Let_def mergeCarryProxygen_def appendReason_def
      rewrite_entry.carryItems_ok postconf_entry.carryItems_ok postconfd_entry.carryItems_ok
      ldap_entry.carryItems_ok restart_entry.carryItems_ok split: option.splits)

lemma pruneHeal_ok:
  assumes "entries_ok (\<lambda>m. (mf_key m, mf_local m)) mf_reasons ms" "mf_key m = key" "\<not> mf_local m"
  shows "entries_ok (\<lambda>m. (mf_key m, mf_local m)) mf_reasons (pruneHeal h (key, m) ms)"
  using assms entries_ok_get [OF assms(1)]
  by (auto simp: pruneHeal_def set_mf_reasons_def Let_def split: option.split)

lemma pruneMapfiles_ok:
  assumes "builder_ok b"
  shows "builder_ok (fst (pruneMapfiles h b))"
proof -
  note ok = assms [unfolded builder_ok_def]
  have "entries_ok (\<lambda>m. (mf_key m, mf_local m)) mf_reasons
    (fold (pruneHeal h) (b_heal b) (b_mapfiles b))"
    using ok
    by (intro fold_inv [where P = "entries_ok (\<lambda>m. (mf_key m, mf_local m)) mf_reasons"])
      (auto simp: entries_ok_def [of mf_key] mall_def intro!: pruneHeal_ok)
  with ok show ?thesis
    by (simp add: builder_ok_def pruneMapfiles_def Let_def mapfile_entry.prune_ok)
qed

lemma pruneFiles_ok:
  assumes "builder_ok b"
  shows "builder_ok (fst (pruneFiles h b))"
  using assms
  by (auto simp: builder_ok_def pruneFiles_def Let_def rewrite_entry.prune_ok split: option.splits)

lemma pruneDirectives_ok:
  assumes "builder_ok b"
  shows "builder_ok (fst (pruneDirectives h b))"
  using assms
  by (simp add: builder_ok_def pruneDirectives_def postconf_entry.prune_ok
      postconfd_entry.prune_ok ldap_entry.prune_ok)

lemma pruneRestarts_ok:
  assumes "entries_ok rs_service rs_reasons m"
  shows "entries_ok rs_service rs_reasons (mfilter_map (\<lambda>_. pruneRestart touched) m)"
  using assms
  by (fastforce simp: entries_ok_def mall_def in_mfilter_map pruneRestart_def split: if_splits)

lemma pruneToHost_ok:
  assumes "builder_ok b"
  shows "builder_ok (pruneToHost i b)"
proof (cases "in_Host i")
  case (Some h)
  obtain b1 t1 where 1: "pruneMapfiles h b = (b1, t1)" by (cases "pruneMapfiles h b")
  obtain b2 t2 where 2: "pruneFiles h b1 = (b2, t2)" by (cases "pruneFiles h b1")
  obtain b3 t3 where 3: "pruneDirectives h b2 = (b3, t3)" by (cases "pruneDirectives h b2")
  have "builder_ok b3"
    using pruneMapfiles_ok [OF assms, of h] pruneFiles_ok [of b1 h] pruneDirectives_ok [of b2 h]
    by (simp add: 1 2 3)
  then show ?thesis by (simp add: pruneToHost_def Some 1 2 3 builder_ok_def pruneRestarts_ok)
qed (simp add: pruneToHost_def assms)

lemma compute_builder_ok: "builder_ok (compute_builder i)"
  by (simp add: compute_builder_def pruneToHost_ok mergeCarry_ok trackServices_ok processSections_ok)

lemma pruneToHost_None [simp]: "in_Host i = None \<Longrightarrow> pruneToHost i b = b"
  by (simp add: pruneToHost_def)

end
