(* ===== verification/Plan_Restarts.thy ===== *)
theory Plan_Restarts
  imports Plan_Builder
begin

text \<open>
  The restarts of a plan through the stages of \<open>Compute\<close>: what a section contributes, what the
  service tracking adds, what the carry adds. The lemmas describe the restart map of the builder by
  an invariant (\<open>restart_entry_ok\<close>: where the action and the sections of an entry come from) and by
  what every later step keeps of an entry (\<open>covers\<close>).
\<close>

definition conf_sections :: "Input \<Rightarrow> (string \<times> MtaConfigSection option) list" where
  "conf_sections i = (case in_Conf i of None \<Rightarrow> [] | Some conf \<Rightarrow> mta_sections conf)"

lemma processSections_fold: "processSections i b = fold (processSection i) (conf_sections i) b"
  by (simp add: processSections_def conf_sections_def split: option.split)

lemma processSections_inv:
  assumes "P b"
    and "\<And>sn sec b. (sn, Some sec) \<in> set (conf_sections i) \<Longrightarrow> P b \<Longrightarrow> P (processSection i (sn, Some sec) b)"
  shows "P (processSections i b)"
  unfolding processSections_fold
proof (rule fold_inv [where P = P])
  fix e s
  assume "e \<in> set (conf_sections i)" "P s"
  with assms(2) show "P (processSection i e s)" by (cases e; cases "snd e") auto
qed (rule assms(1))

lemma processSections_establish:
  assumes "(sn, Some sec) \<in> set (conf_sections i)"
    and "\<And>b. P (processSection i (sn, Some sec) b)"
    and "\<And>sn sec b. P b \<Longrightarrow> P (processSection i (sn, Some sec) b)"
  shows "P (processSections i b)"
  unfolding processSections_fold
proof (rule fold_establish [where P = P and f = "processSection i", OF assms(1)])
  fix e s
  assume "P s"
  with assms(3) show "P (processSection i e s)" by (cases e; cases "snd e") auto
qed (rule assms(2))

section \<open>The restarts of a section\<close>

text \<open>The action a section's restart gets, and none for a disabled archiving service.\<close>

definition restart_action :: "Input \<Rightarrow> string \<Rightarrow> Action option" where
  "restart_action i name =
     (if ServiceEnabled (in_Cur i) name then Some ActionRestart
      else if name = ''archiving'' then None
      else if name = ''opendkim'' \<and> ServiceEnabled (in_Cur i) ''mta'' then Some ActionRestart
      else Some ActionStop)"

lemma compileSectionRestart_eq:
  "compileSectionRestart i sn rs svc dst =
     (case restart_action i (to_lower svc) of
        None \<Rightarrow> dst
      | Some a \<Rightarrow> addRestart (to_lower svc) a sn rs dst)"
  by (simp add: compileSectionRestart_def restart_action_def Let_def)

lemma addRestart_get:
  "mget (addRestart svc a sn rs m) k =
     (if k = svc then
        Some (let r = (case mget m svc of
                 None \<Rightarrow> \<lparr>rs_service = svc, rs_action = ActionRestart, rs_sections = [], rs_reasons = []\<rparr>
               | Some r \<Rightarrow> r)
              in r\<lparr>rs_action := a,
                   rs_sections := (if sn \<noteq> [] then appendUnique (rs_sections r) sn else rs_sections r),
                   rs_reasons := appendReasons (rs_reasons r) rs\<rparr>)
      else mget m k)"
  by (auto simp: addRestart_def mget_mupsert Let_def split: option.split)

text \<open>An entry covers reasons and a section when it carries them.\<close>

definition covers :: "Restart smap \<Rightarrow> string \<Rightarrow> Reason set \<Rightarrow> bool" where
  "covers m svc rs \<longleftrightarrow> (\<exists>r. mget m svc = Some r \<and> rs \<subseteq> set (rs_reasons r))"

lemma addRestart_covers: "covers (addRestart svc a sn rs m) svc (set rs)"
  by (auto simp: covers_def addRestart_get Let_def appendReasons_def)

lemma addRestart_keeps: "covers m k R \<Longrightarrow> covers (addRestart svc a sn rs m) k R"
  by (auto simp: covers_def addRestart_get Let_def appendReasons_def split: option.split)

lemma compileSectionRestart_keeps: "covers m k R \<Longrightarrow> covers (compileSectionRestart i sn rs svc m) k R"
  by (simp add: compileSectionRestart_eq addRestart_keeps split: option.split)

lemma compileSectionRestarts_keeps: "covers m k R \<Longrightarrow> covers (compileSectionRestarts i m sn sec rs) k R"
  unfolding compileSectionRestarts_def
  by (rule fold_inv [where P = "\<lambda>m. covers m k R"]) (auto intro: compileSectionRestart_keeps)

lemma compileSectionRestarts_covers:
  assumes "svc \<in> fst ` set (sec_restarts sec)" "restart_action i (to_lower svc) \<noteq> None"
  shows "covers (compileSectionRestarts i m sn sec rs) (to_lower svc) (set rs)"
  unfolding compileSectionRestarts_def
proof (rule fold_establish)
  show "svc \<in> set (mkeys (sec_restarts sec))" using assms(1) by simp
  show "covers (compileSectionRestart i sn rs svc s) (to_lower svc) (set rs)" for s
    using assms(2) by (auto simp: compileSectionRestart_eq addRestart_covers)
qed (rule compileSectionRestart_keeps)

text \<open>Where the entries come from.\<close>

definition restart_entry_ok ::
    "Input \<Rightarrow> (string \<Rightarrow> bool) \<Rightarrow> string \<Rightarrow> Restart \<Rightarrow> bool" where
  "restart_entry_ok i sec_ok k r \<longleftrightarrow>
     restart_action i k = Some (rs_action r) \<and> (\<forall>sn \<in> set (rs_sections r). sec_ok sn)"

lemma compileSectionRestarts_origin:
  assumes "mall (restart_entry_ok i sec_ok) m" "sec_ok sn"
  shows "mall (restart_entry_ok i sec_ok) (compileSectionRestarts i m sn sec rs)"
  unfolding compileSectionRestarts_def
proof (rule fold_inv [where P = "mall (restart_entry_ok i sec_ok)"])
  fix svc and s :: "Restart smap"
  assume "mall (restart_entry_ok i sec_ok) s"
  with assms(2) show "mall (restart_entry_ok i sec_ok) (compileSectionRestart i sn rs svc s)"
    by (auto simp: compileSectionRestart_eq addRestart_def restart_entry_ok_def appendUnique_def
        split: option.split intro!: mall_mupsert)
qed (rule assms(1))

lemma section_restarts_origin:
  "mall (restart_entry_ok i (restarts_now i)) (b_restarts (processSections i (newBuilder i)))"
  by (rule processSections_inv [where P = "\<lambda>b. mall (restart_entry_ok i (restarts_now i)) (b_restarts b)"])
    (auto simp: newBuilder_def processSection_restarts intro: compileSectionRestarts_origin)

lemma section_deferred_origin:
  "mall (restart_entry_ok i (\<lambda>sn. \<not> in_FirstRun i \<and> (forced i sn \<or> requested i sn)))
     (b_deferred (processSections i (newBuilder i)))" (is "mall ?P _")
  by (rule processSections_inv [where P = "\<lambda>b. mall ?P (b_deferred b)"])
    (auto simp: newBuilder_def processSection_deferred restarts_later_def
      intro: compileSectionRestarts_origin)

lemma section_restarts_cover:
  assumes "(sn, Some sec) \<in> set (conf_sections i)" "processed i sn sec" "restarts_now i sn"
    "svc \<in> fst ` set (sec_restarts sec)" "restart_action i (to_lower svc) \<noteq> None"
  shows "covers (b_restarts (processSections i b)) (to_lower svc) (set (reasons_of i sn sec))"
  by (rule processSections_establish [OF assms(1)])
    (use assms(2-) in \<open>auto simp: processSection_restarts
       intro: compileSectionRestarts_covers compileSectionRestarts_keeps\<close>)

lemma section_deferred_cover:
  assumes "(sn, Some sec) \<in> set (conf_sections i)" "processed i sn sec" "restarts_later i sn sec"
    "svc \<in> fst ` set (sec_restarts sec)" "restart_action i (to_lower svc) \<noteq> None"
  shows "covers (b_deferred (processSections i b)) (to_lower svc) (set (deferred_reasons i sn sec))"
  by (rule processSections_establish [OF assms(1)])
    (use assms(2-) in \<open>auto simp: processSection_deferred
       intro: compileSectionRestarts_covers compileSectionRestarts_keeps\<close>)

lemma no_section_restarts:
  assumes "in_FirstRun i"
  shows "b_restarts (processSections i (newBuilder i)) = []"
    and "b_deferred (processSections i (newBuilder i)) = []"
  using assms
  by (auto simp: newBuilder_def processSection_restarts processSection_deferred restarts_now_def
      restarts_later_def intro: processSections_inv [where P = "\<lambda>b. b_restarts b = []"]
      processSections_inv [where P = "\<lambda>b. b_deferred b = []"])

section \<open>Toggles and carry\<close>

lemma processSections_tracked [simp]: "b_tracked (processSections i b) = b_tracked b"
  by (rule processSections_inv [where P = "\<lambda>b'. b_tracked b' = b_tracked b"]) auto

lemma newBuilder_tracked [simp]: "b_tracked (newBuilder i) = in_Tracked i"
  by (simp add: newBuilder_def)

definition toggles_of :: "Input \<Rightarrow> Restart smap" where
  "toggles_of i = snd (serviceToggles i (in_Tracked i))"

definition tracked_restarts :: "Input \<Rightarrow> Restart smap" where
  "tracked_restarts i = b_restarts (trackServices i (processSections i (newBuilder i)))"

definition all_restarts :: "Input \<Rightarrow> Restart smap" where
  "all_restarts i =
     carryItems rs_service rs_reasons set_rs_reasons (mk_reason ReasonRetry) (c_Restarts (in_Carry i))
       (tracked_restarts i)"

lemma tracked_restarts_get:
  "mget (tracked_restarts i) k =
    (case mget (toggles_of i) k of
       None \<Rightarrow> mget (b_restarts (processSections i (newBuilder i))) k
     | Some st \<Rightarrow>
         Some (case mget (b_restarts (processSections i (newBuilder i))) k of
                 Some have \<Rightarrow> have\<lparr>rs_reasons := appendReasons (rs_reasons have) (rs_reasons st)\<rparr>
               | None \<Rightarrow> st))"
  using entries_ok_wf [OF serviceToggles_ok]
  by (simp add: tracked_restarts_def toggles_of_def mergeToggles_get)

lemma tracked_restarts_keeps:
  "covers (b_restarts (processSections i (newBuilder i))) k R \<Longrightarrow> covers (tracked_restarts i) k R"
  by (auto simp: covers_def tracked_restarts_get appendReasons_def split: option.split)

lemma all_restarts_keeps:
  assumes "covers (tracked_restarts i) k R"
  shows "covers (all_restarts i) k R"
proof -
  from assms obtain r where "mget (tracked_restarts i) k = Some r" and R: "R \<subseteq> set (rs_reasons r)"
    by (auto simp: covers_def)
  from restart_entry.carryItems_fresh [OF this(1)] obtain rs
    where "mget (all_restarts i) k = Some (set_rs_reasons rs r)" "set (rs_reasons r) \<subseteq> set rs"
    unfolding all_restarts_def by blast
  with R show ?thesis by (auto simp: covers_def)
qed

lemma compute_builder_restarts:
  "in_Host i = None \<Longrightarrow> b_restarts (compute_builder i) = all_restarts i"
  by (simp add: compute_builder_def mergeCarry_def Let_def all_restarts_def tracked_restarts_def)

lemma compute_builder_deferred:
  "in_Host i = None \<Longrightarrow> b_deferred (compute_builder i) = b_deferred (processSections i (newBuilder i))"
  by (simp add: compute_builder_def mergeCarry_def Let_def)

lemma builder_restarts_ok:
  "entries_ok rs_service rs_reasons (b_restarts (compute_builder i))"
  "entries_ok rs_service rs_reasons (b_deferred (compute_builder i))"
  using compute_builder_ok [of i] by (simp_all add: builder_ok_def)

section \<open>From the builder to the plan\<close>

lemma Compute_plan: "Compute i = Inr p \<Longrightarrow> p = finish i (compute_builder i)"
  by (simp add: Compute_def split: option.splits)

lemma classify_restart_simps [simp]:
  "rs_service (classify_restart sd r) = rs_service r"
  "rs_sections (classify_restart sd r) = rs_sections r"
  "rs_reasons (classify_restart sd r) = rs_reasons r"
  "rs_action (classify_restart sd r) = Classify (rs_action r) (rs_service r) sd"
  by (simp_all add: classify_restart_def)

lemma plan_restart:
  assumes "Compute i = Inr p"
  shows "r \<in> set (pl_Restarts p) \<longleftrightarrow>
    (\<exists>k r0. mget (b_restarts (compute_builder i)) k = Some r0 \<and> rs_service r0 = k \<and>
       r = classify_restart (in_Systemd i) r0)"
  using assms builder_restarts_ok(1) [of i]
  by (auto simp: Compute_plan [OF assms] finish_def image_iff in_collectSorted
      dest: entries_ok_get)

lemma plan_deferred:
  assumes "Compute i = Inr p"
  shows "r \<in> set (pl_Deferred p) \<longleftrightarrow>
    (\<exists>k r0. mget (b_deferred (compute_builder i)) k = Some r0 \<and> rs_service r0 = k \<and>
       r = classify_restart (in_Systemd i) r0)"
  using assms builder_restarts_ok(2) [of i]
  by (auto simp: Compute_plan [OF assms] finish_def image_iff in_collectSorted
      dest: entries_ok_get)

lemma covers_restart:
  assumes "Compute i = Inr p" "covers (b_restarts (compute_builder i)) svc R"
  shows "\<exists>r \<in> set (pl_Restarts p). rs_service r = svc \<and> R \<subseteq> set (rs_reasons r)"
proof -
  from assms(2) obtain r where r: "mget (b_restarts (compute_builder i)) svc = Some r"
    and R: "R \<subseteq> set (rs_reasons r)" by (auto simp: covers_def)
  from entries_ok_get [OF builder_restarts_ok(1) r] have "rs_service r = svc" by simp
  with r have "classify_restart (in_Systemd i) r \<in> set (pl_Restarts p)"
    unfolding plan_restart [OF assms(1)] by blast
  with R \<open>rs_service r = svc\<close> show ?thesis by (intro bexI) auto
qed

lemma covers_deferred:
  assumes "Compute i = Inr p" "covers (b_deferred (compute_builder i)) svc R"
  shows "\<exists>r \<in> set (pl_Deferred p). rs_service r = svc \<and> R \<subseteq> set (rs_reasons r)"
proof -
  from assms(2) obtain r where r: "mget (b_deferred (compute_builder i)) svc = Some r"
    and R: "R \<subseteq> set (rs_reasons r)" by (auto simp: covers_def)
  from entries_ok_get [OF builder_restarts_ok(2) r] have "rs_service r = svc" by simp
  with r have "classify_restart (in_Systemd i) r \<in> set (pl_Deferred p)"
    unfolding plan_deferred [OF assms(1)] by blast
  with R \<open>rs_service r = svc\<close> show ?thesis by (intro bexI) auto
qed

section \<open>Where a planned restart comes from\<close>

lemma prune_frame_restarts:
  "b_restarts (fst (pruneMapfiles h b)) = b_restarts b"
  "b_restarts (fst (pruneFiles h b)) = b_restarts b"
  "b_restarts (fst (pruneDirectives h b)) = b_restarts b"
  by (simp_all add: pruneMapfiles_def pruneFiles_def pruneDirectives_def Let_def split: option.split)

lemma pruneToHost_restarts:
  assumes "in_Host i = Some h"
  shows "\<exists>touched. b_restarts (pruneToHost i b) =
    mfilter_map (\<lambda>_. pruneRestart touched) (b_restarts b)"
  using prune_frame_restarts [of h]
  by (auto simp: pruneToHost_def assms split: prod.split) (metis fst_conv)

lemma host_restart_origin:
  assumes "mget (b_restarts (compute_builder i)) k = Some r"
  shows "\<exists>r0. mget (all_restarts i) k = Some r0 \<and> rs_action r = rs_action r0 \<and>
    rs_sections r = rs_sections r0"
proof (cases "in_Host i")
  case None
  with assms show ?thesis by (auto simp: compute_builder_restarts)
next
  case (Some h)
  let ?b = "mergeCarry i (trackServices i (processSections i (newBuilder i)))"
  have all: "b_restarts ?b = all_restarts i"
    by (simp add: mergeCarry_def Let_def all_restarts_def tracked_restarts_def)
  have "builder_ok ?b"
    by (intro mergeCarry_ok trackServices_ok processSections_ok newBuilder_ok)
  then have "entries_ok rs_service rs_reasons (b_restarts ?b)" unfolding builder_ok_def by blast
  then have wf: "wf_map (all_restarts i)" unfolding all by (rule entries_ok_wf)
  from pruneToHost_restarts [OF Some, of ?b] obtain touched
    where t: "b_restarts (compute_builder i) = mfilter_map (\<lambda>_. pruneRestart touched) (all_restarts i)"
    unfolding all compute_builder_def by blast
  from assms have "(k, r) \<in> set (mfilter_map (\<lambda>_. pruneRestart touched) (all_restarts i))"
    by (simp add: t map_of_SomeD)
  with wf show ?thesis
    by (auto simp: in_mfilter_map wf_map_get pruneRestart_def split: if_splits)
qed

lemma tracked_restart_origin:
  assumes "mget (tracked_restarts i) k = Some e"
  shows "restart_entry_ok i (restarts_now i) k e \<or>
    (\<exists>st. mget (toggles_of i) k = Some st \<and> e = st)"
  using assms mall_get [OF section_restarts_origin, of i k]
  by (auto simp: tracked_restarts_get restart_entry_ok_def split: option.splits)

lemma planned_restart_origin:
  assumes "mget (b_restarts (compute_builder i)) k = Some r"
  shows "restart_entry_ok i (restarts_now i) k r \<or>
    (\<exists>st. mget (toggles_of i) k = Some st \<and> rs_action r = rs_action st \<and> rs_sections r = []) \<or>
    (\<exists>it \<in> set (c_Restarts (in_Carry i)). rs_service it = k \<and> rs_action r = rs_action it \<and>
       rs_sections r = rs_sections it)"
proof -
  obtain r0 where r0: "mget (all_restarts i) k = Some r0" "rs_action r = rs_action r0"
    "rs_sections r = rs_sections r0" using host_restart_origin [OF assms] by blast
  from restart_entry.carryItems_origin [OF r0(1) [unfolded all_restarts_def]] show ?thesis
  proof
    assume "\<exists>e0 rs. mget (tracked_restarts i) k = Some e0 \<and> r0 = set_rs_reasons rs e0"
    then obtain e0 rs where "mget (tracked_restarts i) k = Some e0" "r0 = set_rs_reasons rs e0"
      by blast
    with r0 tracked_restart_origin [OF this(1)] show ?thesis
      by (auto simp: restart_entry_ok_def set_rs_reasons_def toggles_of_def serviceToggles_get
          toggle_def split: if_splits)
  next
    assume "\<exists>it \<in> set (c_Restarts (in_Carry i)). rs_service it = k \<and> (\<exists>rs. r0 = set_rs_reasons rs it)"
    with r0 show ?thesis by (auto simp: set_rs_reasons_def)
  qed
qed

end
