(* ===== verification/Plan_Examples.thy ===== *)
theory Plan_Examples
  imports Plan_Restarts
begin

text \<open>
  Concrete inputs of \<open>Compute\<close>, on which the properties of the planner are evaluated.
\<close>

section \<open>A concrete input\<close>

text \<open>
  One section with a changed variable, on a host with two tracked services. The witnesses vary this
  input.
\<close>

definition ex_section :: MtaConfigSection where
  "ex_section = (empty_section ''mta'')
     \<lparr>sec_required := [(''networks'', TypeVar)], sec_restarts := [(''MTA'', True)],
      sec_rewrites := [(''a.in'', \<lparr>rwe_value = ''a.out'', rwe_mode = ''0644''\<rparr>)],
      sec_postconf := [(''mynetworks'', ''10.0.0.0/8'')]\<rparr>"

definition ex_snapshot :: "string \<Rightarrow> SnapshotRef" where
  "ex_snapshot v = Some (zero_snapshot
     \<lparr>s_services := [(''mailbox'', ''TRUE''), (''mta'', ''TRUE'')],
      s_observed := [((TypeVar, ''networks''), v)]\<rparr>)"

definition ex_restart :: Restart where
  "ex_restart = \<lparr>rs_service = ''opendkim'', rs_action = ActionStop, rs_sections = [],
     rs_reasons = [mk_reason ReasonRetry]\<rparr>"

definition ex_input :: Input where
  "ex_input =
     \<lparr>in_Prev = ex_snapshot ''10'', in_Cur = ex_snapshot ''11'',
      in_Conf = Some \<lparr>mta_sections = [(''mta'', Some ex_section)]\<rparr>,
      in_Forced = [], in_Requested = [], in_FirstRun = False,
      in_Tracked = [(''mailbox'', ''running''), (''mta'', ''running'')],
      in_Carry = empty_carry, in_Scope = [], in_AssumeChanged = False, in_Host = None,
      in_Systemd = True\<rparr>"

text \<open>The plan of an input that the guard lets through.\<close>

definition plan_of :: "Input \<Rightarrow> Plan" where
  "plan_of i = projr (Compute i)"

lemma plan_ofI: "guardAllDisabled i = None \<Longrightarrow> Compute i = Inr (plan_of i)"
  by (simp add: plan_of_def Compute_def)

end
