(* ===== verification/Plan_Correct.thy ===== *)
theory Plan_Correct
  imports Plan_Examples
begin

text \<open>
  The shape of the plans \<open>Compute\<close> returns, and the services a plan may act on.
\<close>

section \<open>The shape of a plan\<close>

definition wf_plan :: "Plan \<Rightarrow> bool" where
  "wf_plan p \<longleftrightarrow>
     sorted_wrt (<) (map (\<lambda>m. (mf_key m, mf_local m)) (pl_Mapfiles p)) \<and>
     sorted_wrt (<) (map mf_key (pl_Heal p)) \<and>
     sorted_wrt (<) (map rw_source (pl_Rewrites p)) \<and>
     sorted_wrt (<) (map pc_key (pl_Postconf p)) \<and>
     sorted_wrt (<) (map pd_key (pl_Postconfd p)) \<and>
     sorted_wrt (<) (map ld_key (pl_Ldap p)) \<and>
     sorted_wrt (<) (map rs_service (pl_Restarts p)) \<and>
     sorted_wrt (<) (map rs_service (pl_Deferred p)) \<and>
     (\<forall>h \<in> set (pl_Heal p). \<not> mf_local h \<and>
        (\<forall>m \<in> set (pl_Mapfiles p). mf_local m \<or> mf_key m \<noteq> mf_key h)) \<and>
     list_all (\<lambda>s. sn_reasons s \<noteq> []) (pl_Sections p) \<and>
     list_all (\<lambda>m. mf_reasons m \<noteq> []) (pl_Mapfiles p @ pl_Heal p) \<and>
     list_all (\<lambda>r. rw_reasons r \<noteq> []) (pl_Rewrites p) \<and>
     list_all (\<lambda>r. pc_reasons r \<noteq> []) (pl_Postconf p) \<and>
     list_all (\<lambda>r. pd_reasons r \<noteq> []) (pl_Postconfd p) \<and>
     list_all (\<lambda>r. ld_reasons r \<noteq> []) (pl_Ldap p) \<and>
     list_all (\<lambda>r. rs_reasons r \<noteq> []) (pl_Restarts p @ pl_Deferred p) \<and>
     (\<forall>g. pl_Proxygen p = Some g \<longrightarrow> pg_reasons g \<noteq> [])"

lemma heal_values:
  assumes "entries_ok mf_key mf_reasons m" "mall (\<lambda>_ e. \<not> mf_local e) m"
  shows "sorted_wrt (<) (map mf_key (mvals (filter P m)))"
    and "h \<in> set (mvals (filter P m)) \<Longrightarrow> P (mf_key h, h) \<and> \<not> mf_local h \<and> mf_reasons h \<noteq> []"
proof -
  from assms(1) have ok: "entries_ok mf_key mf_reasons (filter P m)"
    unfolding entries_ok_def wf_map_def
    by (auto simp: mall_filter sorted_wrt_map intro: sorted_wrt_filterI)
  then show "sorted_wrt (<) (map mf_key (mvals (filter P m)))"
    unfolding entries_ok_values_sorted [OF ok] by (simp add: entries_ok_def wf_map_def)
  show "h \<in> set (mvals (filter P m)) \<Longrightarrow> P (mf_key h, h) \<and> \<not> mf_local h \<and> mf_reasons h \<noteq> []"
    using assms by (auto simp: entries_ok_def mall_def)
qed

lemma finish_mapfile_key:
  assumes "entries_ok (\<lambda>m. (mf_key m, mf_local m)) mf_reasons (b_mapfiles b)"
    "m \<in> set (collectSorted (\<lambda>m. (mf_key m, mf_local m)) (b_mapfiles b))" "\<not> mf_local m"
  shows "hasMapfile b (mf_key m)"
  using assms by (force simp: in_collectSorted hasMapfile_def dest!: mget_keys)

lemma classify_services: "map rs_service (map (classify_restart sd) rs) = map rs_service rs"
  by simp

lemma finish_heal:
  assumes "builder_ok b"
  shows "sorted_wrt (<) (map mf_key (pl_Heal (finish i b)))"
    and "h \<in> set (pl_Heal (finish i b)) \<Longrightarrow>
      \<not> mf_local h \<and> mf_reasons h \<noteq> [] \<and> \<not> hasMapfile b (mf_key h)"
proof -
  from assms have ok: "entries_ok mf_key mf_reasons (b_heal b)"
    "mall (\<lambda>_ e. \<not> mf_local e) (b_heal b)"
    by (simp_all add: builder_ok_def)
  show "sorted_wrt (<) (map mf_key (pl_Heal (finish i b)))"
    unfolding finish_def by (simp add: heal_values(1) [OF ok] del: map_map)
  show "h \<in> set (pl_Heal (finish i b)) \<Longrightarrow>
      \<not> mf_local h \<and> mf_reasons h \<noteq> [] \<and> \<not> hasMapfile b (mf_key h)"
    unfolding finish_def using heal_values(2) [OF ok, where h = h and P = "\<lambda>(key, _). \<not> hasMapfile b key"]
    by simp
qed

lemma finish_wf:
  assumes "builder_ok b"
  shows "wf_plan (finish i b)"
proof -
  note ok = assms [unfolded builder_ok_def]
  have disjoint: "mf_local m \<or> mf_key m \<noteq> mf_key h"
    if "h \<in> set (pl_Heal (finish i b))" "m \<in> set (pl_Mapfiles (finish i b))" for h m
    using finish_heal(2) [OF assms that(1)] finish_mapfile_key [of b m] ok that(2)
    by (auto simp: finish_def)
  have sorted: "sorted_wrt (<) (map (\<lambda>m. (mf_key m, mf_local m)) (pl_Mapfiles (finish i b)))"
    "sorted_wrt (<) (map rw_source (pl_Rewrites (finish i b)))"
    "sorted_wrt (<) (map pc_key (pl_Postconf (finish i b)))"
    "sorted_wrt (<) (map pd_key (pl_Postconfd (finish i b)))"
    "sorted_wrt (<) (map ld_key (pl_Ldap (finish i b)))"
    "sorted_wrt (<) (map rs_service (pl_Restarts (finish i b)))"
    "sorted_wrt (<) (map rs_service (pl_Deferred (finish i b)))"
    using ok
    by (simp_all add: finish_def classify_services collectSorted_strict [where reasons = mf_reasons]
        collectSorted_strict [where reasons = rw_reasons] collectSorted_strict [where reasons = pc_reasons]
        collectSorted_strict [where reasons = pd_reasons] collectSorted_strict [where reasons = ld_reasons]
        collectSorted_strict [where reasons = rs_reasons] del: map_map)
  have reasons: "list_all (\<lambda>m. mf_reasons m \<noteq> []) (pl_Mapfiles (finish i b))"
    "list_all (\<lambda>r. rw_reasons r \<noteq> []) (pl_Rewrites (finish i b))"
    "list_all (\<lambda>r. pc_reasons r \<noteq> []) (pl_Postconf (finish i b))"
    "list_all (\<lambda>r. pd_reasons r \<noteq> []) (pl_Postconfd (finish i b))"
    "list_all (\<lambda>r. ld_reasons r \<noteq> []) (pl_Ldap (finish i b))"
    "list_all (\<lambda>r. rs_reasons r \<noteq> []) (pl_Restarts (finish i b))"
    "list_all (\<lambda>r. rs_reasons r \<noteq> []) (pl_Deferred (finish i b))"
    using ok by (auto simp: finish_def list_all_iff dest: collectSorted_reasons)
  from ok have rest: "\<forall>g. pl_Proxygen (finish i b) = Some g \<longrightarrow> pg_reasons g \<noteq> []"
    "list_all (\<lambda>s. sn_reasons s \<noteq> []) (pl_Sections (finish i b))"
    by (simp_all add: finish_def list_all_iff)
  have heal: "\<forall>h \<in> set (pl_Heal (finish i b)). \<not> mf_local h \<and>
      (\<forall>m \<in> set (pl_Mapfiles (finish i b)). mf_local m \<or> mf_key m \<noteq> mf_key h)"
    "list_all (\<lambda>m. mf_reasons m \<noteq> []) (pl_Heal (finish i b))"
    using finish_heal(2) [OF assms] disjoint by (auto simp: list_all_iff)
  with finish_heal(1) [OF assms] sorted reasons rest show ?thesis
    unfolding wf_plan_def by simp
qed



section \<open>Restarts\<close>

lemma planned_restart:
  assumes "Compute i = Inr p" "r \<in> set (pl_Restarts p)"
  obtains r0 where "mget (b_restarts (compute_builder i)) (rs_service r) = Some r0"
    "r = classify_restart (in_Systemd i) r0"
  using assms by (auto simp: plan_restart)

text \<open>C5: A section that is only being rewritten on request restarts nothing now: whenever a planned
  restart names a forced or requested section, that section comes from a restart the previous
  execution did not complete (the carry), not from this cycle.\<close>

theorem requested_section_restarts_nothing:
  assumes "Compute i = Inr p" "r \<in> set (pl_Restarts p)" "sn \<in> set (rs_sections r)"
    "forced i sn \<or> requested i sn"
  shows "\<exists>it \<in> set (c_Restarts (in_Carry i)). rs_service it = rs_service r \<and> sn \<in> set (rs_sections it)"
proof -
  obtain r0 where r0: "mget (b_restarts (compute_builder i)) (rs_service r) = Some r0"
    "r = classify_restart (in_Systemd i) r0" using planned_restart [OF assms(1,2)] .
  from planned_restart_origin [OF r0(1)] assms(3,4) r0(2) show ?thesis
    by (auto simp: restart_entry_ok_def restarts_now_def)
qed

definition ex_retry :: Input where
  "ex_retry = ex_input\<lparr>in_Requested := [''mta''],
     in_Carry := empty_carry\<lparr>c_Restarts := [ex_restart\<lparr>rs_sections := [''mta'']\<rparr>]\<rparr>\<rparr>"

lemma ex_retry_restarts:
  "map (\<lambda>r. (rs_service r, rs_sections r)) (pl_Restarts (plan_of ex_retry)) =
     [(''opendkim'', [''mta''])]"
  by code_simp

theorem requested_section_restarts_nothing_witness:
  "Compute ex_retry = Inr (plan_of ex_retry) \<and> requested ex_retry ''mta'' \<and>
   (\<exists>r \<in> set (pl_Restarts (plan_of ex_retry)). ''mta'' \<in> set (rs_sections r) \<and>
     (\<exists>it \<in> set (c_Restarts (in_Carry ex_retry)).
        rs_service it = rs_service r \<and> ''mta'' \<in> set (rs_sections it)))"
proof -
  have 1: "Compute ex_retry = Inr (plan_of ex_retry)" by (rule plan_ofI) code_simp
  have 2: "requested ex_retry ''mta''" by code_simp
  from ex_retry_restarts obtain r
    where "r \<in> set (pl_Restarts (plan_of ex_retry))" "''mta'' \<in> set (rs_sections r)" by auto
  with requested_section_restarts_nothing [OF 1 this disjI2 [OF 2]] 1 2 show ?thesis by blast
qed


definition ex_stop :: Input where
  "ex_stop = ex_input\<lparr>in_Tracked := [(''mta'', ''running''), (''proxy'', ''running'')]\<rparr>"

lemma ex_stop_restarts:
  "map (\<lambda>r. (rs_service r, rs_action r)) (pl_Restarts (plan_of ex_stop)) =
     [(''mailbox'', ActionStart), (''mta'', ActionRestart), (''proxy'', ActionStop)]"
  by code_simp




end
