(* ===== verification/Plan_Change.thy ===== *)
theory Plan_Change
  imports Plan_Examples
begin

text \<open>
  What a plan reacts to: the sections it processes are exactly those with a reason, a changed
  variable always reaches the services that depend on it, and without a change there is no plan.
\<close>

section \<open>Differences\<close>

text \<open>The value a lookup of a section has in a snapshot.\<close>

definition seen :: "SnapshotRef \<Rightarrow> string \<times> string \<Rightarrow> string" where
  "seen s kv = observed_or_empty s (snd kv) (trim_prefix (fst kv) ''!'')"

lemma diffVar_iff: "diffVar i sn kv \<noteq> [] \<longleftrightarrow> seen (in_Prev i) kv \<noteq> seen (in_Cur i) kv"
  by (auto simp: diffVar_def seen_def Let_def split: prod.split)

lemma diffVar_set:
  "set (diffVar i sn kv) =
     (if seen (in_Prev i) kv \<noteq> seen (in_Cur i) kv
      then {varChanged sn (snd kv) (trim_prefix (fst kv) ''!'') (seen (in_Prev i) kv) (seen (in_Cur i) kv)}
      else {})"
  by (cases kv) (auto simp: diffVar_def seen_def Let_def)

lemma diffSection_iff:
  "diffSection i sn sec \<noteq> [] \<longleftrightarrow> (\<exists>kv \<in> set (sec_required sec). seen (in_Prev i) kv \<noteq> seen (in_Cur i) kv)"
  by (auto simp: diffSection_def diffVar_iff)

lemma diffSection_in:
  assumes "kv \<in> set (sec_required sec)" "seen (in_Prev i) kv \<noteq> seen (in_Cur i) kv"
  shows "varChanged sn (snd kv) (trim_prefix (fst kv) ''!'') (seen (in_Prev i) kv) (seen (in_Cur i) kv)
    \<in> set (diffSection i sn sec)"
  using assms diffVar_set [of i sn kv] by (auto simp: diffSection_def)

lemma diffSection_kind: "d \<in> set (diffSection i sn sec) \<Longrightarrow> r_kind d = ReasonVarChanged"
  by (auto simp: diffSection_def diffVar_set varChanged_def mk_reason_def split: if_splits)

lemma reasons_nonempty:
  "reasons_of i sn sec \<noteq> [] \<longleftrightarrow>
     forced i sn \<or> requested i sn \<or> in_FirstRun i \<or> in_AssumeChanged i \<or> changes_of i sn sec \<noteq> []"
  by (auto simp: reasons_of_def sectionReasons_def)

lemma changes_in_reasons: "\<not> in_FirstRun i \<Longrightarrow> set (changes_of i sn sec) \<subseteq> set (reasons_of i sn sec)"
  by (auto simp: reasons_of_def sectionReasons_def)

section \<open>The sections of a plan\<close>

lemma processSections_sections:
  "b_sections (processSections i (newBuilder i)) =
     concat (map (\<lambda>(sn, s). case s of
         Some sec \<Rightarrow> if processed i sn sec then [\<lparr>sn_name = sn, sn_reasons = reasons_of i sn sec\<rparr>] else []
       | None \<Rightarrow> []) (conf_sections i))" (is "_ = concat (map ?f _)")
proof -
  have step: "b_sections (processSection i e b) = b_sections b @ ?f e" for e b
    by (cases e; cases "snd e") (auto simp: processSection_sections)
  have "b_sections (fold (processSection i) es b) = b_sections b @ concat (map ?f es)" for es b
    by (induction es arbitrary: b) (simp_all add: step)
  then show ?thesis by (simp add: processSections_fold newBuilder_def)
qed

lemma plan_sections:
  assumes "Compute i = Inr p" "in_Host i = None"
  shows "pl_Sections p = b_sections (processSections i (newBuilder i))"
  using assms(2)
  by (simp add: Compute_plan [OF assms(1)] finish_def compute_builder_def mergeCarry_def Let_def)

lemma planned_section:
  assumes "Compute i = Inr p" "in_Host i = None"
  shows "sn \<in> sn_name ` set (pl_Sections p) \<longleftrightarrow>
    (\<exists>sec. (sn, Some sec) \<in> set (conf_sections i) \<and> processed i sn sec)"
  by (force simp: plan_sections [OF assms] processSections_sections split: option.splits if_splits)

text \<open>C7: A plan processes exactly the sections that have a reason to be processed: the section is in
  scope, its service is enabled, and it is forced or requested, or the cycle is a first run or an
  evaluation, or (where variables are compared) a lookup the section declares has a different value
  than in the previous snapshot.\<close>

theorem plan_sections_exact:
  assumes "Compute i = Inr p" "in_Host i = None"
  shows "sn \<in> sn_name ` set (pl_Sections p) \<longleftrightarrow>
    (\<exists>sec. (sn, Some sec) \<in> set (conf_sections i) \<and> inScope i sn \<and>
       SectionEnabled sn (ServiceEnabled (in_Cur i)) \<and>
       (forced i sn \<or> requested i sn \<or> in_FirstRun i \<or> in_AssumeChanged i \<or>
        compared i sn \<and> (\<exists>kv \<in> set (sec_required sec). seen (in_Prev i) kv \<noteq> seen (in_Cur i) kv)))"
proof -
  have "sn \<in> sn_name ` set (pl_Sections p) \<longleftrightarrow>
    (\<exists>sec. (sn, Some sec) \<in> set (conf_sections i) \<and> processed i sn sec)"
    by (rule planned_section [OF assms])
  moreover have "changes_of i sn sec \<noteq> [] \<longleftrightarrow>
      compared i sn \<and> (\<exists>kv \<in> set (sec_required sec). seen (in_Prev i) kv \<noteq> seen (in_Cur i) kv)" for sec
    using diffSection_iff [of i sn sec] by (simp add: changes_of_def)
  ultimately show ?thesis by (auto simp: processed_def considered_def reasons_nonempty)
qed

theorem plan_sections_exact_witness:
  "Compute ex_input = Inr (plan_of ex_input) \<and> in_Host ex_input = None \<and>
   ''mta'' \<in> sn_name ` set (pl_Sections (plan_of ex_input)) \<and>
   ''proxy'' \<notin> sn_name ` set (pl_Sections (plan_of ex_input))"
proof -
  have 1: "Compute ex_input = Inr (plan_of ex_input)" by (rule plan_ofI) code_simp
  have 2: "in_Host ex_input = None" by (simp add: ex_input_def)
  have 3: "conf_sections ex_input = [(''mta'', Some ex_section)]"
    by (simp add: conf_sections_def ex_input_def)
  have 4: "inScope ex_input ''mta''" "SectionEnabled ''mta'' (ServiceEnabled (in_Cur ex_input))"
    "compared ex_input ''mta''" by code_simp+
  have 5: "\<exists>kv \<in> set (sec_required ex_section). seen (in_Prev ex_input) kv \<noteq> seen (in_Cur ex_input) kv"
    by code_simp
  show ?thesis
    using 1 2 4 5 by (simp add: plan_sections_exact [OF 1 2] 3)
qed

section \<open>A change is never lost\<close>

lemma changed_service_planned:
  assumes "Compute i = Inr p" "in_Host i = None" "\<not> in_FirstRun i"
    and sec: "(sn, Some sec) \<in> set (conf_sections i)" "considered i sn (Some sec)" "compared i sn"
    and kv: "kv \<in> set (sec_required sec)" "seen (in_Prev i) kv \<noteq> seen (in_Cur i) kv"
    and svc: "svc \<in> fst ` set (sec_restarts sec)"
      "to_lower svc = ''archiving'' \<Longrightarrow> ServiceEnabled (in_Cur i) ''archiving''"
  shows "\<exists>r \<in> set (if forced i sn \<or> requested i sn then pl_Deferred p else pl_Restarts p).
    rs_service r = to_lower svc \<and>
    varChanged sn (snd kv) (trim_prefix (fst kv) ''!'') (seen (in_Prev i) kv) (seen (in_Cur i) kv)
      \<in> set (rs_reasons r)" (is "\<exists>r \<in> _. _ \<and> ?d \<in> _")
proof -
  have d: "?d \<in> set (changes_of i sn sec)" using diffSection_in [OF kv] sec(3) by (simp add: changes_of_def)
  then have rs: "?d \<in> set (reasons_of i sn sec)" using changes_in_reasons [OF assms(3)] by blast
  then have proc: "processed i sn sec" using sec(2) by (auto simp: processed_def)
  have act: "restart_action i (to_lower svc) \<noteq> None" using svc(2) by (auto simp: restart_action_def)
  show ?thesis
  proof (cases "forced i sn \<or> requested i sn")
    case True
    have "?d \<in> set (varChanges (reasons_of i sn sec))"
      using rs d diffSection_kind [of ?d i sn sec]
      by (auto simp: varChanges_def changes_of_def split: if_splits)
    then have later: "restarts_later i sn sec" and "?d \<in> set (deferred_reasons i sn sec)"
      using True assms(3) by (auto simp: restarts_later_def deferred_reasons_def)
    with covers_deferred [OF assms(1), unfolded compute_builder_deferred [OF assms(2)],
        OF section_deferred_cover [OF sec(1) proc later svc(1) act]] True
    show ?thesis by auto
  next
    case False
    then have now: "restarts_now i sn" using assms(3) by (simp add: restarts_now_def)
    have "covers (b_restarts (compute_builder i)) (to_lower svc) (set (reasons_of i sn sec))"
      unfolding compute_builder_restarts [OF assms(2)]
      by (intro all_restarts_keeps tracked_restarts_keeps section_restarts_cover [OF sec(1) proc now svc(1) act])
    with covers_restart [OF assms(1) this] rs False show ?thesis by auto
  qed
qed

text \<open>C4: A changed variable reaches every service its section restarts. In a cycle that is not a
  first run, when a lookup of a compared section changed, the plan holds an entry for each restart of
  that section (except a disabled archiving service) which names the change: among the restarts of
  this cycle, or among the deferred ones when the section is being rewritten on request.\<close>

theorem change_reaches_services:
  assumes "Compute i = Inr p" "in_Host i = None" "\<not> in_FirstRun i"
    and sec: "(sn, Some sec) \<in> set (conf_sections i)" "considered i sn (Some sec)" "compared i sn"
    and kv: "kv \<in> set (sec_required sec)" "seen (in_Prev i) kv \<noteq> seen (in_Cur i) kv"
    and svc: "svc \<in> fst ` set (sec_restarts sec)"
      "to_lower svc = ''archiving'' \<Longrightarrow> ServiceEnabled (in_Cur i) ''archiving''"
  shows "\<exists>r \<in> set (if forced i sn \<or> requested i sn then pl_Deferred p else pl_Restarts p).
    rs_service r = to_lower svc \<and>
    varChanged sn (snd kv) (trim_prefix (fst kv) ''!'') (seen (in_Prev i) kv) (seen (in_Cur i) kv)
      \<in> set (rs_reasons r)"
  using assms by (rule changed_service_planned)

definition ex_request :: Input where
  "ex_request = ex_input\<lparr>in_Requested := [''mta'']\<rparr>"

theorem change_reaches_services_witness:
  "Compute ex_request = Inr (plan_of ex_request) \<and> requested ex_request ''mta'' \<and>
   (\<exists>r \<in> set (pl_Deferred (plan_of ex_request)). rs_service r = ''mta'' \<and>
     varChanged ''mta'' TypeVar ''networks'' ''10'' ''11'' \<in> set (rs_reasons r))"
proof -
  let ?kv = "(''networks'', TypeVar)"
  have 1: "Compute ex_request = Inr (plan_of ex_request)" by (rule plan_ofI) code_simp
  have 2: "in_Host ex_request = None" "\<not> in_FirstRun ex_request"
    by (simp_all add: ex_request_def ex_input_def)
  have 3: "(''mta'', Some ex_section) \<in> set (conf_sections ex_request)"
    by (simp add: conf_sections_def ex_input_def ex_request_def)
  have 4: "considered ex_request ''mta'' (Some ex_section)" "compared ex_request ''mta''"
    "?kv \<in> set (sec_required ex_section)" "''MTA'' \<in> fst ` set (sec_restarts ex_section)"
    "requested ex_request ''mta''" "to_lower ''MTA'' = ''mta''" "trim_prefix ''networks'' ''!'' = ''networks''"
    "seen (in_Prev ex_request) ?kv = ''10''" "seen (in_Cur ex_request) ?kv = ''11''" by code_simp+
  have "seen (in_Prev ex_request) ?kv \<noteq> seen (in_Cur ex_request) ?kv" by (simp add: 4)
  from change_reaches_services [OF 1 2 3 4(1,2,3) this 4(4)] 1 show ?thesis by (simp add: 4)
qed

section \<open>Quiet cycles\<close>

lemma quiet_builder:
  assumes "\<And>sn sec. (sn, Some sec) \<in> set (conf_sections i) \<Longrightarrow> \<not> processed i sn sec"
  shows "\<exists>heal. processSections i (newBuilder i) = (newBuilder i)\<lparr>b_heal := heal\<rparr>"
proof (rule processSections_inv [where P = "\<lambda>b. \<exists>heal. b = (newBuilder i)\<lparr>b_heal := heal\<rparr>"])
  show "\<exists>heal. newBuilder i = (newBuilder i)\<lparr>b_heal := heal\<rparr>" by (simp add: newBuilder_def)
  fix sn sec b
  assume "(sn, Some sec) \<in> set (conf_sections i)" and b: "\<exists>heal. b = (newBuilder i)\<lparr>b_heal := heal\<rparr>"
  with assms have "\<not> processed i sn sec" by blast
  with b show "\<exists>heal. processSection i (sn, Some sec) b = (newBuilder i)\<lparr>b_heal := heal\<rparr>"
    by (auto simp: processSection_Some processed_def healMapfiles_def)
qed

lemma no_toggles:
  assumes "fst ` set tr = {n. ServiceEnabled (in_Cur i) n}"
  shows "snd (serviceToggles i tr) = []"
proof -
  have "mget (snd (serviceToggles i tr)) svc = None" for svc
    using assms by (auto simp: serviceToggles_get)
  then show ?thesis by (metis map_of_eq_empty_iff)
qed

lemma quiet_plan:
  assumes "Compute i = Inr p" "in_Host i = None" "CarryIsEmpty (in_Carry i)"
    and "fst ` set (in_Tracked i) = {n. ServiceEnabled (in_Cur i) n}"
    and "\<And>sn sec. (sn, Some sec) \<in> set (conf_sections i) \<Longrightarrow> \<not> processed i sn sec"
  shows "IsEmpty p \<and> pl_Sections p = [] \<and> pl_Deferred p = []"
proof -
  obtain heal where b: "processSections i (newBuilder i) = (newBuilder i)\<lparr>b_heal := heal\<rparr>"
    using quiet_builder [OF assms(5)] by blast
  have "trackServices i (processSections i (newBuilder i)) =
      (newBuilder i)\<lparr>b_heal := heal, b_tracked := fst (serviceToggles i (in_Tracked i))\<rparr>"
    using no_toggles [OF assms(4)]
    unfolding b by (auto simp: trackServices_def newBuilder_def split: prod.split)
  with assms(2,3) show ?thesis
    by (simp add: Compute_plan [OF assms(1)] finish_def compute_builder_def mergeCarry_def Let_def
        newBuilder_def IsEmpty_def CarryIsEmpty_def carryItems_def mergeCarryProxygen_def
        collectSorted_def)
qed

text \<open>C11: A quiet cycle plans nothing. If no section is forced or requested, it is neither a first
  run nor an evaluation, nothing is retried, the tracked services are the enabled ones and every
  lookup of every section has the value it had before, the plan is empty: no file, no directive, no
  restart now or later.\<close>

theorem no_change_no_action:
  assumes "Compute i = Inr p" "in_Host i = None"
    and "in_Forced i = []" "in_Requested i = []" "\<not> in_FirstRun i" "\<not> in_AssumeChanged i"
    and "CarryIsEmpty (in_Carry i)" "fst ` set (in_Tracked i) = {n. ServiceEnabled (in_Cur i) n}"
    and "\<forall>sn sec. (sn, Some sec) \<in> set (conf_sections i) \<longrightarrow>
      (\<forall>kv \<in> set (sec_required sec). seen (in_Prev i) kv = seen (in_Cur i) kv)"
  shows "IsEmpty p \<and> pl_Sections p = [] \<and> pl_Deferred p = []"
proof (rule quiet_plan [OF assms(1,2,7,8)])
  fix sn sec
  assume "(sn, Some sec) \<in> set (conf_sections i)"
  with assms(9) have "changes_of i sn sec = []"
    using diffSection_iff [of i sn sec] by (auto simp: changes_of_def)
  with assms(3-6) show "\<not> processed i sn sec"
    by (simp add: processed_def reasons_nonempty forced_def requested_def)
qed

definition ex_quiet :: Input where
  "ex_quiet = ex_input\<lparr>in_Prev := ex_snapshot ''11''\<rparr>"

theorem no_change_no_action_witness:
  "Compute ex_quiet = Inr (plan_of ex_quiet) \<and> IsEmpty (plan_of ex_quiet)"
proof -
  have 1: "Compute ex_quiet = Inr (plan_of ex_quiet)" by (rule plan_ofI) code_simp
  have "{n. ServiceEnabled (ex_snapshot ''11'') n} = {''mailbox'', ''mta''}"
    by (auto simp: ex_snapshot_def ServiceEnabled_def)
  then have "IsEmpty (plan_of ex_quiet) \<and> pl_Sections (plan_of ex_quiet) = []
      \<and> pl_Deferred (plan_of ex_quiet) = []"
    by (intro no_change_no_action [OF 1])
      (simp_all add: ex_quiet_def ex_input_def CarryIsEmpty_def empty_carry_def)
  with 1 show ?thesis by blast
qed

section \<open>First run\<close>

text \<open>C12: The first run renders and restarts nothing. With nothing tracked and nothing to retry, the
  plan of a first run has neither restarts nor deferred restarts, and it starts tracking exactly the
  enabled services.\<close>

theorem first_run_restarts_nothing:
  assumes "Compute i = Inr p" "in_FirstRun i" "in_Tracked i = []" "c_Restarts (in_Carry i) = []"
    "in_Host i = None"
  shows "pl_Restarts p = [] \<and> pl_Deferred p = [] \<and>
    fst ` set (pl_Tracked p) = {n. ServiceEnabled (in_Cur i) n}"
proof -
  have "snd (serviceToggles i []) = []"
    using serviceToggles_get [of i "[]"] assms(2) by (metis empty_iff list.set(1) image_empty map_of_eq_empty_iff)
  then have "b_restarts (compute_builder i) = []"
    using no_section_restarts(1) [OF assms(2)] assms(3,4)
    by (simp add: compute_builder_restarts [OF assms(5)] all_restarts_def tracked_restarts_def
        carryItems_def)
  moreover have "b_deferred (compute_builder i) = []"
    by (simp add: compute_builder_deferred [OF assms(5)] no_section_restarts(2) [OF assms(2)])
  moreover have "b_tracked (compute_builder i) = fst (serviceToggles i [])"
    using assms(3,5) by (simp add: compute_builder_def mergeCarry_def Let_def)
  ultimately show ?thesis
    using serviceToggles_tracked [of i "[]"] assms(2)
    by (simp add: Compute_plan [OF assms(1)] finish_def collectSorted_def)
qed

definition ex_first :: Input where
  "ex_first = ex_input\<lparr>in_Prev := None, in_FirstRun := True, in_Tracked := []\<rparr>"

theorem first_run_restarts_nothing_witness:
  "Compute ex_first = Inr (plan_of ex_first) \<and> in_FirstRun ex_first \<and>
   pl_Restarts (plan_of ex_first) = [] \<and>
   fst ` set (pl_Tracked (plan_of ex_first)) = {n. ServiceEnabled (in_Cur ex_first) n}"
proof -
  have 1: "Compute ex_first = Inr (plan_of ex_first)" by (rule plan_ofI) code_simp
  have 2: "in_FirstRun ex_first" "in_Tracked ex_first = []" "c_Restarts (in_Carry ex_first) = []"
    "in_Host ex_first = None" by (simp_all add: ex_first_def ex_input_def empty_carry_def)
  from first_run_restarts_nothing [OF 1 2] 1 2 show ?thesis by blast
qed

section \<open>Heavy services\<close>

text \<open>C14: Under systemd a plan never restarts a heavy service (mailbox, database, LDAP) by itself:
  neither list of restarts has the action restart for one; such a restart is left pending for the
  operator.\<close>

theorem heavy_services_left_pending:
  assumes "Compute i = Inr p" "in_Systemd i" "r \<in> set (pl_Restarts p) \<union> set (pl_Deferred p)"
    "HeavyService (rs_service r)"
  shows "rs_action r \<noteq> ActionRestart"
  using assms(2-)
  by (auto simp: plan_restart [OF assms(1)] plan_deferred [OF assms(1)] Classify_def split: if_splits)

definition ex_heavy :: Input where
  "ex_heavy = ex_input\<lparr>in_Conf := Some \<lparr>mta_sections =
     [(''mta'', Some (ex_section\<lparr>sec_restarts := [(''mailbox'', True)]\<rparr>))]\<rparr>\<rparr>"

lemma ex_heavy_restarts: "map rs_service (pl_Restarts (plan_of ex_heavy)) = [''mailbox'']"
  by code_simp

theorem heavy_services_left_pending_witness:
  "Compute ex_heavy = Inr (plan_of ex_heavy) \<and> in_Systemd ex_heavy \<and> HeavyService ''mailbox'' \<and>
   (\<exists>r \<in> set (pl_Restarts (plan_of ex_heavy)). rs_service r = ''mailbox'' \<and> rs_action r \<noteq> ActionRestart)"
proof -
  have 1: "Compute ex_heavy = Inr (plan_of ex_heavy)" by (rule plan_ofI) code_simp
  have 2: "in_Systemd ex_heavy" by (simp add: ex_heavy_def ex_input_def)
  have 3: "HeavyService ''mailbox''" by code_simp
  from map_eq_in [OF ex_heavy_restarts, of "''mailbox''"] obtain r
    where r: "r \<in> set (pl_Restarts (plan_of ex_heavy))" "rs_service r = ''mailbox''" by auto
  from heavy_services_left_pending [OF 1 2, of r] 1 2 3 r show ?thesis by auto
qed

section \<open>Service tracking\<close>

text \<open>C15: After the first run the tracked services are fixed, so the comparison with the enabled
  ones repeats: for every service the two sets differ in, the plan has an entry naming the change
  (a tracked service that is disabled, an enabled service that is not tracked), and a later plan
  with the tracking map this one leaves finds the same services untracked.\<close>

theorem toggles_repeat:
  assumes "Compute i = Inr p" "\<not> in_FirstRun i" "in_Host i = None"
    "mhas (in_Tracked i) svc \<noteq> ServiceEnabled (in_Cur i) svc"
  shows "pl_Tracked p = in_Tracked i \<and>
    (\<exists>r \<in> set (pl_Restarts p). rs_service r = svc \<and>
      service_reason (if ServiceEnabled (in_Cur i) svc then ReasonServiceEnabled
                      else ReasonServiceDisabled) svc \<in> set (rs_reasons r))"
proof
  have "b_tracked (compute_builder i) = in_Tracked i"
    using assms(2,3)
    by (simp add: compute_builder_def mergeCarry_def Let_def serviceToggles_def
        serviceToggle_fold_tracked)
  then show "pl_Tracked p = in_Tracked i" by (simp add: Compute_plan [OF assms(1)] finish_def)
  let ?rs = "{service_reason (if ServiceEnabled (in_Cur i) svc then ReasonServiceEnabled
                      else ReasonServiceDisabled) svc}"
  have "covers (tracked_restarts i) svc ?rs"
    using assms(2,4)
    by (auto simp: covers_def tracked_restarts_get toggles_of_def serviceToggles_get toggle_def
        appendReasons_def split: option.split)
  then have "covers (b_restarts (compute_builder i)) svc ?rs"
    unfolding compute_builder_restarts [OF assms(3)] by (rule all_restarts_keeps)
  from covers_restart [OF assms(1) this]
  show "\<exists>r \<in> set (pl_Restarts p). rs_service r = svc \<and>
      service_reason (if ServiceEnabled (in_Cur i) svc then ReasonServiceEnabled
                      else ReasonServiceDisabled) svc \<in> set (rs_reasons r)" by auto
qed

definition ex_late :: Input where
  "ex_late = ex_input\<lparr>in_Tracked := [(''mta'', ''running'')]\<rparr>"

theorem toggles_repeat_witness:
  "Compute ex_late = Inr (plan_of ex_late) \<and> pl_Tracked (plan_of ex_late) = [(''mta'', ''running'')] \<and>
   (\<exists>r \<in> set (pl_Restarts (plan_of ex_late)). rs_service r = ''mailbox'' \<and>
     service_reason ReasonServiceEnabled ''mailbox'' \<in> set (rs_reasons r))"
proof -
  have 1: "Compute ex_late = Inr (plan_of ex_late)" by (rule plan_ofI) code_simp
  have 2: "\<not> in_FirstRun ex_late" "in_Host ex_late = None" "in_Tracked ex_late = [(''mta'', ''running'')]"
    by (simp_all add: ex_late_def ex_input_def)
  have 3: "ServiceEnabled (in_Cur ex_late) ''mailbox''" by code_simp
  from toggles_repeat [OF 1 2(1,2), of "''mailbox''"] 1 show ?thesis by (simp add: 2 3)
qed

end
