(* ===== verification/Plan_Carry.thy ===== *)
theory Plan_Carry
  imports Plan_Examples
begin

text \<open>
  The last two stages of \<open>Compute\<close>: what the previous execution did not complete is planned again,
  without ever replacing what this cycle computed; and a comparison with the host keeps exactly the
  entries the host differs in.
\<close>

section \<open>The stages before do not depend on the carry or the host\<close>

lemma input_frame [simp]:
  "forced (i\<lparr>in_Carry := c\<rparr>) = forced i" "forced (i\<lparr>in_Host := h\<rparr>) = forced i"
  "requested (i\<lparr>in_Carry := c\<rparr>) = requested i" "requested (i\<lparr>in_Host := h\<rparr>) = requested i"
  "inScope (i\<lparr>in_Carry := c\<rparr>) = inScope i" "inScope (i\<lparr>in_Host := h\<rparr>) = inScope i"
  "diffVar (i\<lparr>in_Carry := c\<rparr>) = diffVar i" "diffVar (i\<lparr>in_Host := h\<rparr>) = diffVar i"
  "conditionHolds (i\<lparr>in_Carry := c\<rparr>) = conditionHolds i" "conditionHolds (i\<lparr>in_Host := h\<rparr>) = conditionHolds i"
  "compileSectionRestart (i\<lparr>in_Carry := c\<rparr>) = compileSectionRestart i" "compileSectionRestart (i\<lparr>in_Host := h\<rparr>) = compileSectionRestart i"
  "newBuilder (i\<lparr>in_Carry := c\<rparr>) = newBuilder i" "newBuilder (i\<lparr>in_Host := h\<rparr>) = newBuilder i"
  "guardAllDisabled (i\<lparr>in_Carry := c\<rparr>) = guardAllDisabled i" "guardAllDisabled (i\<lparr>in_Host := h\<rparr>) = guardAllDisabled i"
  "conf_sections (i\<lparr>in_Carry := c\<rparr>) = conf_sections i" "conf_sections (i\<lparr>in_Host := h\<rparr>) = conf_sections i"
  "stopToggles (i\<lparr>in_Carry := c\<rparr>) = stopToggles i" "stopToggles (i\<lparr>in_Host := h\<rparr>) = stopToggles i"
  "serviceToggle (i\<lparr>in_Carry := c\<rparr>) = serviceToggle i" "serviceToggle (i\<lparr>in_Host := h\<rparr>) = serviceToggle i"
  by (simp_all add: fun_eq_iff forced_def requested_def inScope_def diffVar_def
      conditionHolds_def compileSectionRestart_def newBuilder_def guardAllDisabled_def conf_sections_def
      stopToggles_def serviceToggle_def Let_def)

lemma section_frame [simp]:
  "compared (i\<lparr>in_Carry := c\<rparr>) = compared i" "compared (i\<lparr>in_Host := h\<rparr>) = compared i"
  "considered (i\<lparr>in_Carry := c\<rparr>) = considered i" "considered (i\<lparr>in_Host := h\<rparr>) = considered i"
  "diffSection (i\<lparr>in_Carry := c\<rparr>) = diffSection i" "diffSection (i\<lparr>in_Host := h\<rparr>) = diffSection i"
  "compileConditional (i\<lparr>in_Carry := c\<rparr>) = compileConditional i" "compileConditional (i\<lparr>in_Host := h\<rparr>) = compileConditional i"
  "compileSectionRestarts (i\<lparr>in_Carry := c\<rparr>) = compileSectionRestarts i" "compileSectionRestarts (i\<lparr>in_Host := h\<rparr>) = compileSectionRestarts i"
  "serviceToggles (i\<lparr>in_Carry := c\<rparr>) = serviceToggles i" "serviceToggles (i\<lparr>in_Host := h\<rparr>) = serviceToggles i"
  by (simp_all add: fun_eq_iff compared_def considered_def diffSection_def compileConditional_def
      compileSectionRestarts_def serviceToggles_def)

lemma reasons_frame [simp]:
  "changes_of (i\<lparr>in_Carry := c\<rparr>) = changes_of i" "changes_of (i\<lparr>in_Host := h\<rparr>) = changes_of i"
  "reasons_of (i\<lparr>in_Carry := c\<rparr>) = reasons_of i" "reasons_of (i\<lparr>in_Host := h\<rparr>) = reasons_of i"
  "compileRestarts (i\<lparr>in_Carry := c\<rparr>) = compileRestarts i" "compileRestarts (i\<lparr>in_Host := h\<rparr>) = compileRestarts i"
  "trackServices (i\<lparr>in_Carry := c\<rparr>) = trackServices i" "trackServices (i\<lparr>in_Host := h\<rparr>) = trackServices i"
  by (simp_all add: fun_eq_iff changes_of_def reasons_of_def sectionReasons_def compileRestarts_def
      trackServices_def Let_def)

lemma compile_frame [simp]:
  "compileSection (i\<lparr>in_Carry := c\<rparr>) = compileSection i" "compileSection (i\<lparr>in_Host := h\<rparr>) = compileSection i"
  by (simp_all add: fun_eq_iff compileSection_def Let_def)

lemma processSection_frame [simp]:
  "processSection (i\<lparr>in_Carry := c\<rparr>) = processSection i"
  "processSection (i\<lparr>in_Host := h\<rparr>) = processSection i"
  by (auto simp: fun_eq_iff processSection_def Let_def split: option.split)

lemma processSections_frame [simp]:
  "processSections (i\<lparr>in_Carry := c\<rparr>) = processSections i"
  "processSections (i\<lparr>in_Host := h\<rparr>) = processSections i"
  by (auto simp: fun_eq_iff processSections_def split: option.split)

section \<open>Retries\<close>

text \<open>The builder before the carry is merged.\<close>

definition fresh_builder :: "Input \<Rightarrow> builder" where
  "fresh_builder i = trackServices i (processSections i (newBuilder i))"

lemma fresh_builder_frame [simp]:
  "fresh_builder (i\<lparr>in_Carry := c\<rparr>) = fresh_builder i" "fresh_builder (i\<lparr>in_Host := h\<rparr>) = fresh_builder i"
  by (simp_all add: fresh_builder_def)

lemma fresh_builder_ok: "builder_ok (fresh_builder i)"
  by (simp add: fresh_builder_def trackServices_ok processSections_ok)

lemma carry_plan:
  assumes "Compute i = Inr p" "in_Host i = None"
  shows "p = finish i (mergeCarry i (fresh_builder i))"
  using assms(2) by (simp add: Compute_plan [OF assms(1)] compute_builder_def fresh_builder_def)

lemma no_carry_plan:
  assumes "Compute (i\<lparr>in_Carry := empty_carry\<rparr>) = Inr p" "in_Host i = None"
  shows "p = finish i (fresh_builder i)"
  using assms(2)
  by (simp add: carry_plan [OF assms(1)] mergeCarry_def Let_def empty_carry_def carryItems_def
      mergeCarryProxygen_def finish_def hasMapfile_def)

lemma carried_over_classify:
  assumes "carried_over rs_service set_rs_reasons items old new"
  shows "carried_over rs_service set_rs_reasons (map (classify_restart sd) items)
    (map (classify_restart sd) old) (map (classify_restart sd) new)"
proof -
  have comm: "classify_restart sd (set_rs_reasons rs r) = set_rs_reasons rs (classify_restart sd r)"
    for rs r by (simp add: classify_restart_def set_rs_reasons_def)
  have keys: "rs_service ` set (map (classify_restart sd) xs) = rs_service ` set xs" for xs
    by (auto simp: image_image)
  show ?thesis
    using assms unfolding carried_over_def keys by (fastforce simp: comm [symmetric] simp del: comm)
qed

text \<open>C8: A retry is complete and never overwrites fresh work. Compared with the plan the same cycle
  would have without the carry, every carried rewrite, directive, LDAP write and restart is planned
  again; what the cycle itself computed keeps its contents (only its reasons may grow); and a
  carried item gives its contents only where the cycle computed nothing. A carried proxy
  regeneration is planned again too.\<close>

theorem carry_is_merged:
  assumes "Compute i = Inr p" "Compute (i\<lparr>in_Carry := empty_carry\<rparr>) = Inr q" "in_Host i = None"
  shows "carried_over rw_source set_rw_reasons (c_Rewrites (in_Carry i)) (pl_Rewrites q) (pl_Rewrites p) \<and>
    carried_over pc_key set_pc_reasons (c_Postconf (in_Carry i)) (pl_Postconf q) (pl_Postconf p) \<and>
    carried_over pd_key set_pd_reasons (c_Postconfd (in_Carry i)) (pl_Postconfd q) (pl_Postconfd p) \<and>
    carried_over ld_key set_ld_reasons (c_Ldap (in_Carry i)) (pl_Ldap q) (pl_Ldap p) \<and>
    carried_over rs_service set_rs_reasons
      (map (classify_restart (in_Systemd i)) (c_Restarts (in_Carry i))) (pl_Restarts q) (pl_Restarts p) \<and>
    (pl_Proxygen p = None \<longleftrightarrow> pl_Proxygen q = None \<and> c_Proxygen (in_Carry i) = None)"
proof -
  note ok = fresh_builder_ok [of i, unfolded builder_ok_def]
  show ?thesis
    using ok unfolding carry_plan [OF assms(1,3)] no_carry_plan [OF assms(2,3)]
    by (simp add: finish_def mergeCarry_def Let_def rewrite_entry.carryItems_over
        postconf_entry.carryItems_over postconfd_entry.carryItems_over ldap_entry.carryItems_over
        carried_over_classify restart_entry.carryItems_over mergeCarryProxygen_def split: option.split)
qed

definition ex_carry :: Input where
  "ex_carry = ex_input\<lparr>in_Carry := empty_carry\<lparr>c_Restarts := [ex_restart],
     c_Postconf := [\<lparr>pc_key = ''mynetworks'', pc_value = ''old'', pc_sections = [], pc_reasons = []\<rparr>]\<rparr>\<rparr>"

theorem carry_is_merged_witness:
  "Compute ex_carry = Inr (plan_of ex_carry) \<and>
   carried_over pc_key set_pc_reasons (c_Postconf (in_Carry ex_carry))
     (pl_Postconf (plan_of ex_input)) (pl_Postconf (plan_of ex_carry))"
proof -
  have 1: "Compute ex_carry = Inr (plan_of ex_carry)" by (rule plan_ofI) code_simp
  have 2: "ex_carry\<lparr>in_Carry := empty_carry\<rparr> = ex_input" by (simp add: ex_carry_def ex_input_def)
  have 3: "Compute (ex_carry\<lparr>in_Carry := empty_carry\<rparr>) = Inr (plan_of ex_input)"
    unfolding 2 by (rule plan_ofI) code_simp
  have 4: "in_Host ex_carry = None" by (simp add: ex_carry_def ex_input_def)
  from carry_is_merged [OF 1 3 4] 1 show ?thesis by blast
qed

section \<open>Comparing with the host\<close>

text \<open>The entries of a list that drifted, with the drift as their only reason.\<close>

definition drifted ::
    "('e \<Rightarrow> string) \<Rightarrow> (Reason list \<Rightarrow> 'e \<Rightarrow> 'e) \<Rightarrow> 'e list \<Rightarrow> 'e list" where
  "drifted drift set_reasons es =
     map (\<lambda>e. set_reasons [drift_reason (drift e)] e) (filter (\<lambda>e. drift e \<noteq> []) es)"

lemma prune_entries_values:
  assumes "mall (\<lambda>k e. key e = k) m"
  shows "mvals (prune_entries drift set_reasons m) = drifted (drift \<circ> key) set_reasons (mvals m)"
  using assms
  by (induction m) (auto simp: prune_entries_def drifted_def mall_def)

lemma collect_prune:
  assumes "entries_ok key reasons m" "entries_ok key reasons (prune_entries drift set_reasons m)"
  shows "collectSorted key (prune_entries drift set_reasons m) =
    drifted (drift \<circ> key) set_reasons (collectSorted key m)"
  using assms(1)
  by (simp add: collectSorted_values [OF assms(1)] collectSorted_values [OF assms(2)]
      prune_entries_values entries_ok_def mall_mono [of "\<lambda>k e. key e = k \<and> reasons e \<noteq> []" m])

lemma host_fields:
  assumes "in_Host i = Some h"
  shows "b_rewrites (pruneToHost i b) = prune_entries (mget_str (h_Rewrites h)) set_rw_reasons (b_rewrites b)"
    "b_postconf (pruneToHost i b) = prune_entries (mget_str (h_Postconf h)) set_pc_reasons (b_postconf b)"
    "b_postconfd (pruneToHost i b) = prune_entries (mget_str (h_Postconfd h)) set_pd_reasons (b_postconfd b)"
    "b_ldap (pruneToHost i b) = prune_entries (mget_str (h_Ldap h)) set_ld_reasons (b_ldap b)"
    "b_heal (pruneToHost i b) = []" "b_deferred (pruneToHost i b) = []"
  by (simp_all add: pruneToHost_def assms pruneMapfiles_def pruneFiles_def pruneDirectives_def Let_def
      split: option.split prod.split)


definition ex_host :: Input where
  "ex_host = ex_input\<lparr>in_Host := Some \<lparr>h_Mapfiles = [], h_Rewrites = [(''a.in'', ''content differs'')],
     h_Postconf = [], h_Postconfd = [], h_Ldap = [], h_Proxygen = []\<rparr>\<rparr>"


end
