(* ===== verification/Plan_Deferred.thy ===== *)
theory Plan_Deferred
  imports Plan_Types
begin

text \<open>
  The merge of restart lists (\<open>deferred.go\<close>) as an operation on the map from a service to its
  restart, and the text of a plan (\<open>render.go\<close>): a merge loses nothing, and a rendered plan tells
  nothing about a secret.
\<close>

section \<open>Restart lists as maps\<close>

definition restart_of :: "Restart list \<Rightarrow> string \<Rightarrow> Restart option" where
  "restart_of rs svc = map_of (map (\<lambda>r. (rs_service r, r)) rs) svc"

text \<open>The abstract merge: the entry of a service absorbs another one and takes its action.\<close>

definition absorb :: "Restart option \<Rightarrow> Restart \<Rightarrow> Restart" where
  "absorb have r =
     (case have of
        None \<Rightarrow> r
      | Some h \<Rightarrow> h\<lparr>rs_action := rs_action r,
                     rs_sections := append_all_new (rs_sections h) (rs_sections r),
                     rs_reasons := append_all_new (rs_reasons h) (rs_reasons r)\<rparr>)"

lemma restart_of_Nil [simp]: "restart_of [] svc = None"
  by (simp add: restart_of_def)

lemma restart_of_Cons [simp]:
  "restart_of (r # rs) svc = (if rs_service r = svc then Some r else restart_of rs svc)"
  by (simp add: restart_of_def)

lemma foldl_appendUnique: "foldl appendUnique xs ys = append_all_new xs ys"
  by (induction ys arbitrary: xs) (simp_all add: appendUnique_def append_all_new_Cons)

lemma restart_of_service: "restart_of rs svc = Some r \<Longrightarrow> rs_service r = svc \<and> r \<in> set rs"
  by (induction rs) (auto split: if_splits)

lemma restart_of_in:
  "distinct (map rs_service rs) \<Longrightarrow> r \<in> set rs \<longleftrightarrow> restart_of rs (rs_service r) = Some r"
  by (induction rs) (auto dest: restart_of_service)

lemma restart_of_None: "restart_of rs svc = None \<longleftrightarrow> svc \<notin> rs_service ` set rs"
  by (induction rs) auto

lemma mergeRestart_get:
  "restart_of (mergeRestart rs r) svc =
     (if svc = rs_service r then Some (absorb (restart_of rs svc) r) else restart_of rs svc)"
  by (induction rs) (auto simp: absorb_def foldl_appendUnique appendReasons_def split: option.split)

lemma mergeRestart_services:
  "map rs_service (mergeRestart rs r) = append_new (map rs_service rs) (rs_service r)"
  by (induction rs) (auto simp: append_new_def)

lemma merge_services:
  "map rs_service (foldl mergeRestart rs new) = append_all_new (map rs_service rs) (map rs_service new)"
  by (induction new arbitrary: rs) (simp_all add: mergeRestart_services append_all_new_Cons)

text \<open>What a list of merges keeps of an entry.\<close>

definition holds_restart :: "Restart list \<Rightarrow> Restart \<Rightarrow> bool" where
  "holds_restart rs r \<longleftrightarrow> (\<exists>h. restart_of rs (rs_service r) = Some h \<and>
     set (rs_sections r) \<subseteq> set (rs_sections h) \<and> set (rs_reasons r) \<subseteq> set (rs_reasons h))"

lemma mergeRestart_holds: "holds_restart (mergeRestart rs r) r"
  by (auto simp: holds_restart_def mergeRestart_get absorb_def split: option.split)

lemma mergeRestart_keeps: "holds_restart rs r \<Longrightarrow> holds_restart (mergeRestart rs r') r"
  by (auto simp: holds_restart_def mergeRestart_get absorb_def split: option.split)

lemma merges_keep: "holds_restart rs r \<Longrightarrow> holds_restart (foldl mergeRestart rs new) r"
  by (induction new arbitrary: rs) (auto intro: mergeRestart_keeps)

lemma merges_hold: "r \<in> set new \<Longrightarrow> holds_restart (foldl mergeRestart rs new) r"
  by (induction new arbitrary: rs) (auto intro: mergeRestart_holds merges_keep)

text \<open>Every reason of a merged entry comes from an entry of the same service.\<close>

definition reasons_from :: "Restart set \<Rightarrow> Restart list \<Rightarrow> bool" where
  "reasons_from R rs \<longleftrightarrow>
     (\<forall>h \<in> set rs. \<forall>x \<in> set (rs_reasons h). \<exists>r \<in> R. rs_service r = rs_service h \<and> x \<in> set (rs_reasons r))"

lemma mergeRestart_from: "reasons_from R rs \<Longrightarrow> r \<in> R \<Longrightarrow> reasons_from R (mergeRestart rs r)"
  by (induction rs) (auto simp: reasons_from_def appendReasons_def)

lemma merges_from: "reasons_from R rs \<Longrightarrow> set new \<subseteq> R \<Longrightarrow> reasons_from R (foldl mergeRestart rs new)"
  by (induction new arbitrary: rs) (auto intro: mergeRestart_from)

lemma merges_action:
  assumes "distinct (map rs_service new)" "r \<in> set new"
  shows "map_option rs_action (restart_of (foldl mergeRestart rs new) (rs_service r)) = Some (rs_action r)"
  using assms
proof (induction new arbitrary: rs)
  case (Cons a new)
  have other: "restart_of (foldl mergeRestart rs' new) svc = restart_of rs' svc"
    if "svc \<notin> rs_service ` set new" for rs' svc
    using that by (induction new arbitrary: rs') (auto simp: mergeRestart_get)
  show ?case
    using Cons by (auto simp: other mergeRestart_get absorb_def split: option.split)
qed simp

section \<open>MergeRestarts\<close>

definition merged :: "Restart list \<Rightarrow> Restart list \<Rightarrow> Restart list" where
  "merged stale fresh = foldl mergeRestart (foldl mergeRestart [] stale) fresh"

lemma merged_distinct: "distinct (map rs_service (merged stale fresh))"
  by (simp add: merged_def merge_services)

lemma merged_services:
  "rs_service ` set (merged stale fresh) = rs_service ` (set stale \<union> set fresh)"
proof -
  have "set (map rs_service (merged stale fresh)) = set (map rs_service stale) \<union> set (map rs_service fresh)"
    unfolding merged_def merge_services by simp
  then show ?thesis by (simp add: image_Un)
qed

lemma MergeRestarts_merged:
  "set (MergeRestarts stale fresh sd) = classify_restart sd ` set (merged stale fresh)"
  by (simp add: MergeRestarts_def merged_def Let_def)

lemma MergeRestarts_sorted: "sorted_wrt (<) (map rs_service (MergeRestarts stale fresh sd))"
proof -
  have "map rs_service (MergeRestarts stale fresh sd) =
      map rs_service (sort_key rs_service (merged stale fresh))"
    by (simp add: MergeRestarts_def merged_def Let_def classify_restart_def comp_def)
  moreover have "distinct (map rs_service (sort_key rs_service (merged stale fresh)))"
    using merged_distinct [of stale fresh] by (simp add: distinct_map)
  ultimately show ?thesis by (simp add: strict_sorted_iff)
qed

lemma merged_entry:
  assumes "h \<in> set (merged stale fresh)"
  shows "(\<Union>r \<in> {r \<in> set stale \<union> set fresh. rs_service r = rs_service h}. set (rs_sections r))
      \<subseteq> set (rs_sections h)"
    and "set (rs_reasons h) =
      (\<Union>r \<in> {r \<in> set stale \<union> set fresh. rs_service r = rs_service h}. set (rs_reasons r))"
proof -
  have h: "restart_of (merged stale fresh) (rs_service h) = Some h"
    using assms unfolding restart_of_in [OF merged_distinct] .
  have keep: "set (rs_sections r) \<subseteq> set (rs_sections h) \<and> set (rs_reasons r) \<subseteq> set (rs_reasons h)"
    if "r \<in> set stale \<union> set fresh" "rs_service r = rs_service h" for r
  proof -
    have "holds_restart (merged stale fresh) r"
      using that(1) merges_hold merges_keep [OF merges_hold] unfolding merged_def by (elim UnE)
    with h show ?thesis unfolding holds_restart_def that(2) by simp
  qed
  then show "(\<Union>r \<in> {r \<in> set stale \<union> set fresh. rs_service r = rs_service h}. set (rs_sections r))
      \<subseteq> set (rs_sections h)" by blast
  have "reasons_from (set stale \<union> set fresh) (merged stale fresh)"
    unfolding merged_def by (intro merges_from) (auto simp: reasons_from_def)
  then have from_some: "\<exists>r \<in> set stale \<union> set fresh. rs_service r = rs_service h \<and> x \<in> set (rs_reasons r)"
    if "x \<in> set (rs_reasons h)" for x
    using assms that unfolding reasons_from_def by blast
  show "set (rs_reasons h) =
      (\<Union>r \<in> {r \<in> set stale \<union> set fresh. rs_service r = rs_service h}. set (rs_reasons r))"
  proof
    show "set (rs_reasons h) \<subseteq>
        (\<Union>r \<in> {r \<in> set stale \<union> set fresh. rs_service r = rs_service h}. set (rs_reasons r))"
      using from_some by blast
  qed (use keep in blast)
qed

text \<open>What a merge is used for: nothing of either list gets lost.\<close>

lemma merge_covers:
  assumes "r \<in> set stale \<union> set fresh"
  shows "\<exists>m \<in> set (MergeRestarts stale fresh sd). rs_service m = rs_service r \<and>
    set (rs_reasons r) \<subseteq> set (rs_reasons m)"
proof -
  from assms have "rs_service r \<in> rs_service ` set (merged stale fresh)" by (auto simp: merged_services)
  then obtain h where h: "h \<in> set (merged stale fresh)" "rs_service h = rs_service r" by auto
  from merged_entry(2) [OF h(1)] assms h(2) have "set (rs_reasons r) \<subseteq> set (rs_reasons h)" by auto
  moreover have "classify_restart sd h \<in> set (MergeRestarts stale fresh sd)"
    using h(1) by (simp add: MergeRestarts_merged)
  ultimately show ?thesis using h(2) by (intro bexI) (auto simp: classify_restart_def)
qed

text \<open>C37: Merging restart lists is lossless and orderly: the result has exactly one entry per service
  of the two lists, sorted by service; the entry of a service carries every section and every reason
  any entry of that service had, and no other reason.\<close>

theorem merge_restarts_lossless:
  "sorted_wrt (<) (map rs_service (MergeRestarts stale fresh sd)) \<and>
   rs_service ` set (MergeRestarts stale fresh sd) = rs_service ` (set stale \<union> set fresh) \<and>
   (\<forall>m \<in> set (MergeRestarts stale fresh sd).
      (\<Union>r \<in> {r \<in> set stale \<union> set fresh. rs_service r = rs_service m}. set (rs_sections r))
        \<subseteq> set (rs_sections m) \<and>
      set (rs_reasons m) =
        (\<Union>r \<in> {r \<in> set stale \<union> set fresh. rs_service r = rs_service m}. set (rs_reasons r)))"
proof (intro conjI MergeRestarts_sorted ballI)
  have "rs_service ` set (MergeRestarts stale fresh sd) = rs_service ` set (merged stale fresh)"
    by (simp add: MergeRestarts_merged image_image classify_restart_def)
  then show "rs_service ` set (MergeRestarts stale fresh sd) = rs_service ` (set stale \<union> set fresh)"
    unfolding merged_services .
  fix m
  assume "m \<in> set (MergeRestarts stale fresh sd)"
  then obtain h where h: "h \<in> set (merged stale fresh)" and m: "m = classify_restart sd h"
    unfolding MergeRestarts_merged by blast
  show "(\<Union>r \<in> {r \<in> set stale \<union> set fresh. rs_service r = rs_service m}. set (rs_sections r))
      \<subseteq> set (rs_sections m)"
    using merged_entry(1) [OF h] by (simp add: m classify_restart_def)
  show "set (rs_reasons m) =
      (\<Union>r \<in> {r \<in> set stale \<union> set fresh. rs_service r = rs_service m}. set (rs_reasons r))"
    using merged_entry(2) [OF h] by (simp add: m classify_restart_def)
qed

definition ex_mta_restart :: Restart where
  "ex_mta_restart = \<lparr>rs_service = ''mta'', rs_action = ActionRestart, rs_sections = [],
     rs_reasons = [varChanged ''mta'' ''VAR'' ''k'' ''1'' ''2'']\<rparr>"

theorem merge_restarts_lossless_witness:
  "let a = ex_mta_restart\<lparr>rs_sections := [''mta'']\<rparr>; b = ex_mta_restart\<lparr>rs_sections := [''sasl'']\<rparr> in
   \<exists>m. MergeRestarts [a] [b] False = [m] \<and> {''mta'', ''sasl''} \<subseteq> set (rs_sections m) \<and>
     set (rs_reasons m) = set (rs_reasons ex_mta_restart)"
proof -
  let ?a = "ex_mta_restart\<lparr>rs_sections := [''mta'']\<rparr>" and ?b = "ex_mta_restart\<lparr>rs_sections := [''sasl'']\<rparr>"
  have "map rs_service (MergeRestarts [?a] [?b] False) = [''mta'']" by code_simp
  then obtain m where m: "MergeRestarts [?a] [?b] False = [m]" "rs_service m = ''mta''"
    by (cases "MergeRestarts [?a] [?b] False") auto
  have group: "{r \<in> set [?a] \<union> set [?b]. rs_service r = rs_service m} = {?a, ?b}"
    by (auto simp: m ex_mta_restart_def)
  have "{''mta'', ''sasl''} \<subseteq> set (rs_sections m) \<and> set (rs_reasons m) = set (rs_reasons ex_mta_restart)"
    using merge_restarts_lossless [of "[?a]" "[?b]" False] unfolding m(1) by (simp add: group [simplified])
  with m(1) show ?thesis unfolding Let_def by blast
qed

text \<open>A merge is decided by the newer list: a service of the fresh list gets the action its fresh
  entry has (under the heavy-service rule), whatever the stale entry said.\<close>

theorem merge_restarts_fresh_action:
  assumes "distinct (map rs_service fresh)" "r \<in> set fresh"
  shows "\<exists>m \<in> set (MergeRestarts stale fresh sd). rs_service m = rs_service r \<and>
    rs_action m = Classify (rs_action r) (rs_service r) sd"
proof -
  from merges_action [OF assms, of "foldl mergeRestart [] stale"]
  obtain h where "restart_of (merged stale fresh) (rs_service r) = Some h" "rs_action h = rs_action r"
    by (auto simp: merged_def)
  moreover from restart_of_service [OF this(1)]
  have "classify_restart sd h \<in> set (MergeRestarts stale fresh sd)" "rs_service h = rs_service r"
    unfolding MergeRestarts_merged by blast+
  ultimately show ?thesis by (intro bexI [of _ "classify_restart sd h"]) (auto simp: classify_restart_def)
qed

theorem merge_restarts_fresh_action_witness:
  "let r = \<lparr>rs_service = ''mta'', rs_action = ActionStop, rs_sections = [], rs_reasons = []\<rparr> in
   \<exists>m \<in> set (MergeRestarts [r\<lparr>rs_action := ActionRestart\<rparr>] [r] True).
     rs_service m = ''mta'' \<and> rs_action m = ActionStop"
proof -
  let ?r = "\<lparr>rs_service = ''mta'', rs_action = ActionStop, rs_sections = [], rs_reasons = []\<rparr> :: Restart"
  have "distinct (map rs_service [?r])" "?r \<in> set [?r]" by simp_all
  from merge_restarts_fresh_action [OF this, of "[?r\<lparr>rs_action := ActionRestart\<rparr>]" True]
  show ?thesis by (simp add: Classify_def)
qed

section \<open>What a plan shows of a value\<close>

text \<open>The reason of a changed variable is bounded and silent about secrets: the old and the new
  value take at most 123 bytes each, and for a secret key the reason only tells whether the values
  are set, so two changes of the same secret give the same reason.\<close>

theorem change_reason_safe:
  "length (r_old (varChanged sn t key old new)) \<le> 123 \<and>
   length (r_new (varChanged sn t key old new)) \<le> 123 \<and>
   (IsSecretKey key \<longrightarrow> (old = [] \<longleftrightarrow> old' = []) \<longrightarrow> (new = [] \<longleftrightarrow> new' = []) \<longrightarrow>
      varChanged sn t key old new = varChanged sn t key old' new')"
proof -
  have bound: "length (displayValue key v) \<le> 123" for v
    using to_valid_utf8_length [of "take 120 (ForLog key v)"]
    by (simp add: displayValue_def Let_def maxReasonValue_def)
  have same: "displayValue key v = displayValue key v'" if "IsSecretKey key" "v = [] \<longleftrightarrow> v' = []" for v v'
    using that by (simp add: displayValue_def ForLog_secret)
  from bound same [of old old'] same [of new new'] show ?thesis by (simp add: varChanged_def)
qed

theorem change_reason_safe_witness:
  "IsSecretKey ''ldap_root_password'' \<and>
   varChanged ''mta'' TypeLocal ''ldap_root_password'' ''a'' ''b'' =
   varChanged ''mta'' TypeLocal ''ldap_root_password'' ''x'' ''y''"
proof -
  have 1: "IsSecretKey ''ldap_root_password''" by code_simp
  with change_reason_safe [of "''mta''" TypeLocal "''ldap_root_password''" "''a''" "''b''" "''x''" "''y''"]
  show ?thesis by simp
qed

text \<open>The plan with other values for its secret directives and LDAP attributes.\<close>

definition other_secrets :: "(string \<Rightarrow> string) \<Rightarrow> Plan \<Rightarrow> Plan" where
  "other_secrets f p =
     (let sub = (\<lambda>key val. if IsSecretKey key \<and> val \<noteq> [] then f val else val) in
      p\<lparr>pl_Postconf := map (\<lambda>c. c\<lparr>pc_value := sub (pc_key c) (pc_value c)\<rparr>) (pl_Postconf p),
        pl_Postconfd := map (\<lambda>c. c\<lparr>pd_value := sub (pd_key c) (pd_value c)\<rparr>) (pl_Postconfd p),
        pl_Ldap := map (\<lambda>l. l\<lparr>ld_value := sub (ld_key l) (ld_value l)\<rparr>) (pl_Ldap p)\<rparr>)"

text \<open>C38: The text of a plan is independent of the secrets in it: replacing the value of every
  secret directive and LDAP attribute by another non-empty value leaves every line unchanged.\<close>

theorem plan_text_hides_secrets:
  assumes "\<forall>v. f v \<noteq> []"
  shows "WriteText (other_secrets f p) = WriteText p"
proof -
  have "ForLog key (if IsSecretKey key \<and> val \<noteq> [] then f val else val) = ForLog key val" for key val
    using assms by (simp add: ForLog_def)
  then have "Redacted (other_secrets f p) = Redacted p"
    by (simp add: Redacted_def other_secrets_def Let_def comp_def)
  then show ?thesis unfolding WriteText_def by (simp only:)
qed

definition ex_secret_plan :: Plan where
  "ex_secret_plan =
     \<lparr>pl_FirstRun = False, pl_Sections = [], pl_Heal = [], pl_Mapfiles = [], pl_Rewrites = [],
      pl_Postconf =
        [\<lparr>pc_key = ''smtp_tls_private_key'', pc_value = ''abc'', pc_sections = [], pc_reasons = []\<rparr>],
      pl_Postconfd = [], pl_Ldap = [], pl_Proxygen = None, pl_Restarts = [], pl_Deferred = [],
      pl_Tracked = [], pl_Enabled = []\<rparr>"

theorem plan_text_hides_secrets_witness:
  "WriteText (other_secrets (\<lambda>v. ''other'') ex_secret_plan) = WriteText ex_secret_plan \<and>
   other_secrets (\<lambda>v. ''other'') ex_secret_plan \<noteq> ex_secret_plan"
proof
  show "WriteText (other_secrets (\<lambda>v. ''other'') ex_secret_plan) = WriteText ex_secret_plan"
    by (rule plan_text_hides_secrets) simp
  show "other_secrets (\<lambda>v. ''other'') ex_secret_plan \<noteq> ex_secret_plan" by code_simp
qed

end
