(* ===== verification/Service_Manager.thy ===== *)
theory Service_Manager
  imports Plan_Types
begin

text \<open>
  Package \<open>internal/services\<close>: the \<open>ServiceManager\<close> (\<open>manager.go\<close>, \<open>systemd_restart.go\<close>), which owns
  the restart queue shared by the restart policy and the watchdog. Its exported methods take the
  mutex, so each of them is one atomic step here.

  The \<open>Backend\<close> the manager drives is an interface of the package; it is a record of functions on a
  world \<open>'w\<close> of which nothing is assumed. The world also carries the context: \<open>be_cancelled\<close> is
  \<open>ctx.Err() != nil\<close>. Log lines are left out.
\<close>

section \<open>Backend\<close>

datatype ServiceAction = SvcRestart | SvcStop | SvcStart | SvcStatus

datatype sm_error =
    BackendError string
  | NotRunning string
  | RestartsFailed "string list"
  | Interrupted
  | NoSystemdRestart string
  | NeverExecuted string
  | UnknownService string
  | NoSystemdUnit string
  | SystemdNotBooted

type_synonym 'w effect = "'w \<Rightarrow> sm_error option \<times> 'w"

text \<open>
  What only the host controller offers (\<open>hostBackend\<close>); a hook backend has none of it. A service
  definition is reduced to what \<open>ServiceTryReloadOrRestart\<close> reads of it.
\<close>

record ServiceDef =
  sd_name :: string
  sd_external :: bool
  sd_units :: "string list"

record 'w HostBackend =
  hb_systemdMode :: bool
  hb_booted :: bool
  hb_systemctl :: "string \<Rightarrow> string list \<Rightarrow> 'w effect"

record 'w Backend =
  be_start :: "string \<Rightarrow> 'w effect"
  be_stop :: "string \<Rightarrow> 'w effect"
  be_restart :: "string \<Rightarrow> 'w effect"
  be_status :: "string \<Rightarrow> 'w \<Rightarrow> (sm_error + bool) \<times> 'w"
  be_lookup :: "string \<Rightarrow> ServiceDef option"
  be_cancelled :: "'w \<Rightarrow> bool"
  be_host :: "'w HostBackend option"

section \<open>State\<close>

record 'w ServiceManager =
  sm_ctl :: "'w Backend"
  sm_RestartQueue :: "bool smap"
  sm_restartReasons :: "string list smap"
  sm_MaxFailedRestarts :: nat
  sm_StartOrder :: "int smap"
  sm_Dependencies :: "string list smap"
  sm_DisableRestarts :: bool
  sm_BeforeRestart :: "(string \<Rightarrow> 'w \<Rightarrow> 'w) option"

definition getDefaultStartOrder :: "int smap" where
  "getDefaultStartOrder =
     fold (\<lambda>(svc, n). mput svc n)
       [(''ldap'', 0), (''configd'', 10), (''service-discover'', 20), (''appserver-db'', 48),
        (''store'', 49), (''mailbox'', 50), (''memcached'', 60), (''proxy'', 70), (''amavis'', 75),
        (''antispam-db'', 79), (''antispam'', 80), (''antivirus'', 90), (''clamd'', 91),
        (''freshclam'', 92), (''opendkim'', 100), (''cbpolicyd'', 120), (''saslauthd'', 130),
        (''milter'', 140), (''mta'', 150), (''stats'', 160)] []"

definition unknownStartOrder :: int where
  "unknownStartOrder = 1000"

definition NewServiceManager :: "'w Backend \<Rightarrow> 'w ServiceManager" where
  "NewServiceManager ctl =
     \<lparr>sm_ctl = ctl, sm_RestartQueue = [], sm_restartReasons = [], sm_MaxFailedRestarts = 3,
      sm_StartOrder = getDefaultStartOrder, sm_Dependencies = [], sm_DisableRestarts = False,
      sm_BeforeRestart = None\<rparr>"

section \<open>Acting on one service\<close>

definition ControlProcess :: "'w ServiceManager \<Rightarrow> string \<Rightarrow> ServiceAction \<Rightarrow> 'w effect" where
  "ControlProcess sm svc0 action w =
     (let svc = to_lower svc0 in
      case action of
        SvcStart \<Rightarrow> be_start (sm_ctl sm) svc w
      | SvcStop \<Rightarrow> be_stop (sm_ctl sm) svc w
      | SvcRestart \<Rightarrow> be_restart (sm_ctl sm) svc w
      | SvcStatus \<Rightarrow>
          (case be_status (sm_ctl sm) svc w of
             (Inl e, w') \<Rightarrow> (Some e, w')
           | (Inr running, w') \<Rightarrow> (if running then None else Some (NotRunning svc), w')))"

definition IsRunning :: "'w ServiceManager \<Rightarrow> string \<Rightarrow> 'w \<Rightarrow> (sm_error + bool) \<times> 'w" where
  "IsRunning sm svc w = be_status (sm_ctl sm) (to_lower svc) w"

definition HasCommand :: "'w ServiceManager \<Rightarrow> string \<Rightarrow> bool" where
  "HasCommand sm svc \<longleftrightarrow> be_lookup (sm_ctl sm) (to_lower svc) \<noteq> None"

section \<open>The queue\<close>

definition addRestartLocked :: "string \<Rightarrow> string list \<Rightarrow> 'w ServiceManager \<Rightarrow> 'w ServiceManager" where
  "addRestartLocked svc0 reasons sm =
     (let svc = to_lower svc0;
          sm1 = sm\<lparr>sm_RestartQueue := mput svc True (sm_RestartQueue sm)\<rparr>
      in if reasons = [] then sm1
         else
           let have = (case mget (sm_restartReasons sm1) svc of None \<Rightarrow> [] | Some rs \<Rightarrow> rs)
           in sm1\<lparr>sm_restartReasons :=
                    mput svc (append_all_new have reasons) (sm_restartReasons sm1)\<rparr>)"

text \<open>The source returns an error value that is always nil.\<close>

definition AddRestartWithReasons ::
    "string \<Rightarrow> string list \<Rightarrow> 'w ServiceManager \<Rightarrow> sm_error option \<times> 'w ServiceManager" where
  "AddRestartWithReasons svc reasons sm = (None, addRestartLocked svc reasons sm)"

definition AddRestart :: "string \<Rightarrow> 'w ServiceManager \<Rightarrow> sm_error option \<times> 'w ServiceManager" where
  "AddRestart svc sm = AddRestartWithReasons svc [] sm"

definition ClearRestarts :: "'w ServiceManager \<Rightarrow> 'w ServiceManager" where
  "ClearRestarts sm = sm\<lparr>sm_RestartQueue := [], sm_restartReasons := []\<rparr>"

definition GetPendingRestarts :: "'w ServiceManager \<Rightarrow> string list" where
  "GetPendingRestarts sm = mkeys (sm_RestartQueue sm)"

definition SetDependencies :: "string list smap \<Rightarrow> 'w ServiceManager \<Rightarrow> 'w ServiceManager" where
  "SetDependencies deps sm = sm\<lparr>sm_Dependencies := deps\<rparr>"

definition dequeue :: "string \<Rightarrow> 'w ServiceManager \<Rightarrow> 'w ServiceManager" where
  "dequeue svc sm =
     sm\<lparr>sm_RestartQueue := mdel svc (sm_RestartQueue sm),
        sm_restartReasons := mdel svc (sm_restartReasons sm)\<rparr>"

definition startOrderOf :: "'w ServiceManager \<Rightarrow> string \<Rightarrow> int" where
  "startOrderOf sm svc =
     (case mget (sm_StartOrder sm) svc of Some order \<Rightarrow> order | None \<Rightarrow> unknownStartOrder)"

definition getSortedServices :: "'w ServiceManager \<Rightarrow> string list" where
  "getSortedServices sm = sort_key (\<lambda>svc. (startOrderOf sm svc, svc)) (mkeys (sm_RestartQueue sm))"

section \<open>Dependencies\<close>

definition queueDependencyRestart ::
    "(string \<Rightarrow> string) \<Rightarrow> string \<Rightarrow> string \<Rightarrow> 'w ServiceManager \<Rightarrow> 'w ServiceManager" where
  "queueDependencyRestart configLookup reason dep sm =
     (if dep = ''amavis'' then addRestartLocked dep [reason] sm
      else
        let status = configLookup (''SERVICE_'' @ to_upper dep) in
        if IsTruthy status \<or> status = ''enabled'' then addRestartLocked dep [reason] sm else sm)"

definition deps_of :: "string list smap \<Rightarrow> string \<Rightarrow> string list" where
  "deps_of deps svc = (case mget deps svc of None \<Rightarrow> [] | Some ds \<Rightarrow> map to_lower ds)"

definition addDependencyRestarts ::
    "string \<Rightarrow> (string \<Rightarrow> string) \<Rightarrow> 'w ServiceManager \<Rightarrow> 'w ServiceManager" where
  "addDependencyRestarts sectionName configLookup sm =
     fold (queueDependencyRestart configLookup
            (ReasonString (service_reason ReasonDependency sectionName)))
       (deps_of (sm_Dependencies sm) sectionName) sm"

text \<open>
  \<open>DependencyClosure\<close>: a breadth-first search with the work list \<open>queue\<close>, the set \<open>seen\<close> and the
  services found so far.
\<close>

definition closure_visit :: "string \<Rightarrow> string list \<times> string list \<Rightarrow> string list \<times> string list" where
  "closure_visit dep st =
     (case st of (seen, new) \<Rightarrow> if dep \<in> set seen then (seen, new) else (dep # seen, new @ [dep]))"

lemma closure_visit_simps [simp]:
  "d \<in> set seen \<Longrightarrow> closure_visit d (seen, new) = (seen, new)"
  "d \<notin> set seen \<Longrightarrow> closure_visit d (seen, new) = (d # seen, new @ [d])"
  by (simp_all add: closure_visit_def)

lemma closure_visit_fold:
  "fold closure_visit ds (seen, new) = (seen', new') \<Longrightarrow>
     set seen \<subseteq> set seen' \<and> set seen' = set seen \<union> set ds \<and>
     (\<exists>xs. new' = new @ xs \<and> distinct xs \<and> set xs = set ds - set seen)"
proof (induction ds arbitrary: seen new)
  case (Cons d ds)
  show ?case
  proof (cases "d \<in> set seen")
    case True
    with Cons.prems have "fold closure_visit ds (seen, new) = (seen', new')"
      by simp
    from Cons.IH [OF this] True show ?thesis by auto
  next
    case False
    with Cons.prems have "fold closure_visit ds (d # seen, new @ [d]) = (seen', new')"
      by simp
    from Cons.IH [OF this] obtain xs where "set seen' = insert d (set seen) \<union> set ds"
      "new' = new @ d # xs" "distinct xs" "set xs = set ds - insert d (set seen)" by auto
    with False show ?thesis by (intro conjI exI [of _ "d # xs"]) auto
  qed
qed simp

definition closure_nodes :: "string list smap \<Rightarrow> string set" where
  "closure_nodes deps = \<Union> ((\<lambda>(_, ds). set (map to_lower ds)) ` set deps)"

lemma deps_of_nodes: "set (deps_of deps svc) \<subseteq> closure_nodes deps"
proof (cases "mget deps svc")
  case (Some ds)
  then have "(svc, ds) \<in> set deps" by (rule map_of_SomeD)
  with Some show ?thesis by (force simp: deps_of_def closure_nodes_def)
qed (simp add: deps_of_def)

lemma finite_closure_nodes [simp]: "finite (closure_nodes deps)"
  by (auto simp: closure_nodes_def)

definition closure_order ::
    "((string list smap \<times> string list \<times> string list \<times> string list) \<times>
      (string list smap \<times> string list \<times> string list \<times> string list)) set" where
  "closure_order = measures [\<lambda>(deps, seen, out, queue). card (closure_nodes deps - set seen),
     \<lambda>(deps, seen, out, queue). length queue]"

lemma closure_decreases:
  assumes "fold closure_visit (deps_of deps cur) (seen, []) = (seen', new)"
  shows "((deps, seen', out @ new, queue @ new), deps, seen, out, cur # queue) \<in> closure_order"
proof -
  from closure_visit_fold [OF assms] have seen': "set seen' = set seen \<union> set (deps_of deps cur)"
    and new: "set new = set (deps_of deps cur) - set seen" by auto
  show ?thesis
  proof (cases "new = []")
    case True
    with new seen' have "set seen' = set seen" by auto
    with True show ?thesis by (simp add: closure_order_def)
  next
    case False
    then obtain d where "d \<in> set new" by (cases new) auto
    with new seen' have "d \<in> closure_nodes deps - set seen" "d \<in> set seen'"
      using deps_of_nodes [of deps cur] by auto
    then have "closure_nodes deps - set seen' \<subset> closure_nodes deps - set seen" using seen' by auto
    then show ?thesis by (simp add: closure_order_def psubset_card_mono)
  qed
qed

function closure_loop ::
    "string list smap \<Rightarrow> string list \<Rightarrow> string list \<Rightarrow> string list \<Rightarrow> string list" where
  "closure_loop deps seen out [] = out"
| "closure_loop deps seen out (cur # queue) =
     (case fold closure_visit (deps_of deps cur) (seen, []) of
        (seen', new) \<Rightarrow> closure_loop deps seen' (out @ new) (queue @ new))"
  by pat_completeness auto

termination
  by (relation closure_order) (simp_all add: closure_decreases, simp add: closure_order_def)

definition DependencyClosure :: "string list smap \<Rightarrow> string list \<Rightarrow> string list" where
  "DependencyClosure deps roots = sort (closure_loop deps roots [] roots)"

section \<open>Processing the queue\<close>

text \<open>
  \<open>failedRestarts\<close> and \<open>processedThisRound\<close> are maps local to one \<open>ProcessRestarts\<close>; the whole state of
  the loop is the manager, the two maps and the world.
\<close>

record 'w restart_state =
  rt_sm :: "'w ServiceManager"
  rt_failed :: "nat smap"
  rt_processed :: "string list"
  rt_world :: 'w

definition run_before :: "'w ServiceManager \<Rightarrow> string \<Rightarrow> 'w \<Rightarrow> 'w" where
  "run_before sm svc w = (case sm_BeforeRestart sm of None \<Rightarrow> w | Some f \<Rightarrow> f svc w)"

definition failures_of :: "nat smap \<Rightarrow> string \<Rightarrow> nat" where
  "failures_of m svc = (case mget m svc of None \<Rightarrow> 0 | Some n \<Rightarrow> n)"

definition attemptServiceRestart ::
    "(string \<Rightarrow> string) option \<Rightarrow> string \<Rightarrow> 'w restart_state \<Rightarrow> bool \<times> 'w restart_state" where
  "attemptServiceRestart configLookup svc st =
     (let sm = rt_sm st in
      case ControlProcess sm svc SvcRestart (run_before sm svc (rt_world st)) of
        (None, w) \<Rightarrow>
          let sm1 = dequeue svc sm;
              sm2 = (case configLookup of None \<Rightarrow> sm1 | Some f \<Rightarrow> addDependencyRestarts svc f sm1)
          in (True, st\<lparr>rt_sm := sm2, rt_failed := mdel svc (rt_failed st), rt_world := w\<rparr>)
      | (Some _, w) \<Rightarrow>
          if be_cancelled (sm_ctl sm) w then (False, st\<lparr>rt_world := w\<rparr>)
          else
            let n = Suc (failures_of (rt_failed st) svc);
                st1 = st\<lparr>rt_failed := mput svc n (rt_failed st), rt_world := w\<rparr>
            in if n \<ge> sm_MaxFailedRestarts sm then (True, st1\<lparr>rt_sm := dequeue svc sm\<rparr>)
               else (False, st1))"

fun processServices ::
    "(string \<Rightarrow> string) option \<Rightarrow> string list \<Rightarrow> bool \<Rightarrow> 'w restart_state \<Rightarrow> bool \<times> 'w restart_state" where
  "processServices configLookup [] madeProgress st = (madeProgress, st)"
| "processServices configLookup (svc # svcs) madeProgress st =
     (if be_cancelled (sm_ctl (rt_sm st)) (rt_world st) then (madeProgress, st)
      else if mget (sm_RestartQueue (rt_sm st)) svc \<noteq> Some True \<or> svc \<in> set (rt_processed st)
        then processServices configLookup svcs madeProgress st
      else
        case attemptServiceRestart configLookup svc st of
          (True, st') \<Rightarrow>
            processServices configLookup svcs True (st'\<lparr>rt_processed := svc # rt_processed st'\<rparr>)
        | (False, st') \<Rightarrow> processServices configLookup svcs madeProgress st')"

definition processRestartRound ::
    "(string \<Rightarrow> string) option \<Rightarrow> 'w restart_state \<Rightarrow> bool \<times> 'w restart_state" where
  "processRestartRound configLookup st =
     processServices configLookup (getSortedServices (rt_sm st)) False st"

definition unrecovered :: "'w restart_state \<Rightarrow> string list" where
  "unrecovered st = sort (remdups (mkeys (rt_failed st) @ mkeys (sm_RestartQueue (rt_sm st))))"

definition restarts_result :: "'w restart_state \<Rightarrow> sm_error option" where
  "restarts_result st = (if unrecovered st = [] then None else Some (RestartsFailed (unrecovered st)))"

text \<open>The loop of \<open>ProcessRestarts\<close>. It need not end: \<open>None\<close> is a call that does not return.\<close>

partial_function (option) restart_loop ::
    "(string \<Rightarrow> string) option \<Rightarrow> 'w restart_state \<Rightarrow> (sm_error option \<times> 'w restart_state) option" where
  "restart_loop configLookup st =
     (if sm_RestartQueue (rt_sm st) = [] then Some (restarts_result st, st)
      else
        case processRestartRound configLookup st of (madeProgress, st') \<Rightarrow>
          if be_cancelled (sm_ctl (rt_sm st')) (rt_world st') then Some (Some Interrupted, st')
          else if madeProgress then restart_loop configLookup (st'\<lparr>rt_processed := []\<rparr>)
          else Some (restarts_result st', st'))"

declare restart_loop.simps [code]

definition init_restart_state :: "'w ServiceManager \<Rightarrow> 'w \<Rightarrow> 'w restart_state" where
  "init_restart_state sm w = \<lparr>rt_sm = sm, rt_failed = [], rt_processed = [], rt_world = w\<rparr>"

definition ProcessRestarts ::
    "(string \<Rightarrow> string) option \<Rightarrow> 'w ServiceManager \<Rightarrow> 'w
      \<Rightarrow> (sm_error option \<times> 'w ServiceManager \<times> 'w) option" where
  "ProcessRestarts configLookup sm w =
     (if sm_DisableRestarts sm then Some (None, ClearRestarts sm, w)
      else map_option (\<lambda>(err, st). (err, rt_sm st, rt_world st))
             (restart_loop configLookup (init_restart_state sm w)))"

section \<open>Systemd\<close>

definition IsSystemdMode :: "'w ServiceManager \<Rightarrow> bool" where
  "IsSystemdMode sm = (case be_host (sm_ctl sm) of None \<Rightarrow> False | Some host \<Rightarrow> hb_systemdMode host)"

definition ServiceTryReloadOrRestart :: "'w Backend \<Rightarrow> 'w HostBackend \<Rightarrow> string \<Rightarrow> 'w effect" where
  "ServiceTryReloadOrRestart ctl host name w =
     (case be_lookup ctl name of
        None \<Rightarrow> (Some (UnknownService name), w)
      | Some def \<Rightarrow>
          if sd_external def then (None, w)
          else if sd_units def = [] then (Some (NoSystemdUnit name), w)
          else if \<not> hb_booted host then (Some SystemdNotBooted, w)
          else hb_systemctl host ''try-reload-or-restart'' (sd_units def) w)"

definition ApplySystemd :: "'w ServiceManager \<Rightarrow> string \<Rightarrow> Action \<Rightarrow> 'w effect" where
  "ApplySystemd sm svc0 action w =
     (let svc = to_lower svc0 in
      if sm_DisableRestarts sm then (None, w)
      else
        case action of
          ActionRestart \<Rightarrow>
            (case be_host (sm_ctl sm) of
               None \<Rightarrow> (Some (NoSystemdRestart svc), w)
             | Some host \<Rightarrow> ServiceTryReloadOrRestart (sm_ctl sm) host svc w)
        | ActionStart \<Rightarrow> be_start (sm_ctl sm) svc w
        | ActionStop \<Rightarrow> be_stop (sm_ctl sm) svc w
        | ActionPendingRestart \<Rightarrow> (Some (NeverExecuted svc), w))"

end
