(* ===== verification/Restart_Policy.thy ===== *)
theory Restart_Policy
  imports Service_Manager
begin

text \<open>
  Package \<open>internal/restart\<close> (\<open>policy.go\<close>): what a cycle does with the restarts of its plan. The policy
  is written against two interfaces, the restart queue (\<open>services.Manager\<close>) and the systemd side
  (\<open>restart.Systemd\<close>); both are records of operations on a host state \<open>'m\<close>, which also carries the
  context. The service manager implements them (\<open>manager_ops\<close>, \<open>systemd_ops\<close>).
\<close>

section \<open>Interfaces\<close>

record 'm Manager =
  mg_add :: "string \<Rightarrow> string list \<Rightarrow> 'm \<Rightarrow> sm_error option \<times> 'm"
  mg_process :: "'m \<Rightarrow> (sm_error option \<times> 'm) option"
  mg_cancelled :: "'m \<Rightarrow> bool"

record 'm Systemd =
  sy_mode :: "'m \<Rightarrow> bool"
  sy_apply :: "string \<Rightarrow> Action \<Rightarrow> 'm \<Rightarrow> sm_error option \<times> 'm"

text \<open>The service manager behind both interfaces; the host state is the manager and its world.\<close>

definition manager_ops :: "('w ServiceManager \<times> 'w) Manager" where
  "manager_ops =
     \<lparr>mg_add = \<lambda>svc reasons (sm, w).
        (case AddRestartWithReasons svc reasons sm of (err, sm') \<Rightarrow> (err, sm', w)),
      mg_process = \<lambda>(sm, w). ProcessRestarts None sm w,
      mg_cancelled = \<lambda>(sm, w). be_cancelled (sm_ctl sm) w\<rparr>"

definition systemd_ops :: "('w ServiceManager \<times> 'w) Systemd" where
  "systemd_ops =
     \<lparr>sy_mode = \<lambda>(sm, w). IsSystemdMode sm,
      sy_apply = \<lambda>svc action (sm, w). (case ApplySystemd sm svc action w of (err, w') \<Rightarrow> (err, sm, w'))\<rparr>"

section \<open>State\<close>

record Settings =
  st_Enabled :: bool
  st_Debounce :: int

record pendingRestart =
  pr_action :: Action
  pr_reasons :: "string list"
  pr_kinds :: "string list"
  pr_lastRequest :: int

text \<open>\<open>po_requested\<close> is the history of \<open>metrics.RestartRequested\<close> calls.\<close>

record 'm Policy =
  po_mgr :: "'m Manager"
  po_systemd :: "'m Systemd option"
  po_pending :: "pendingRestart smap"
  po_failures :: "nat smap"
  po_requested :: "(string \<times> string list) list"

definition NewPolicy :: "'m Manager \<Rightarrow> 'm Policy" where
  "NewPolicy mgr =
     \<lparr>po_mgr = mgr, po_systemd = None, po_pending = [], po_failures = [], po_requested = []\<rparr>"

definition WithSystemd :: "'m Systemd \<Rightarrow> 'm Policy \<Rightarrow> 'm Policy" where
  "WithSystemd sd p = p\<lparr>po_systemd := Some sd\<rparr>"

definition SystemdMode :: "'m Policy \<Rightarrow> 'm \<Rightarrow> bool" where
  "SystemdMode p m = (case po_systemd p of None \<Rightarrow> False | Some sd \<Rightarrow> sy_mode sd m)"

definition maxAttempts :: nat where
  "maxAttempts = 3"

definition reasonKinds :: "Reason list \<Rightarrow> string list" where
  "reasonKinds reasons = sort (append_all_new [] (map (\<lambda>r. kind_str (r_kind r)) reasons))"

section \<open>Acting on one request\<close>

text \<open>A failed attempt: the counter, or giving up at \<open>maxAttempts\<close>. The result tells to retry.\<close>

definition countFailure :: "string \<Rightarrow> 'm Policy \<Rightarrow> bool \<times> 'm Policy" where
  "countFailure svc p =
     (let n = Suc (case mget (po_failures p) svc of None \<Rightarrow> 0 | Some n \<Rightarrow> n) in
      if n \<ge> maxAttempts then (False, p\<lparr>po_failures := mdel svc (po_failures p)\<rparr>)
      else (True, p\<lparr>po_failures := mput svc n (po_failures p)\<rparr>))"

definition recordSuccess :: "string \<Rightarrow> string list \<Rightarrow> 'm Policy \<Rightarrow> 'm Policy" where
  "recordSuccess svc kinds p =
     p\<lparr>po_failures := mdel svc (po_failures p), po_requested := po_requested p @ [(svc, kinds)]\<rparr>"

definition queueLegacy ::
    "string \<Rightarrow> string list \<Rightarrow> string list \<Rightarrow> 'm Policy \<times> 'm \<Rightarrow> bool \<times> 'm Policy \<times> 'm" where
  "queueLegacy svc reasons kinds pm =
     (case pm of (p, m) \<Rightarrow>
       case mg_add (po_mgr p) svc reasons m of
         (Some _, m') \<Rightarrow> (case countFailure svc p of (retry, p') \<Rightarrow> (retry, p', m'))
       | (None, m') \<Rightarrow> (False, recordSuccess svc kinds p, m'))"

definition applySystemd ::
    "'m Systemd \<Rightarrow> string \<Rightarrow> Action \<Rightarrow> string list \<Rightarrow> 'm Policy \<times> 'm \<Rightarrow> bool \<times> 'm Policy \<times> 'm" where
  "applySystemd sd svc action kinds pm =
     (case pm of (p, m) \<Rightarrow>
       case sy_apply sd svc action m of
         (None, m') \<Rightarrow> (False, recordSuccess svc kinds p, m')
       | (Some _, m') \<Rightarrow>
           if mg_cancelled (po_mgr p) m' then (False, p, m')
           else (case countFailure svc p of (retry, p') \<Rightarrow> (retry, p', m')))"

definition dispatch ::
    "string \<Rightarrow> Action \<Rightarrow> string list \<Rightarrow> string list \<Rightarrow> 'm Policy \<times> 'm \<Rightarrow> bool \<times> 'm Policy \<times> 'm" where
  "dispatch svc action reasons kinds pm =
     (case pm of (p, m) \<Rightarrow>
       case po_systemd p of
         None \<Rightarrow> queueLegacy svc reasons kinds pm
       | Some sd \<Rightarrow>
           if \<not> sy_mode sd m then queueLegacy svc reasons kinds pm
           else if Classify action svc True = ActionPendingRestart then (False, p, m)
           else applySystemd sd svc action kinds pm)"

section \<open>A cycle\<close>

fun queue_restarts :: "Restart list \<Rightarrow> 'm Policy \<times> 'm \<Rightarrow> Restart list \<times> 'm Policy \<times> 'm" where
  "queue_restarts [] pm = ([], pm)"
| "queue_restarts (e # es) pm =
     (case dispatch (rs_service e) (rs_action e) (Strings (rs_reasons e)) (reasonKinds (rs_reasons e)) pm of
        (retry, pm1) \<Rightarrow>
          (case queue_restarts es pm1 of
             (carry, pm2) \<Rightarrow> (if retry then e # carry else carry, pm2)))"

definition record_restart :: "int \<Rightarrow> Restart \<Rightarrow> pendingRestart smap \<Rightarrow> pendingRestart smap" where
  "record_restart now e pending =
     mupsert (rs_service e)
       \<lparr>pr_action = ActionRestart, pr_reasons = [], pr_kinds = [], pr_lastRequest = now\<rparr>
       (\<lambda>r. r\<lparr>pr_action := rs_action e,
              pr_reasons := append_all_new (pr_reasons r) (Strings (rs_reasons e)),
              pr_kinds := append_all_new (pr_kinds r) (reasonKinds (rs_reasons e)),
              pr_lastRequest := now\<rparr>)
       pending"

definition record_restarts :: "Restart list \<Rightarrow> int \<Rightarrow> 'm Policy \<Rightarrow> 'm Policy" where
  "record_restarts restarts now p =
     p\<lparr>po_pending := fold (record_restart now) restarts (po_pending p)\<rparr>"

definition flush_one ::
    "(pendingRestart \<Rightarrow> bool) \<Rightarrow> string \<times> pendingRestart \<Rightarrow> 'm Policy \<times> 'm \<Rightarrow> 'm Policy \<times> 'm" where
  "flush_one due kv pm =
     (case kv of (name, r) \<Rightarrow>
       if \<not> due r then pm
       else
         (case dispatch name (pr_action r) (pr_reasons r) (pr_kinds r) pm of
            (True, pm') \<Rightarrow> pm'
          | (False, (p', m')) \<Rightarrow> (p'\<lparr>po_pending := mdel name (po_pending p')\<rparr>, m')))"

definition flush :: "(pendingRestart \<Rightarrow> bool) \<Rightarrow> 'm Policy \<times> 'm \<Rightarrow> 'm Policy \<times> 'm" where
  "flush due pm = fold (flush_one due) (po_pending (fst pm)) pm"

text \<open>The error of \<open>ProcessRestarts\<close> is logged only; \<open>None\<close> is a pass that does not return.\<close>

definition process :: "'m Policy \<times> 'm \<Rightarrow> ('m Policy \<times> 'm) option" where
  "process pm =
     (case pm of (p, m) \<Rightarrow> map_option (\<lambda>(_, m'). (p, m')) (mg_process (po_mgr p) m))"

definition Apply ::
    "Restart list \<Rightarrow> Settings \<Rightarrow> int \<Rightarrow> 'm Policy \<times> 'm \<Rightarrow> (Restart list \<times> 'm Policy \<times> 'm) option" where
  "Apply restarts s now pm =
     (if \<not> st_Enabled s then Some (restarts, pm)
      else
        let (carry, pm1) =
          (if st_Debounce s \<le> 0 then queue_restarts restarts (flush (\<lambda>_. True) pm)
           else
             case pm of (p, m) \<Rightarrow>
               ([], flush (\<lambda>r. now - pr_lastRequest r \<ge> st_Debounce s) (record_restarts restarts now p, m)))
        in map_option (\<lambda>pm2. (carry, pm2)) (process pm1))"

end
