(* ===== verification/Service_Correct.thy ===== *)
theory Service_Correct
  imports Service_Manager
begin

text \<open>
  The restart queue of the service manager: the dependency closure is reachability, a pass over the
  queue ends unless the \<open>DEPENDS\<close> graph has a cycle, it touches the queued services and their
  dependents only, and it reports exactly what it could not restart.
\<close>

section \<open>Dependency closure\<close>

definition dep_edges :: "string list smap \<Rightarrow> (string \<times> string) set" where
  "dep_edges deps = {(s, d). d \<in> set (deps_of deps s)}"

definition closure_inv ::
    "string list smap \<Rightarrow> string set \<Rightarrow> string list \<Rightarrow> string list \<Rightarrow> string list \<Rightarrow> bool" where
  "closure_inv deps R seen out queue \<longleftrightarrow>
     set seen = R \<union> set out \<and> R \<inter> set out = {} \<and> distinct out \<and> set queue \<subseteq> set seen \<and>
     set out \<subseteq> (dep_edges deps)\<^sup>+ `` R \<and>
     (\<forall>s \<in> set seen. s \<in> set queue \<or> set (deps_of deps s) \<subseteq> set seen)"

lemma reach_edge: "(c, d) \<in> E \<Longrightarrow> c \<in> R \<or> c \<in> E\<^sup>+ `` R \<Longrightarrow> d \<in> E\<^sup>+ `` R"
  by (auto intro: trancl_into_trancl)

lemma closure_inv_step:
  assumes "closure_inv deps R seen out (cur # queue)"
    "fold closure_visit (deps_of deps cur) (seen, []) = (seen', new)"
  shows "closure_inv deps R seen' (out @ new) (queue @ new)"
proof -
  from closure_visit_fold [OF assms(2)] have seen': "set seen' = set seen \<union> set (deps_of deps cur)"
    and new: "set new = set (deps_of deps cur) - set seen" "distinct new" by auto
  note inv = assms(1) [unfolded closure_inv_def]
  have "d \<in> (dep_edges deps)\<^sup>+ `` R" if "d \<in> set (deps_of deps cur)" for d
  proof -
    have edge: "(cur, d) \<in> dep_edges deps" using that by (simp add: dep_edges_def)
    from inv have "cur \<in> R \<or> cur \<in> (dep_edges deps)\<^sup>+ `` R" by auto
    with edge show ?thesis by (rule reach_edge)
  qed
  then have "set (out @ new) \<subseteq> (dep_edges deps)\<^sup>+ `` R" using inv new by auto
  moreover have "s \<in> set (queue @ new) \<or> set (deps_of deps s) \<subseteq> set seen'" if "s \<in> set seen'" for s
  proof (cases "s \<in> set seen")
    case True
    from inv have "\<forall>s \<in> set seen. s \<in> set (cur # queue) \<or> set (deps_of deps s) \<subseteq> set seen"
      by (elim conjE)
    with True have "s = cur \<or> s \<in> set queue \<or> set (deps_of deps s) \<subseteq> set seen" by auto
    then show ?thesis unfolding seen' by auto
  next
    case False
    then have "s \<in> set new" using that unfolding seen' new(1) by simp
    then show ?thesis by simp
  qed
  moreover have "set seen' = R \<union> set (out @ new)" "R \<inter> set (out @ new) = {}" "distinct (out @ new)"
    "set (queue @ new) \<subseteq> set seen'" using inv seen' new by auto
  ultimately show ?thesis unfolding closure_inv_def by blast
qed

lemma closure_loop_correct:
  assumes "closure_inv deps R seen out queue"
  shows "distinct (closure_loop deps seen out queue) \<and>
    set (closure_loop deps seen out queue) = (dep_edges deps)\<^sup>+ `` R - R"
  using assms
proof (induction deps seen out queue rule: closure_loop.induct)
  case (1 deps seen out)
  then have seen: "set seen = R \<union> set out" and disj: "R \<inter> set out = {}" and "distinct out"
    and sub: "set out \<subseteq> (dep_edges deps)\<^sup>+ `` R"
    unfolding closure_inv_def by auto
  from 1 have closure: "\<forall>s \<in> set seen. s \<in> set [] \<or> set (deps_of deps s) \<subseteq> set seen"
    unfolding closure_inv_def by (elim conjE)
  have closed: "d \<in> set seen" if "(s, d) \<in> dep_edges deps" "s \<in> set seen" for s d
  proof -
    from that(1) have "d \<in> set (deps_of deps s)" by (simp add: dep_edges_def)
    moreover have "set (deps_of deps s) \<subseteq> set seen" using closure that(2) by simp
    ultimately show ?thesis by blast
  qed
  have "d \<in> set seen" if "(r, d) \<in> (dep_edges deps)\<^sup>+" "r \<in> set seen" for r d
    using that(1)
  proof (induction rule: trancl_induct)
    case (base y)
    then show ?case using that(2) by (rule closed)
  next
    case (step y z)
    from step.hyps(2) step.IH show ?case by (rule closed)
  qed
  then have "(dep_edges deps)\<^sup>+ `` R \<subseteq> R \<union> set out" unfolding seen by blast
  with disj sub have "set out = (dep_edges deps)\<^sup>+ `` R - R" by blast
  with \<open>distinct out\<close> show ?case by simp
next
  case (2 deps seen out cur queue)
  obtain seen' new where st: "fold closure_visit (deps_of deps cur) (seen, []) = (seen', new)"
    by (cases "fold closure_visit (deps_of deps cur) (seen, [])")
  show ?case
    unfolding closure_loop.simps st prod.case
    by (rule 2(1) [OF st [symmetric] closure_inv_step [OF 2(2) st]])
qed

lemma closure_loop_roots:
  "distinct (closure_loop deps roots [] roots) \<and>
   set (closure_loop deps roots [] roots) = (dep_edges deps)\<^sup>+ `` set roots - set roots"
  by (rule closure_loop_correct) (simp add: closure_inv_def)

lemma dependency_closure_set:
  "set (DependencyClosure deps roots) = (dep_edges deps)\<^sup>+ `` set roots - set roots"
  using closure_loop_roots by (simp add: DependencyClosure_def)

text \<open>C23: The dependency closure of a set of services is what is reachable from them through
  \<open>DEPENDS\<close>, without the services themselves, each once and in name order.\<close>

theorem dependency_closure_is_reachability:
  "set (DependencyClosure deps roots) = (dep_edges deps)\<^sup>+ `` set roots - set roots \<and>
   sorted_wrt (<) (DependencyClosure deps roots)"
  using closure_loop_roots [of deps roots] dependency_closure_set
  by (simp add: DependencyClosure_def strict_sorted_iff)

section \<open>One attempt\<close>

definition same_manager :: "'w ServiceManager \<Rightarrow> 'w ServiceManager \<Rightarrow> bool" where
  "same_manager a b \<longleftrightarrow>
     sm_ctl a = sm_ctl b \<and> sm_MaxFailedRestarts a = sm_MaxFailedRestarts b \<and>
     sm_StartOrder a = sm_StartOrder b \<and> sm_Dependencies a = sm_Dependencies b \<and>
     sm_DisableRestarts a = sm_DisableRestarts b \<and> sm_BeforeRestart a = sm_BeforeRestart b"

lemma same_manager_refl [simp]: "same_manager sm sm"
  by (simp add: same_manager_def)

lemma same_manager_trans: "same_manager a b \<Longrightarrow> same_manager b c \<Longrightarrow> same_manager a c"
  by (simp add: same_manager_def)

definition queued :: "'w ServiceManager \<Rightarrow> string set" where
  "queued sm = fst ` set (sm_RestartQueue sm)"

definition dep_enabled :: "(string \<Rightarrow> string) \<Rightarrow> string \<Rightarrow> bool" where
  "dep_enabled f d \<longleftrightarrow>
     d = ''amavis'' \<or> IsTruthy (f (''SERVICE_'' @ to_upper d)) \<or> f (''SERVICE_'' @ to_upper d) = ''enabled''"

lemma addRestartLocked_facts [simp]:
  "queued (addRestartLocked svc rs sm) = insert (to_lower svc) (queued sm)"
  "same_manager sm (addRestartLocked svc rs sm)"
  by (simp_all add: addRestartLocked_def queued_def same_manager_def Let_def)

lemma dequeue_facts [simp]:
  "queued (dequeue svc sm) = queued sm - {svc}" "same_manager sm (dequeue svc sm)"
  by (auto simp: dequeue_def queued_def same_manager_def mdel_def)

lemma queueDependencyRestart_facts:
  assumes "to_lower d = d"
  shows "queued (queueDependencyRestart f reason d sm) =
      (if dep_enabled f d then insert d (queued sm) else queued sm)"
    and "same_manager sm (queueDependencyRestart f reason d sm)"
  using assms by (auto simp: queueDependencyRestart_def dep_enabled_def Let_def)

lemma addDependencyRestarts_facts:
  "queued (addDependencyRestarts svc f sm) =
     queued sm \<union> {d \<in> set (deps_of (sm_Dependencies sm) svc). dep_enabled f d}"
  "same_manager sm (addDependencyRestarts svc f sm)"
proof -
  let ?step = "queueDependencyRestart f (ReasonString (service_reason ReasonDependency svc))"
  have "\<forall>d \<in> set ds. to_lower d = d \<Longrightarrow>
      queued (fold ?step ds s) = queued s \<union> {d \<in> set ds. dep_enabled f d} \<and> same_manager s (fold ?step ds s)"
    for ds s
  proof (induction ds arbitrary: s)
    case (Cons d ds)
    then have "queued (fold ?step ds (?step d s)) = queued (?step d s) \<union> {d \<in> set ds. dep_enabled f d}"
      "same_manager (?step d s) (fold ?step ds (?step d s))" by simp_all
    moreover from Cons.prems have "to_lower d = d" by simp
    ultimately show ?case
      using same_manager_trans [OF queueDependencyRestart_facts(2)]
      by (auto simp: queueDependencyRestart_facts(1))
  qed simp
  moreover have "\<forall>d \<in> set (deps_of (sm_Dependencies sm) svc). to_lower d = d"
    by (auto simp: deps_of_def split: option.splits)
  ultimately show "queued (addDependencyRestarts svc f sm) =
     queued sm \<union> {d \<in> set (deps_of (sm_Dependencies sm) svc). dep_enabled f d}"
    "same_manager sm (addDependencyRestarts svc f sm)"
    unfolding addDependencyRestarts_def by blast+
qed

text \<open>The services a successful restart cascades into.\<close>

definition cascade :: "(string \<Rightarrow> string) option \<Rightarrow> 'w ServiceManager \<Rightarrow> string \<Rightarrow> string set" where
  "cascade cl sm svc =
     (case cl of None \<Rightarrow> {} | Some f \<Rightarrow> {d \<in> set (deps_of (sm_Dependencies sm) svc). dep_enabled f d})"

text \<open>The world after the backend has been asked to restart a service.\<close>

definition after_restart :: "'w ServiceManager \<Rightarrow> string \<Rightarrow> 'w \<Rightarrow> 'w" where
  "after_restart sm svc w = snd (be_restart (sm_ctl sm) (to_lower svc) (run_before sm svc w))"

definition restart_error :: "'w ServiceManager \<Rightarrow> string \<Rightarrow> 'w \<Rightarrow> sm_error option" where
  "restart_error sm svc w = fst (be_restart (sm_ctl sm) (to_lower svc) (run_before sm svc w))"

lemma attempt_facts:
  assumes "attemptServiceRestart cl svc st = (ok, st')"
  shows "same_manager (rt_sm st) (rt_sm st')"
    and "rt_world st' = after_restart (rt_sm st) svc (rt_world st)"
    and "\<not> ok \<Longrightarrow> queued (rt_sm st') = queued (rt_sm st)"
    and "ok \<Longrightarrow> queued (rt_sm st') = queued (rt_sm st) - {svc} \<union>
      (if restart_error (rt_sm st) svc (rt_world st) = None then cascade cl (rt_sm st) svc else {})"
    and "restart_error (rt_sm st) svc (rt_world st) = None \<Longrightarrow> ok \<and> rt_failed st' = mdel svc (rt_failed st)"
    and "rt_processed st' = rt_processed st"
proof -
  let ?sm = "rt_sm st" and ?w = "rt_world st"
  obtain e w where r: "be_restart (sm_ctl ?sm) (to_lower svc) (run_before ?sm svc ?w) = (e, w)"
    by (cases "be_restart (sm_ctl ?sm) (to_lower svc) (run_before ?sm svc ?w)")
  have dep: "sm_Dependencies (dequeue svc ?sm) = sm_Dependencies ?sm" by (simp add: dequeue_def)
  have cas: "same_manager ?sm (addDependencyRestarts svc f (dequeue svc ?sm))" for f
    using same_manager_trans [OF dequeue_facts(2) addDependencyRestarts_facts(2)] .
  note defs = attemptServiceRestart_def ControlProcess_def Let_def r
  show "same_manager (rt_sm st) (rt_sm st')" using assms
    by (auto simp: defs cas split: option.splits if_splits)
  show "rt_world st' = after_restart (rt_sm st) svc (rt_world st)" using assms
    by (auto simp: defs after_restart_def split: option.splits if_splits)
  show "\<not> ok \<Longrightarrow> queued (rt_sm st') = queued (rt_sm st)" using assms
    by (auto simp: defs split: option.splits if_splits)
  show "ok \<Longrightarrow> queued (rt_sm st') = queued (rt_sm st) - {svc} \<union>
      (if restart_error (rt_sm st) svc (rt_world st) = None then cascade cl (rt_sm st) svc else {})"
    using assms
    by (auto simp: defs restart_error_def cascade_def addDependencyRestarts_facts dep
        split: option.splits if_splits)
  show "restart_error (rt_sm st) svc (rt_world st) = None \<Longrightarrow> ok \<and> rt_failed st' = mdel svc (rt_failed st)"
    using assms by (auto simp: defs restart_error_def split: option.splits if_splits)
  show "rt_processed st' = rt_processed st"
    using assms by (auto simp: defs split: option.splits if_splits)
qed

end
