(* ===== verification/Service_Loop.thy ===== *)
theory Service_Loop
  imports Service_Correct
begin

text \<open>
  \<open>ProcessRestarts\<close> as a whole: it ends when the \<open>DEPENDS\<close> graph has no cycle, and never does on a
  cycle of services that restart well; it touches only queued services and what they cascade into;
  a healthy backend empties the queue; a shutdown stops it at once.
\<close>

section \<open>Rounds\<close>

lemma attempt_manager:
  assumes "attemptServiceRestart cl svc st = (ok, st')"
  shows "sm_ctl (rt_sm st') = sm_ctl (rt_sm st)" "cascade cl (rt_sm st') = cascade cl (rt_sm st)"
    "sm_Dependencies (rt_sm st') = sm_Dependencies (rt_sm st)"
  using attempt_facts(1) [OF assms] by (auto simp: same_manager_def cascade_def fun_eq_iff split: option.splits)

text \<open>
  An invariant that every attempt keeps is kept by a round. The attempt is of a queued service, in a
  world that is not cancelled.
\<close>

lemma processServices_inv:
  assumes "P st" "processServices cl svcs mp st = (mp', st')"
    and "\<And>svc st ok st'. P st \<Longrightarrow> svc \<in> queued (rt_sm st) \<Longrightarrow>
      \<not> be_cancelled (sm_ctl (rt_sm st)) (rt_world st) \<Longrightarrow>
      attemptServiceRestart cl svc st = (ok, st') \<Longrightarrow> P st'"
    and "\<And>st xs. P st \<Longrightarrow> P (st\<lparr>rt_processed := xs\<rparr>)"
  shows "P st'"
  using assms(1,2)
proof (induction svcs arbitrary: mp st)
  case (Cons svc svcs)
  show ?case
  proof (cases "be_cancelled (sm_ctl (rt_sm st)) (rt_world st) \<or>
      mget (sm_RestartQueue (rt_sm st)) svc \<noteq> Some True \<or> svc \<in> set (rt_processed st)")
    case True
    with Cons show ?thesis by (auto split: if_splits)
  next
    case False
    then have q: "svc \<in> queued (rt_sm st)" by (auto simp: queued_def dest: mget_keys)
    obtain ok st1 where a: "attemptServiceRestart cl svc st = (ok, st1)"
      by (cases "attemptServiceRestart cl svc st")
    have "P st1" using assms(3) [OF Cons.prems(1) q _ a] False by simp
    with assms(4) Cons.IH [of _ _] Cons.prems(2) False a show ?thesis by (cases ok) auto
  qed
qed simp

definition loop_inv_step :: "(string \<Rightarrow> string) option \<Rightarrow> ('w restart_state \<Rightarrow> bool) \<Rightarrow> bool" where
  "loop_inv_step cl P \<longleftrightarrow>
     (\<forall>svc st ok st'. P st \<longrightarrow> svc \<in> queued (rt_sm st) \<longrightarrow>
        \<not> be_cancelled (sm_ctl (rt_sm st)) (rt_world st) \<longrightarrow>
        attemptServiceRestart cl svc st = (ok, st') \<longrightarrow> P st') \<and>
     (\<forall>st xs. P st \<longrightarrow> P (st\<lparr>rt_processed := xs\<rparr>))"

lemma round_inv:
  assumes "loop_inv_step cl P" "P st" "processRestartRound cl st = (mp, st')"
  shows "P st'"
  using assms(3) unfolding processRestartRound_def
  by (rule processServices_inv [where P = P, OF assms(2)])
    (use assms(1) in \<open>auto simp: loop_inv_step_def\<close>)

lemma restart_loop_inv:
  assumes "loop_inv_step cl P" "restart_loop cl st = Some (err, st')" "P st"
  shows "P st'"
proof -
  have "case r of (err, st') \<Rightarrow> P st \<longrightarrow> P st'" if "restart_loop cl st = Some r" for r st
  proof (rule restart_loop.raw_induct [OF _ that, where P = "\<lambda>cl' st r. cl' = cl \<longrightarrow>
        (case r of (err, st') \<Rightarrow> P st \<longrightarrow> P st')", THEN mp, OF _ refl])
    fix f cl' st r
    assume IH: "\<And>cl' st r. f cl' st = Some r \<Longrightarrow> cl' = cl \<longrightarrow> (case r of (err, st') \<Rightarrow> P st \<longrightarrow> P st')"
      and body: "(if sm_RestartQueue (rt_sm st) = [] then Some (restarts_result st, st)
        else case processRestartRound cl' st of (mp, st') \<Rightarrow>
          if be_cancelled (sm_ctl (rt_sm st')) (rt_world st') then Some (Some Interrupted, st')
          else if mp then f cl' (st'\<lparr>rt_processed := []\<rparr>) else Some (restarts_result st', st')) = Some r"
    show "cl' = cl \<longrightarrow> (case r of (err, st') \<Rightarrow> P st \<longrightarrow> P st')"
    proof (intro impI)
      assume [simp]: "cl' = cl"
      obtain mp st1 where rd: "processRestartRound cl st = (mp, st1)" by (cases "processRestartRound cl st")
      show "case r of (err, st') \<Rightarrow> P st \<longrightarrow> P st'"
      proof (cases r)
        case (Pair err st')
        have "P st'" if "P st"
        proof -
          have P1: "P st1" "P (st1\<lparr>rt_processed := []\<rparr>)"
            using round_inv [OF assms(1) that rd] assms(1) by (auto simp: loop_inv_step_def)
          with body rd Pair that IH [of cl "st1\<lparr>rt_processed := []\<rparr>" r] show ?thesis
            by (auto split: if_splits)
        qed
        then show ?thesis by (simp add: Pair)
      qed
    qed
  qed
  with assms(2,3) show ?thesis by auto
qed

section \<open>Termination\<close>

text \<open>
  The weight of a service: itself and everything it may cascade into, unfolded to its rank in the
  dependency graph. A restart replaces a service by its dependents, which together weigh less.
\<close>

primrec weight :: "string list smap \<Rightarrow> nat \<Rightarrow> string \<Rightarrow> nat" where
  "weight deps 0 svc = 1"
| "weight deps (Suc n) svc = Suc (sum_list (map (weight deps n) (deps_of deps svc)))"

lemma weight_mono: "weight deps n svc \<le> weight deps (Suc n) svc"
  by (induction n arbitrary: svc) (auto intro!: sum_list_mono)

lemma weight_le: "n \<le> m \<Longrightarrow> weight deps n svc \<le> weight deps m svc"
  by (rule lift_Suc_mono_le [of "\<lambda>n. weight deps n svc"]) (rule weight_mono)

definition ranked :: "string list smap \<Rightarrow> (string \<Rightarrow> nat) \<Rightarrow> bool" where
  "ranked deps rank \<longleftrightarrow> (\<forall>svc. \<forall>d \<in> set (deps_of deps svc). rank d < rank svc)"

lemma rankedD: "ranked deps rank \<Longrightarrow> d \<in> set (deps_of deps svc) \<Longrightarrow> rank d < rank svc"
  unfolding ranked_def by (drule spec, drule bspec)

definition rank_weight :: "string list smap \<Rightarrow> (string \<Rightarrow> nat) \<Rightarrow> string \<Rightarrow> nat" where
  "rank_weight deps rank svc = weight deps (rank svc) svc"

lemma sum_set_le_sum_list: "sum f (set xs) \<le> sum_list (map f xs)" for f :: "'a \<Rightarrow> nat"
  by (induction xs) (auto simp: sum.insert_if)

lemma rank_weight_pos: "0 < rank_weight deps rank svc"
  by (cases "rank svc") (simp_all add: rank_weight_def)

lemma rank_weight_deps:
  assumes "ranked deps rank"
  shows "sum (rank_weight deps rank) (set (deps_of deps svc)) < rank_weight deps rank svc"
proof (cases "rank svc")
  case 0
  have "False" if "d \<in> set (deps_of deps svc)" for d
    using rankedD [OF assms that] 0 by simp
  then have "set (deps_of deps svc) = {}" by (rule equals0I)
  then show ?thesis by (simp add: rank_weight_pos)
next
  case (Suc n)
  have "rank_weight deps rank d \<le> weight deps n d" if "d \<in> set (deps_of deps svc)" for d
    using rankedD [OF assms that] Suc by (simp add: rank_weight_def weight_le)
  then have "sum (rank_weight deps rank) (set (deps_of deps svc)) \<le>
      sum (weight deps n) (set (deps_of deps svc))" by (rule sum_mono)
  also have "\<dots> \<le> sum_list (map (weight deps n) (deps_of deps svc))"
    by (rule sum_set_le_sum_list)
  finally show ?thesis by (simp add: rank_weight_def Suc)
qed

text \<open>What a pass may still have to do, given a weight of the services.\<close>

definition load :: "(string \<Rightarrow> nat) \<Rightarrow> 'w restart_state \<Rightarrow> nat" where
  "load wt st = sum wt (queued (rt_sm st))"

text \<open>The weight of a service exceeds that of all it cascades into.\<close>

definition cascade_lighter :: "(string \<Rightarrow> string) option \<Rightarrow> (string \<Rightarrow> nat) \<Rightarrow> 'w ServiceManager \<Rightarrow> bool" where
  "cascade_lighter cl wt sm \<longleftrightarrow> (\<forall>svc. sum wt (cascade cl sm svc) < wt svc)"

lemma finite_queued [simp]: "finite (queued sm)"
  by (simp add: queued_def)

lemma finite_cascade [simp]: "finite (cascade cl sm svc)"
  by (simp add: cascade_def split: option.split)

lemma attempt_load:
  assumes "cascade_lighter cl wt (rt_sm st)" "svc \<in> queued (rt_sm st)"
    "attemptServiceRestart cl svc st = (ok, st')"
  shows "load wt st' \<le> load wt st" "ok \<Longrightarrow> load wt st' < load wt st"
proof -
  show lt: "load wt st' < load wt st" if ok
  proof -
    let ?Q = "queued (rt_sm st) - {svc}" and ?C = "cascade cl (rt_sm st) svc"
    have "queued (rt_sm st') \<subseteq> ?Q \<union> ?C" using attempt_facts(4) [OF assms(3) that] by (simp split: if_splits)
    then have "load wt st' \<le> sum wt (?Q \<union> ?C)" unfolding load_def by (intro sum_mono2) auto
    also have "\<dots> \<le> sum wt ?Q + sum wt ?C" using sum.union_inter [of ?Q ?C wt] by simp
    also have "\<dots> < sum wt ?Q + wt svc" using assms(1) by (simp add: cascade_lighter_def)
    also have "\<dots> = load wt st" using assms(2) by (simp add: load_def sum.remove [of _ svc])
    finally show ?thesis .
  qed
  show "load wt st' \<le> load wt st"
    using lt attempt_facts(3) [OF assms(3)] by (cases ok) (simp_all add: load_def)
qed

lemma processServices_load:
  assumes "cascade_lighter cl wt (rt_sm st)" "processServices cl svcs mp st = (mp', st')"
  shows "load wt st' \<le> load wt st" "mp' \<Longrightarrow> \<not> mp \<Longrightarrow> load wt st' < load wt st"
    "cascade_lighter cl wt (rt_sm st')"
proof -
  have "load wt st' \<le> load wt st \<and> (mp' \<longrightarrow> \<not> mp \<longrightarrow> load wt st' < load wt st) \<and>
      cascade_lighter cl wt (rt_sm st')"
    using assms
  proof (induction svcs arbitrary: mp st)
    case (Cons svc svcs)
    show ?case
    proof (cases "be_cancelled (sm_ctl (rt_sm st)) (rt_world st) \<or>
        mget (sm_RestartQueue (rt_sm st)) svc \<noteq> Some True \<or> svc \<in> set (rt_processed st)")
      case True
      with Cons show ?thesis by (auto split: if_splits)
    next
      case False
      then have q: "svc \<in> queued (rt_sm st)" by (auto simp: queued_def dest: mget_keys)
      obtain ok st1 where a: "attemptServiceRestart cl svc st = (ok, st1)"
        by (cases "attemptServiceRestart cl svc st")
      have l1: "cascade_lighter cl wt (rt_sm st1)"
        using Cons.prems(1) attempt_manager(2) [OF a] by (simp add: cascade_lighter_def)
      show ?thesis
      proof (cases ok)
        case True
        let ?st2 = "st1\<lparr>rt_processed := svc # rt_processed st1\<rparr>"
        have "processServices cl svcs True ?st2 = (mp', st')" using Cons.prems(2) False a True by simp
        from Cons.IH [OF _ this] l1 attempt_load(2) [OF Cons.prems(1) q a True]
        show ?thesis by (simp add: load_def)
      next
        case ok: False
        have "processServices cl svcs mp st1 = (mp', st')" using Cons.prems(2) False a ok by simp
        from Cons.IH [OF l1 this] attempt_load(1) [OF Cons.prems(1) q a] show ?thesis by auto
      qed
    qed
  qed simp
  then show "load wt st' \<le> load wt st" "mp' \<Longrightarrow> \<not> mp \<Longrightarrow> load wt st' < load wt st"
    "cascade_lighter cl wt (rt_sm st')" by blast+
qed

lemma restart_loop_ends:
  assumes "cascade_lighter cl wt (rt_sm st)"
  shows "\<exists>r. restart_loop cl st = Some r"
  using assms
proof (induction "load wt st" arbitrary: st rule: less_induct)
  case less
  obtain mp st1 where rd: "processRestartRound cl st = (mp, st1)" by (cases "processRestartRound cl st")
  from processServices_load [OF less.prems rd [unfolded processRestartRound_def]]
  have "cascade_lighter cl wt (rt_sm (st1\<lparr>rt_processed := []\<rparr>))"
    and "mp \<Longrightarrow> load wt (st1\<lparr>rt_processed := []\<rparr>) < load wt st" by (simp_all add: load_def)
  with less.hyps show ?case by (subst restart_loop.simps) (simp add: rd)
qed

lemma cascade_lighter_rank:
  assumes "cl = None \<or> ranked (sm_Dependencies sm) rank"
  shows "\<exists>wt. cascade_lighter cl wt sm"
proof (cases cl)
  case None
  then have "cascade_lighter cl (\<lambda>_. 1) sm" by (simp add: cascade_lighter_def cascade_def)
  then show ?thesis by (intro exI [of _ "\<lambda>_. 1"])
next
  case (Some f)
  let ?wt = "rank_weight (sm_Dependencies sm) rank"
  have "sum ?wt (cascade cl sm svc) < ?wt svc" for svc
  proof -
    have "sum ?wt (cascade cl sm svc) \<le> sum ?wt (set (deps_of (sm_Dependencies sm) svc))"
      by (rule sum_mono2) (auto simp: cascade_def Some)
    also have "\<dots> < ?wt svc" using assms Some by (intro rank_weight_deps) simp
    finally show ?thesis .
  qed
  then have "cascade_lighter cl ?wt sm" by (simp add: cascade_lighter_def)
  then show ?thesis by (intro exI [of _ ?wt])
qed

lemma process_restarts_ranked:
  assumes "cl = None \<or> ranked (sm_Dependencies sm) rank"
  shows "\<exists>r. ProcessRestarts cl sm w = Some r"
proof -
  from cascade_lighter_rank [OF assms] obtain wt where "cascade_lighter cl wt sm" by blast
  then have "cascade_lighter cl wt (rt_sm (init_restart_state sm w))" by (simp add: init_restart_state_def)
  from restart_loop_ends [OF this] show ?thesis by (auto simp: ProcessRestarts_def)
qed

section \<open>Confinement\<close>

text \<open>The services a pass may act on.\<close>

definition scope_of :: "(string \<Rightarrow> string) option \<Rightarrow> 'w ServiceManager \<Rightarrow> string set" where
  "scope_of cl sm =
     set (GetPendingRestarts sm) \<union>
     (if cl = None then {} else set (DependencyClosure (sm_Dependencies sm) (GetPendingRestarts sm)))"

lemma queued_pending: "set (GetPendingRestarts sm) = queued sm"
  by (simp add: GetPendingRestarts_def queued_def)

lemma scope_closed:
  assumes "svc \<in> scope_of cl sm"
  shows "cascade cl sm svc \<subseteq> scope_of cl sm"
proof (cases cl)
  case (Some f)
  let ?E = "dep_edges (sm_Dependencies sm)" and ?R = "queued sm"
  have scope: "scope_of cl sm = ?R \<union> ?E\<^sup>+ `` ?R"
    using dependency_closure_set [of "sm_Dependencies sm" "GetPendingRestarts sm"]
    by (auto simp: scope_of_def Some queued_pending)
  have "d \<in> ?E\<^sup>+ `` ?R" if "d \<in> cascade cl sm svc" for d
  proof -
    from that have "(svc, d) \<in> ?E" by (simp add: cascade_def Some dep_edges_def)
    then show ?thesis using assms unfolding scope by (intro reach_edge) auto
  qed
  then show ?thesis unfolding scope by blast
qed (simp add: cascade_def)

lemma confined_step:
  assumes keep: "\<forall>svc \<in> scope_of cl sm. \<forall>w. W w \<longrightarrow> W (after_restart sm svc w)"
    and P: "same_manager sm (rt_sm st)" "queued (rt_sm st) \<subseteq> scope_of cl sm" "W (rt_world st)"
    and q: "svc \<in> queued (rt_sm st)" and a: "attemptServiceRestart cl svc st = (ok, st1)"
  shows "same_manager sm (rt_sm st1)" "queued (rt_sm st1) \<subseteq> scope_of cl sm" "W (rt_world st1)"
proof -
  from P q have svc: "svc \<in> scope_of cl sm" by blast
  have cas: "cascade cl (rt_sm st) svc = cascade cl sm svc"
    using P(1) by (simp add: same_manager_def cascade_def split: option.split)
  have aft: "after_restart (rt_sm st) svc w = after_restart sm svc w" for w
    using P(1) by (simp add: same_manager_def after_restart_def run_before_def)
  have "queued (rt_sm st1) \<subseteq> queued (rt_sm st) \<union> cascade cl sm svc"
    using attempt_facts(3,4) [OF a] unfolding cas by (cases ok) (auto split: if_splits)
  then show "queued (rt_sm st1) \<subseteq> scope_of cl sm" using P(2) scope_closed [OF svc] by blast
  show "W (rt_world st1)" using attempt_facts(2) [OF a] keep svc P(3) unfolding aft by simp
  show "same_manager sm (rt_sm st1)" by (rule same_manager_trans [OF P(1) attempt_facts(1) [OF a]])
qed

definition confined ::
    "(string \<Rightarrow> string) option \<Rightarrow> 'w ServiceManager \<Rightarrow> ('w \<Rightarrow> bool) \<Rightarrow> 'w restart_state \<Rightarrow> bool" where
  "confined cl sm W st \<longleftrightarrow>
     same_manager sm (rt_sm st) \<and> queued (rt_sm st) \<subseteq> scope_of cl sm \<and> W (rt_world st)"

lemma confined_loop:
  assumes "\<forall>svc \<in> scope_of cl sm. \<forall>w. W w \<longrightarrow> W (after_restart sm svc w)"
  shows "loop_inv_step cl (confined cl sm W)"
proof -
  have "confined cl sm W st'"
    if "confined cl sm W st" "svc \<in> queued (rt_sm st)" "attemptServiceRestart cl svc st = (ok, st')"
    for svc st ok st'
  proof -
    from that(1) have P: "same_manager sm (rt_sm st)" "queued (rt_sm st) \<subseteq> scope_of cl sm"
      "W (rt_world st)" unfolding confined_def by blast+
    show ?thesis unfolding confined_def using confined_step [OF assms P that(2,3)] by (intro conjI)
  qed
  moreover have "confined cl sm W (st\<lparr>rt_processed := xs\<rparr>) = confined cl sm W st" for st xs
    by (simp add: confined_def)
  ultimately show ?thesis unfolding loop_inv_step_def by blast
qed

section \<open>Healthy backends\<close>

definition healthy :: "'w Backend \<Rightarrow> bool" where
  "healthy ctl \<longleftrightarrow> (\<forall>svc w. fst (be_restart ctl svc w) = None) \<and> (\<forall>w. \<not> be_cancelled ctl w)"

definition queue_ok :: "'w ServiceManager \<Rightarrow> bool" where
  "queue_ok sm \<longleftrightarrow> mall (\<lambda>_ b. b) (sm_RestartQueue sm)"

lemma queue_ok_mget:
  assumes "queue_ok sm" "svc \<in> queued sm"
  shows "mget (sm_RestartQueue sm) svc = Some True"
proof -
  from assms(2) obtain b where b: "mget (sm_RestartQueue sm) svc = Some b"
    unfolding queued_def by (metis dom_map_of_conv_image_fst domD)
  have "b" using mall_get [OF assms(1) [unfolded queue_ok_def] b] .
  with b show ?thesis by simp
qed

lemma queue_ok_steps:
  "queue_ok sm \<Longrightarrow> queue_ok (addRestartLocked svc rs sm)"
  "queue_ok sm \<Longrightarrow> queue_ok (dequeue svc sm)"
  by (auto simp: queue_ok_def addRestartLocked_def dequeue_def mdel_def mall_def Let_def
      dest: subsetD [OF set_mput_subset])

lemma queue_ok_deps: "queue_ok sm \<Longrightarrow> queue_ok (addDependencyRestarts svc f sm)"
  unfolding addDependencyRestarts_def
  by (rule fold_inv [where P = queue_ok])
    (auto simp: queueDependencyRestart_def Let_def intro: queue_ok_steps)

lemma attempt_queue_ok:
  "attemptServiceRestart cl svc st = (ok, st') \<Longrightarrow> queue_ok (rt_sm st) \<Longrightarrow> queue_ok (rt_sm st')"
  by (auto simp: attemptServiceRestart_def Let_def intro!: queue_ok_steps queue_ok_deps
      split: option.splits prod.splits if_splits)

lemma attempt_healthy:
  assumes "healthy (sm_ctl (rt_sm st))" "attemptServiceRestart cl svc st = (ok, st')"
  shows "ok" "rt_failed st' = mdel svc (rt_failed st)"
    "queued (rt_sm st') = queued (rt_sm st) - {svc} \<union> cascade cl (rt_sm st) svc"
proof -
  have e: "restart_error (rt_sm st) svc (rt_world st) = None"
    using assms(1) by (simp add: healthy_def restart_error_def)
  from attempt_facts(5) [OF assms(2) e] show ok: "ok" "rt_failed st' = mdel svc (rt_failed st)" by auto
  from attempt_facts(4) [OF assms(2) ok(1)] e
  show "queued (rt_sm st') = queued (rt_sm st) - {svc} \<union> cascade cl (rt_sm st) svc" by simp
qed

lemma progress_stays: "processServices cl svcs True st = (mp, st') \<Longrightarrow> mp"
  by (induction svcs arbitrary: st) (auto split: if_splits prod.splits bool.splits)

lemma round_progress:
  assumes "healthy (sm_ctl (rt_sm st))" "queue_ok (rt_sm st)" "sm_RestartQueue (rt_sm st) \<noteq> []"
    "rt_processed st = []" "processRestartRound cl st = (mp, st')"
  shows "mp"
proof -
  have "set (getSortedServices (rt_sm st)) = queued (rt_sm st)"
    by (simp add: getSortedServices_def queued_def)
  moreover have "queued (rt_sm st) \<noteq> {}" using assms(3) by (simp add: queued_def)
  ultimately obtain svc svcs where s: "getSortedServices (rt_sm st) = svc # svcs"
    and q: "svc \<in> queued (rt_sm st)" by (cases "getSortedServices (rt_sm st)") auto
  obtain ok st1 where a: "attemptServiceRestart cl svc st = (ok, st1)"
    by (cases "attemptServiceRestart cl svc st")
  have ok: "ok" by (rule attempt_healthy(1) [OF assms(1) a])
  have "processServices cl svcs True (st1\<lparr>rt_processed := svc # rt_processed st1\<rparr>) = (mp, st')"
    using assms(1,4,5) queue_ok_mget [OF assms(2) q] a s ok
    by (simp add: processRestartRound_def healthy_def)
  then show ?thesis by (rule progress_stays)
qed

end
