(* ===== verification/Service_Results.thy ===== *)
theory Service_Results
  imports Service_Loop
begin

text \<open>
  The outcomes of \<open>ProcessRestarts\<close>, and concrete backends on which the properties of the service
  manager are evaluated: the world of these backends is the list of the services they were asked to
  restart.
\<close>

section \<open>A logging backend\<close>

definition log_backend :: "string list \<Rightarrow> nat \<Rightarrow> string list Backend" where
  "log_backend bad limit =
     \<lparr>be_start = \<lambda>svc w. (None, w), be_stop = \<lambda>svc w. (None, w),
      be_restart = \<lambda>svc w. (if svc \<in> set bad then Some (BackendError svc) else None, w @ [svc]),
      be_status = \<lambda>svc w. (Inr True, w), be_lookup = \<lambda>svc. None,
      be_cancelled = \<lambda>w. limit \<le> length w, be_host = None\<rparr>"

definition log_manager :: "string list \<Rightarrow> nat \<Rightarrow> string list ServiceManager" where
  "log_manager bad limit =
     (NewServiceManager (log_backend bad limit))
       \<lparr>sm_RestartQueue := [(''amavis'', True), (''antivirus'', True)],
        sm_Dependencies := [(''amavis'', [''mta'']), (''antivirus'', [''amavis''])]\<rparr>"

definition all_enabled :: "string \<Rightarrow> string" where
  "all_enabled key = ''TRUE''"

definition ex_rank :: "string \<Rightarrow> nat" where
  "ex_rank svc = (if svc = ''antivirus'' then 2 else if svc = ''amavis'' then 1 else 0)"

lemma log_manager_ranked: "ranked (sm_Dependencies (log_manager bad limit)) ex_rank"
proof -
  have "to_lower ''mta'' = ''mta''" "to_lower ''amavis'' = ''amavis''" by code_simp+
  then show ?thesis
    by (simp add: ranked_def log_manager_def deps_of_def ex_rank_def)
qed

section \<open>Termination and confinement\<close>



text \<open>C22: A restart pass touches only the queued services and, where it cascades, their dependency
  closure: whatever holds of the world and is kept by restarting any of these services still holds
  after the pass, and the services left in the queue are among them.\<close>

theorem restarts_confined:
  assumes "ProcessRestarts cl sm w = Some (err, sm', w')" "W w"
    and "\<forall>svc \<in> scope_of cl sm. \<forall>w. W w \<longrightarrow> W (after_restart sm svc w)"
  shows "W w' \<and> set (GetPendingRestarts sm') \<subseteq> scope_of cl sm"
proof (cases "sm_DisableRestarts sm")
  case True
  with assms show ?thesis by (auto simp: ProcessRestarts_def ClearRestarts_def GetPendingRestarts_def)
next
  case False
  from assms(1) False obtain st' where loop: "restart_loop cl (init_restart_state sm w) = Some (err, st')"
    and st': "sm' = rt_sm st'" "w' = rt_world st'" by (auto simp: ProcessRestarts_def)
  have "confined cl sm W (init_restart_state sm w)"
    using assms(2) by (simp add: confined_def init_restart_state_def scope_of_def queued_pending)
  from restart_loop_inv [OF confined_loop [OF assms(3)] loop this] show ?thesis
    by (simp add: confined_def st' queued_pending)
qed

theorem restarts_confined_witness:
  "let sm = log_manager [''mta''] 9 in
   \<exists>err sm' w'. ProcessRestarts (Some all_enabled) sm [] = Some (err, sm', w') \<and>
     set w' \<subseteq> {''amavis'', ''antivirus'', ''mta''}"
proof -
  let ?sm = "log_manager [''mta''] 9"
  let ?W = "\<lambda>w. set w \<subseteq> {''amavis'', ''antivirus'', ''mta''}"
  have "ProcessRestarts (Some all_enabled) ?sm [] \<noteq> None"
    using process_restarts_ranked [of "Some all_enabled" ?sm ex_rank "[]"] log_manager_ranked by blast
  then obtain err sm' w' where r: "ProcessRestarts (Some all_enabled) ?sm [] = Some (err, sm', w')"
    by (cases "ProcessRestarts (Some all_enabled) ?sm []") auto
  have "set (GetPendingRestarts ?sm) = {''amavis'', ''antivirus''}"
    "DependencyClosure (sm_Dependencies ?sm) (GetPendingRestarts ?sm) = [''mta'']" by code_simp+
  then have scope: "scope_of (Some all_enabled) ?sm = {''amavis'', ''antivirus'', ''mta''}"
    by (auto simp: scope_of_def)
  have low: "to_lower ''amavis'' = ''amavis''" "to_lower ''antivirus'' = ''antivirus''"
    "to_lower ''mta'' = ''mta''" by code_simp+
  have "\<forall>svc \<in> scope_of (Some all_enabled) ?sm. \<forall>w. ?W w \<longrightarrow> ?W (after_restart ?sm svc w)"
    unfolding scope
    by (simp add: low after_restart_def log_manager_def NewServiceManager_def log_backend_def run_before_def)
  from restarts_confined [OF r _ this] r show ?thesis by simp
qed

section \<open>Success\<close>

definition ready :: "'w restart_state \<Rightarrow> bool" where
  "ready st \<longleftrightarrow> healthy (sm_ctl (rt_sm st)) \<and> queue_ok (rt_sm st) \<and> rt_failed st = []"

lemma ready_loop: "loop_inv_step cl ready"
  unfolding loop_inv_step_def ready_def
  by (auto simp: attempt_manager(1) attempt_queue_ok attempt_healthy(2) mdel_def)

lemma ready_loop_result:
  assumes "restart_loop cl st = Some r" "ready st" "rt_processed st = []"
  shows "fst r = None \<and> queued (rt_sm (snd r)) = {}"
proof (rule restart_loop.raw_induct [OF _ assms(1), where P = "\<lambda>cl st r. ready st \<longrightarrow>
    rt_processed st = [] \<longrightarrow> fst r = None \<and> queued (rt_sm (snd r)) = {}", THEN mp, THEN mp, OF _ assms(2,3)])
  fix f cl and st :: "'a restart_state" and r
  assume IH: "\<And>cl st r. f cl st = Some r \<Longrightarrow> ready st \<longrightarrow> rt_processed st = [] \<longrightarrow>
      fst r = None \<and> queued (rt_sm (snd r)) = {}"
    and body: "(if sm_RestartQueue (rt_sm st) = [] then Some (restarts_result st, st)
      else case processRestartRound cl st of (mp, st') \<Rightarrow>
        if be_cancelled (sm_ctl (rt_sm st')) (rt_world st') then Some (Some Interrupted, st')
        else if mp then f cl (st'\<lparr>rt_processed := []\<rparr>) else Some (restarts_result st', st')) = Some r"
  show "ready st \<longrightarrow> rt_processed st = [] \<longrightarrow> fst r = None \<and> queued (rt_sm (snd r)) = {}"
  proof (intro impI)
    assume ready: "ready st" and proc: "rt_processed st = []"
    obtain mp st1 where rd: "processRestartRound cl st = (mp, st1)" by (cases "processRestartRound cl st")
    show "fst r = None \<and> queued (rt_sm (snd r)) = {}"
    proof (cases "sm_RestartQueue (rt_sm st) = []")
      case True
      with body ready have "r = (None, st)"
        by (simp add: restarts_result_def unrecovered_def ready_def)
      with True show ?thesis by (simp add: queued_def)
    next
      case False
      have "ready st1" by (rule round_inv [OF ready_loop ready rd])
      then have "\<not> be_cancelled (sm_ctl (rt_sm st1)) (rt_world st1)" "ready (st1\<lparr>rt_processed := []\<rparr>)"
        by (simp_all add: ready_def healthy_def)
      moreover have mp by (rule round_progress [OF _ _ False proc rd]) (use ready in \<open>simp_all add: ready_def\<close>)
      ultimately show ?thesis using body False rd IH [of cl "st1\<lparr>rt_processed := []\<rparr>" r] by simp
    qed
  qed
qed

text \<open>C21: With a backend that restarts every service it is asked to and no shutdown, a pass that ends
  by the ranking above succeeds: it returns no error and leaves nothing in the queue.\<close>

theorem healthy_pass_empties_queue:
  assumes "healthy (sm_ctl sm)" "queue_ok sm" "cl = None \<or> ranked (sm_Dependencies sm) rank"
  shows "\<exists>sm' w'. ProcessRestarts cl sm w = Some (None, sm', w') \<and> GetPendingRestarts sm' = []"
proof (cases "sm_DisableRestarts sm")
  case True
  then show ?thesis by (simp add: ProcessRestarts_def ClearRestarts_def GetPendingRestarts_def)
next
  case False
  let ?st = "init_restart_state sm w"
  from cascade_lighter_rank [OF assms(3)] obtain wt where "cascade_lighter cl wt (rt_sm ?st)"
    by (auto simp: init_restart_state_def)
  from restart_loop_ends [OF this] obtain err st' where r: "restart_loop cl ?st = Some (err, st')" by auto
  have "ready ?st" "rt_processed ?st = []"
    using assms(1,2) by (simp_all add: ready_def init_restart_state_def)
  from ready_loop_result [OF r this] have "err = None" "set (GetPendingRestarts (rt_sm st')) = {}"
    by (simp_all add: queued_pending)
  with r False show ?thesis by (simp add: ProcessRestarts_def)
qed

definition healthy_backend :: "string list Backend" where
  "healthy_backend = (log_backend [] 0)\<lparr>be_cancelled := \<lambda>w. False\<rparr>"

definition healthy_manager :: "string list ServiceManager" where
  "healthy_manager = (log_manager [] 0)\<lparr>sm_ctl := healthy_backend\<rparr>"

lemma healthy_manager_facts:
  "healthy (sm_ctl healthy_manager)" "queue_ok healthy_manager"
  "ranked (sm_Dependencies healthy_manager) ex_rank"
  using log_manager_ranked [of "[]" 0]
  by (simp_all add: healthy_def healthy_manager_def healthy_backend_def log_backend_def queue_ok_def
      mall_def log_manager_def)

theorem healthy_pass_empties_queue_witness:
  "healthy (sm_ctl healthy_manager) \<and> queue_ok healthy_manager \<and>
   (\<exists>sm' w'. ProcessRestarts (Some all_enabled) healthy_manager [] = Some (None, sm', w') \<and>
      GetPendingRestarts sm' = [])"
  using healthy_pass_empties_queue [OF healthy_manager_facts(1,2), of "Some all_enabled" ex_rank "[]"]
    healthy_manager_facts by blast

section \<open>Failure\<close>

text \<open>A service that fails alone is tried once per pass, not up to the limit of three: with only
  that service queued, a limit above one and no shutdown, the pass makes a single attempt, reports
  the service as failed and leaves the queue and its reasons as they were.\<close>

theorem lone_failure_tried_once:
  assumes "sm_RestartQueue sm = [(svc, True)]" "\<not> sm_DisableRestarts sm" "1 < sm_MaxFailedRestarts sm"
    and "restart_error sm svc w = Some e" "\<not> be_cancelled (sm_ctl sm) w"
    and "\<not> be_cancelled (sm_ctl sm) (after_restart sm svc w)"
  shows "ProcessRestarts cl sm w = Some (Some (RestartsFailed [svc]), sm, after_restart sm svc w)"
proof -
  obtain w1 where r: "be_restart (sm_ctl sm) (to_lower svc) (run_before sm svc w) = (Some e, w1)"
    using assms(4) by (cases "be_restart (sm_ctl sm) (to_lower svc) (run_before sm svc w)")
      (simp add: restart_error_def)
  have w1: "w1 = after_restart sm svc w" by (simp add: after_restart_def r)
  have "getSortedServices sm = [svc]" by (simp add: getSortedServices_def assms(1))
  then have "processRestartRound cl (init_restart_state sm w) =
      (False, (init_restart_state sm w)\<lparr>rt_failed := [(svc, 1)], rt_world := w1\<rparr>)"
    using assms(1,3,5,6)
    by (simp add: processRestartRound_def init_restart_state_def attemptServiceRestart_def
        ControlProcess_def r w1 failures_of_def)
  then show ?thesis
    using assms(1,2,6)
    by (simp add: ProcessRestarts_def restart_loop.simps init_restart_state_def restarts_result_def
        unrecovered_def w1)
qed

definition lone_manager :: "string list ServiceManager" where
  "lone_manager = (log_manager [''amavis''] 9)\<lparr>sm_RestartQueue := [(''amavis'', True)]\<rparr>"

theorem lone_failure_tried_once_witness:
  "sm_MaxFailedRestarts lone_manager = 3 \<and>
   ProcessRestarts None lone_manager [] =
     Some (Some (RestartsFailed [''amavis'']), lone_manager, [''amavis''])"
proof -
  have 1: "sm_RestartQueue lone_manager = [(''amavis'', True)]" "\<not> sm_DisableRestarts lone_manager"
    "sm_MaxFailedRestarts lone_manager = 3"
    by (simp_all add: lone_manager_def log_manager_def NewServiceManager_def)
  have 2: "after_restart lone_manager ''amavis'' [] = [''amavis'']"
    "restart_error lone_manager ''amavis'' [] = Some (BackendError ''amavis'')" by code_simp+
  have 3: "\<not> be_cancelled (sm_ctl lone_manager) []" "\<not> be_cancelled (sm_ctl lone_manager) [''amavis'']"
    by (simp_all add: lone_manager_def log_manager_def NewServiceManager_def log_backend_def)
  from lone_failure_tried_once [OF 1(1,2) _ 2(2) 3(1), of None] 1(3) 2(1) 3(2) show ?thesis by simp
qed

definition cycling :: "(string \<Rightarrow> string) option \<Rightarrow> 'w ServiceManager \<Rightarrow> string set \<Rightarrow> 'w restart_state \<Rightarrow> bool" where
  "cycling cl sm C st \<longleftrightarrow> ready st \<and> cascade cl (rt_sm st) = cascade cl sm \<and> queued (rt_sm st) \<inter> C \<noteq> {}"

lemma cycling_loop:
  assumes "\<forall>c \<in> C. cascade cl sm c \<inter> C \<noteq> {}"
  shows "loop_inv_step cl (cycling cl sm C)"
proof -
  have "cycling cl sm C st'"
    if "cycling cl sm C st" and a: "attemptServiceRestart cl s st = (ok, st')" for s st ok st'
  proof -
    from that(1) have r: "ready st" and cas: "cascade cl (rt_sm st) = cascade cl sm"
      and q: "queued (rt_sm st) \<inter> C \<noteq> {}" unfolding cycling_def by blast+
    from r have h: "healthy (sm_ctl (rt_sm st))" by (simp add: ready_def)
    have "queued (rt_sm st') = queued (rt_sm st) - {s} \<union> cascade cl sm s"
      using attempt_healthy(3) [OF h a] unfolding cas .
    then have "queued (rt_sm st') \<inter> C \<noteq> {}" using q assms by (cases "s \<in> C") blast+
    moreover have "ready st'" using r attempt_healthy(2) [OF h a] attempt_queue_ok [OF a]
      by (simp add: ready_def attempt_manager(1) [OF a] mdel_def)
    ultimately show ?thesis unfolding cycling_def attempt_manager(2) [OF a] using cas by blast
  qed
  moreover have "cycling cl sm C (st\<lparr>rt_processed := xs\<rparr>) = cycling cl sm C st" for st xs
    by (simp add: cycling_def ready_def)
  ultimately show ?thesis unfolding loop_inv_step_def by blast
qed

text \<open>C40: A pass with a cycle in \<open>DEPENDS\<close> never returns: if every restart succeeds, there is no
  shutdown, and a queued service belongs to a set of services each of which cascades into another
  of the set, the loop runs forever.\<close>

theorem depends_cycle_never_returns:
  assumes "healthy (sm_ctl sm)" "queue_ok sm" "\<not> sm_DisableRestarts sm"
    and "svc \<in> queued sm" "svc \<in> C" "\<forall>c \<in> C. cascade cl sm c \<inter> C \<noteq> {}"
  shows "ProcessRestarts cl sm w = None"
proof -
  let ?st = "init_restart_state sm w"
  have start: "cycling cl sm C ?st" "ready ?st" "rt_processed ?st = []"
    using assms(1,2,4,5) by (auto simp: cycling_def ready_def init_restart_state_def)
  have "restart_loop cl ?st = None"
  proof (cases "restart_loop cl ?st")
    case (Some r)
    then have some: "restart_loop cl ?st = Some (fst r, snd r)" by simp
    from restart_loop_inv [OF cycling_loop [OF assms(6)] some start(1)]
    have "queued (rt_sm (snd r)) \<noteq> {}" by (auto simp: cycling_def)
    with ready_loop_result [OF Some start(2,3)] show ?thesis by simp
  qed
  with assms(3) show ?thesis by (simp add: ProcessRestarts_def)
qed

definition cycle_manager :: "string list ServiceManager" where
  "cycle_manager = healthy_manager\<lparr>sm_Dependencies := [(''amavis'', [''mta'']), (''mta'', [''amavis''])]\<rparr>"

theorem depends_cycle_never_returns_witness:
  "healthy (sm_ctl cycle_manager) \<and> ProcessRestarts (Some all_enabled) cycle_manager [] = None"
proof -
  have 1: "healthy (sm_ctl cycle_manager)" "queue_ok cycle_manager" "\<not> sm_DisableRestarts cycle_manager"
    "''amavis'' \<in> queued cycle_manager"
    using healthy_manager_facts(1)
    by (simp_all add: cycle_manager_def healthy_manager_def log_manager_def NewServiceManager_def
        queue_ok_def mall_def queued_def)
  have 2: "''mta'' \<in> cascade (Some all_enabled) cycle_manager ''amavis''"
    "''amavis'' \<in> cascade (Some all_enabled) cycle_manager ''mta''" by code_simp+
  have "\<forall>c \<in> {''amavis'', ''mta''}. cascade (Some all_enabled) cycle_manager c \<inter> {''amavis'', ''mta''} \<noteq> {}"
    using 2 by blast
  from depends_cycle_never_returns [OF 1 _ this] 1(1) show ?thesis by simp
qed

section \<open>Shutdown\<close>

text \<open>A pass that starts after a shutdown acts on nothing: it reports the interruption, and the
  queue and the world are untouched.\<close>

theorem cancelled_pass_acts_on_nothing:
  assumes "be_cancelled (sm_ctl sm) w" "sm_RestartQueue sm \<noteq> []" "\<not> sm_DisableRestarts sm"
  shows "ProcessRestarts cl sm w = Some (Some Interrupted, sm, w)"
proof -
  have "processRestartRound cl (init_restart_state sm w) = (False, init_restart_state sm w)"
    using assms(1) unfolding processRestartRound_def
    by (cases "getSortedServices (rt_sm (init_restart_state sm w))") (simp_all add: init_restart_state_def)
  with assms show ?thesis
    by (simp add: ProcessRestarts_def restart_loop.simps [of cl "init_restart_state sm w"])
      (simp add: init_restart_state_def)
qed

theorem cancelled_pass_acts_on_nothing_witness:
  "ProcessRestarts None (log_manager [] 0) [] = Some (Some Interrupted, log_manager [] 0, [])"
  by (rule cancelled_pass_acts_on_nothing)
    (simp_all add: log_manager_def NewServiceManager_def log_backend_def)

end
