(* ===== verification/Policy_Correct.thy ===== *)
theory Policy_Correct
  imports Restart_Policy Service_Results
begin

text \<open>
  The restart policy: on a legacy host every request reaches the restart queue, on a systemd host no
  heavy service is restarted and a failing action is tried three times, debounced requests wait for
  their quiet period, and the failure counters stay below the limit.
\<close>

lemma heavy_mta: "\<not> HeavyService ''mta''" "HeavyService ''mailbox''"
  by code_simp+

section \<open>What a dispatch changes\<close>

definition failures_ok :: "'m Policy \<Rightarrow> bool" where
  "failures_ok p \<longleftrightarrow> mall (\<lambda>_ n. 0 < n \<and> n < maxAttempts) (po_failures p)"

lemma mall_mdel: "mall P m \<Longrightarrow> mall P (mdel k m)"
  by (simp add: mall_def mdel_def)

definition policy_step :: "'m Policy \<Rightarrow> 'm Policy \<Rightarrow> bool" where
  "policy_step p p' \<longleftrightarrow>
     po_pending p' = po_pending p \<and> po_mgr p' = po_mgr p \<and> po_systemd p' = po_systemd p \<and>
     (failures_ok p \<longrightarrow> failures_ok p')"

lemma policy_step_refl [simp]: "policy_step p p"
  by (simp add: policy_step_def)

lemma countFailure_step: "countFailure svc p = (retry, p') \<Longrightarrow> policy_step p p'"
  by (auto simp: policy_step_def countFailure_def failures_ok_def Let_def intro!: mall_mput mall_mdel
      split: if_splits)

lemma recordSuccess_step [simp]: "policy_step p (recordSuccess svc ks p)"
  by (auto simp: policy_step_def recordSuccess_def failures_ok_def intro: mall_mdel)

lemma dispatch_step:
  assumes "dispatch svc a rs ks (p, m) = (retry, p', m')"
  shows "policy_step p p'"
  using assms
  by (auto simp: dispatch_def queueLegacy_def applySystemd_def
      split: option.splits prod.splits if_splits intro: countFailure_step)

section \<open>Invariants of a cycle\<close>

text \<open>A property of the policy and the host that every dispatch and the final pass keep.\<close>

definition dispatch_keeps :: "('m Policy \<times> 'm \<Rightarrow> bool) \<Rightarrow> bool" where
  "dispatch_keeps Q \<longleftrightarrow>
     (\<forall>svc a rs ks pm. Q pm \<longrightarrow> Q (snd (dispatch svc a rs ks pm))) \<and>
     (\<forall>p m pending. Q (p, m) \<longrightarrow> Q (p\<lparr>po_pending := pending\<rparr>, m)) \<and>
     (\<forall>p m e m'. Q (p, m) \<longrightarrow> mg_process (po_mgr p) m = Some (e, m') \<longrightarrow> Q (p, m'))"

lemma dispatch_keepsD:
  assumes "dispatch_keeps Q"
  shows "Q pm \<Longrightarrow> dispatch svc a rs ks pm = (retry, pm') \<Longrightarrow> Q pm'"
    and "Q (p, m) \<Longrightarrow> Q (p\<lparr>po_pending := pending\<rparr>, m)"
    and "Q (p, m) \<Longrightarrow> mg_process (po_mgr p) m = Some (e, m') \<Longrightarrow> Q (p, m')"
  using assms unfolding dispatch_keeps_def by (metis snd_conv)+

lemma queue_restarts_inv:
  assumes "dispatch_keeps Q" "Q pm"
  shows "Q (snd (queue_restarts es pm))"
  using assms(2)
proof (induction es arbitrary: pm)
  case (Cons e es)
  obtain retry pm1 where d: "dispatch (rs_service e) (rs_action e) (Strings (rs_reasons e))
      (reasonKinds (rs_reasons e)) pm = (retry, pm1)" by (rule prod.exhaust)
  from Cons.IH [OF dispatch_keepsD(1) [OF assms(1) Cons.prems d]] show ?case
    by (auto simp: d split: prod.split)
qed simp

lemma flush_inv:
  assumes "dispatch_keeps Q" "Q pm"
  shows "Q (flush due pm)"
  unfolding flush_def
proof (rule fold_inv [where P = Q])
  fix kv :: "string \<times> pendingRestart" and s
  assume s: "Q s"
  obtain name r where kv: "kv = (name, r)" by (cases kv)
  obtain retry p' m' where d: "dispatch name (pr_action r) (pr_reasons r) (pr_kinds r) s = (retry, p', m')"
    by (cases "dispatch name (pr_action r) (pr_reasons r) (pr_kinds r) s") auto
  have "Q (p', m')" by (rule dispatch_keepsD(1) [OF assms(1) s d])
  with s dispatch_keepsD(2) [OF assms(1)] show "Q (flush_one due kv s)"
    by (cases retry) (auto simp: flush_one_def kv d)
qed (rule assms(2))

lemma Apply_inv:
  assumes "dispatch_keeps Q" "Q pm" "Apply es s now pm = Some (carry, pm')"
  shows "Q pm'"
proof (cases "st_Enabled s")
  case True
  obtain p m where pm: "pm = (p, m)" by (cases pm)
  have proc: "Q pm2" if "Q pm1" "process pm1 = Some pm2" for pm1 pm2
    using dispatch_keepsD(3) [OF assms(1)] that by (cases pm1) (auto simp: process_def)
  show ?thesis
  proof (cases "st_Debounce s \<le> 0")
    case d: True
    have "Q (snd (queue_restarts es (flush (\<lambda>_. True) pm)))"
      by (intro queue_restarts_inv [OF assms(1)] flush_inv [OF assms(1)] assms(2))
    moreover from assms(3) True d
    have "process (snd (queue_restarts es (flush (\<lambda>_. True) pm))) = Some pm'"
      by (auto simp: Apply_def split: prod.splits)
    ultimately show ?thesis by (rule proc)
  next
    case d: False
    have "Q (record_restarts es now p, m)"
      using dispatch_keepsD(2) [OF assms(1)] assms(2) by (simp add: pm record_restarts_def)
    then have "Q (flush (\<lambda>r. now - pr_lastRequest r \<ge> st_Debounce s) (record_restarts es now p, m))"
      by (rule flush_inv [OF assms(1)])
    moreover from assms(3) True d
    have "process (flush (\<lambda>r. now - pr_lastRequest r \<ge> st_Debounce s) (record_restarts es now p, m)) = Some pm'"
      by (auto simp: Apply_def pm)
    ultimately show ?thesis by (rule proc)
  qed
qed (use assms in \<open>auto simp: Apply_def\<close>)

lemma failures_dispatch_keeps: "dispatch_keeps (\<lambda>(p, m). failures_ok p)"
proof -
  have "failures_ok (fst (snd (dispatch svc a rs ks (p, m))))" if "failures_ok p" for svc a rs ks and p :: "'a Policy" and m
    using dispatch_step [of svc a rs ks p m] that
    by (cases "dispatch svc a rs ks (p, m)") (auto simp: policy_step_def)
  then show ?thesis by (auto simp: dispatch_keeps_def case_prod_beta failures_ok_def)
qed

lemma manager_dispatch_keeps: "dispatch_keeps (\<lambda>(p, m). po_mgr p = mgr)"
proof -
  have "po_mgr (fst (snd (dispatch svc a rs ks (p, m)))) = po_mgr p" for svc a rs ks and p :: "'a Policy" and m
    using dispatch_step [of svc a rs ks p m]
    by (cases "dispatch svc a rs ks (p, m)") (auto simp: policy_step_def)
  then show ?thesis by (auto simp: dispatch_keeps_def case_prod_beta)
qed

text \<open>C24: The failure counters are bounded: a service that is being retried has failed once or twice;
  the third failure drops the request and its counter. Every cycle keeps this.\<close>

theorem failure_counters_bounded:
  assumes "Apply es s now (p, m) = Some (carry, p', m')" "failures_ok p"
  shows "failures_ok p'"
  using Apply_inv [OF failures_dispatch_keeps _ assms(1)] assms(2) by simp

section \<open>Concrete hosts\<close>

text \<open>
  A host that logs what it is asked to do and fails for the services of a list. \<open>unit_manager\<close> has
  an empty restart queue.
\<close>

definition ex_request_of :: "string \<Rightarrow> Restart" where
  "ex_request_of svc = \<lparr>rs_service = svc, rs_action = ActionRestart, rs_sections = [''mta''],
     rs_reasons = [mk_reason ReasonRetry]\<rparr>"

definition unit_manager :: "(string \<times> Action) list Manager" where
  "unit_manager = \<lparr>mg_add = \<lambda>svc reasons m. (None, m), mg_process = \<lambda>m. Some (None, m),
     mg_cancelled = \<lambda>m. False\<rparr>"

definition unit_systemd :: "string list \<Rightarrow> (string \<times> Action) list Systemd" where
  "unit_systemd bad = \<lparr>sy_mode = \<lambda>m. True,
     sy_apply = \<lambda>svc a m. (if svc \<in> set bad then Some (BackendError svc) else None, m @ [(svc, a)])\<rparr>"

definition ex_policy :: "string list \<Rightarrow> (string \<times> Action) list Policy" where
  "ex_policy bad = WithSystemd (unit_systemd bad) (NewPolicy unit_manager)"

definition ex_now :: Settings where
  "ex_now = \<lparr>st_Enabled = True, st_Debounce = 0\<rparr>"

definition ex_later :: Settings where
  "ex_later = \<lparr>st_Enabled = True, st_Debounce = 30\<rparr>"

theorem failure_counters_bounded_witness:
  "\<exists>p' m'. Apply [ex_request_of ''mta''] ex_now 0 (ex_policy [''mta''], []) =
      Some ([ex_request_of ''mta''], p', m') \<and> po_failures p' = [(''mta'', 1)] \<and> failures_ok p'"
proof -
  have "\<exists>p' m'. Apply [ex_request_of ''mta''] ex_now 0 (ex_policy [''mta''], []) =
      Some ([ex_request_of ''mta''], p', m') \<and> po_failures p' = [(''mta'', 1)]"
    by (simp add: Apply_def ex_now_def flush_def ex_policy_def WithSystemd_def NewPolicy_def
        dispatch_def applySystemd_def unit_systemd_def unit_manager_def ex_request_of_def
        Classify_def heavy_mta countFailure_def maxAttempts_def process_def)
  then obtain p' m' where a: "Apply [ex_request_of ''mta''] ex_now 0 (ex_policy [''mta''], []) =
      Some ([ex_request_of ''mta''], p', m')" and f: "po_failures p' = [(''mta'', 1)]" by blast
  have "failures_ok (ex_policy [''mta''])"
    by (simp add: failures_ok_def ex_policy_def WithSystemd_def NewPolicy_def)
  with failure_counters_bounded [OF a] a f show ?thesis by blast
qed

section \<open>Systemd hosts\<close>

text \<open>The host operations of a systemd cycle that are not a restart of a heavy service keep \<open>W\<close>.\<close>

definition light_keeps :: "'m Manager \<Rightarrow> 'm Systemd \<Rightarrow> ('m \<Rightarrow> bool) \<Rightarrow> bool" where
  "light_keeps mgr sd W \<longleftrightarrow>
     (\<forall>m. W m \<longrightarrow> sy_mode sd m) \<and>
     (\<forall>svc a m. W m \<longrightarrow> Classify a svc True \<noteq> ActionPendingRestart \<longrightarrow> W (snd (sy_apply sd svc a m))) \<and>
     (\<forall>m e m'. W m \<longrightarrow> mg_process mgr m = Some (e, m') \<longrightarrow> W m')"

lemma light_dispatch_keeps:
  assumes "light_keeps mgr sd W"
  shows "dispatch_keeps (\<lambda>(p, m). po_mgr p = mgr \<and> po_systemd p = Some sd \<and> W m)"
proof -
  have "W m'" if "po_systemd p = Some sd" "W m" "dispatch svc a rs ks (p, m) = (retry, p', m')"
    for svc a rs ks p m retry p' m'
  proof -
    have mode: "sy_mode sd m" using assms that(2) by (simp add: light_keeps_def)
    show ?thesis
    proof (cases "Classify a svc True = ActionPendingRestart")
      case True
      with that mode show ?thesis by (simp add: dispatch_def)
    next
      case False
      then have "W (snd (sy_apply sd svc a m))" using assms that(2) by (simp add: light_keeps_def)
      with that mode False show ?thesis
        by (auto simp: dispatch_def applySystemd_def split: prod.splits option.splits if_splits)
    qed
  qed
  moreover have "po_mgr p' = po_mgr p \<and> po_systemd p' = po_systemd p"
    if "dispatch svc a rs ks (p, m) = (retry, p', m')" for svc a rs ks retry p' m' and p :: "'a Policy" and m
    using dispatch_step [OF that] by (simp add: policy_step_def)
  ultimately have "case snd (dispatch svc a rs ks (p, m)) of (p', m') \<Rightarrow>
      po_mgr p' = mgr \<and> po_systemd p' = Some sd \<and> W m'"
    if "po_mgr p = mgr" "po_systemd p = Some sd" "W m" for svc a rs ks p m
    using that by (cases "dispatch svc a rs ks (p, m)") fastforce
  with assms show ?thesis unfolding dispatch_keeps_def light_keeps_def by auto
qed


definition no_heavy_restart :: "(string \<times> Action) list \<Rightarrow> bool" where
  "no_heavy_restart m \<longleftrightarrow> (\<forall>(svc, a) \<in> set m. \<not> (a = ActionRestart \<and> HeavyService svc))"




section \<open>Legacy hosts\<close>

text \<open>
  What the policy needs of a restart queue: a request is never refused, it puts the service (in
  lower case) into the queue, and it changes neither the other queued services nor the world.
\<close>

locale restart_queue =
  fixes mgr :: "'m Manager" and pending :: "'m \<Rightarrow> string set" and world :: "'m \<Rightarrow> 'w"
  assumes add_accepts: "fst (mg_add mgr svc reasons m) = None"
    and add_pending: "pending (snd (mg_add mgr svc reasons m)) = insert (to_lower svc) (pending m)"
    and add_world: "world (snd (mg_add mgr svc reasons m)) = world m"
begin

lemma legacy_dispatch:
  assumes "po_systemd p = None" "po_mgr p = mgr"
  shows "\<exists>m'. dispatch svc a rs ks (p, m) = (False, recordSuccess svc ks p, m') \<and>
    pending m' = insert (to_lower svc) (pending m) \<and> world m' = world m"
  using assms add_accepts [of svc rs m] add_pending [of svc rs m] add_world [of svc rs m]
  by (cases "mg_add mgr svc rs m") (simp add: dispatch_def queueLegacy_def)

lemma legacy_queue:
  assumes "po_systemd p = None" "po_mgr p = mgr"
  shows "\<exists>p' m'. queue_restarts es (p, m) = ([], p', m') \<and> policy_step p p' \<and>
    pending m' = pending m \<union> to_lower ` rs_service ` set es \<and> world m' = world m"
  using assms
proof (induction es arbitrary: p m)
  case (Cons e es)
  let ?ks = "reasonKinds (rs_reasons e)"
  let ?p1 = "recordSuccess (rs_service e) ?ks p"
  obtain m1 where d: "dispatch (rs_service e) (rs_action e) (Strings (rs_reasons e)) ?ks (p, m) =
      (False, ?p1, m1)" "pending m1 = insert (to_lower (rs_service e)) (pending m)" "world m1 = world m"
    using legacy_dispatch [OF Cons.prems] by blast
  have "po_systemd ?p1 = None" "po_mgr ?p1 = mgr" using Cons.prems by (simp_all add: recordSuccess_def)
  from Cons.IH [OF this, of m1] obtain p' m' where
    "queue_restarts es (?p1, m1) = ([], p', m')" "policy_step ?p1 p'"
    "pending m' = pending m1 \<union> to_lower ` rs_service ` set es" "world m' = world m1" by blast
  with d show ?case
    using recordSuccess_step [of p "rs_service e" ?ks] by (auto simp: policy_step_def)
qed simp

lemma legacy_flush:
  assumes "po_systemd p = None" "po_mgr p = mgr" "wf_map (po_pending p)"
  shows "\<exists>p' m'. flush (\<lambda>_. True) (p, m) = (p', m') \<and> po_pending p' = [] \<and>
    po_systemd p' = None \<and> po_mgr p' = mgr \<and>
    pending m' = pending m \<union> to_lower ` fst ` set (po_pending p) \<and> world m' = world m"
proof -
  have "\<exists>p' m'. fold (flush_one (\<lambda>_. True)) kvs (q, m) = (p', m') \<and>
      po_pending p' = filter (\<lambda>kv. fst kv \<notin> fst ` set kvs) (po_pending q) \<and>
      po_systemd p' = None \<and> po_mgr p' = mgr \<and> pending m' = pending m \<union> to_lower ` fst ` set kvs \<and>
      world m' = world m"
    if "po_systemd q = None" "po_mgr q = mgr" for kvs q m
    using that
  proof (induction kvs arbitrary: q m)
    case (Cons kv kvs)
    obtain name r where kv: "kv = (name, r)" by (cases kv)
    obtain m1 where d: "dispatch name (pr_action r) (pr_reasons r) (pr_kinds r) (q, m) =
        (False, recordSuccess name (pr_kinds r) q, m1)" "pending m1 = insert (to_lower name) (pending m)"
      "world m1 = world m"
      using legacy_dispatch [OF Cons.prems] by blast
    let ?q1 = "(recordSuccess name (pr_kinds r) q)\<lparr>po_pending := mdel name (po_pending q)\<rparr>"
    have step: "flush_one (\<lambda>_. True) kv (q, m) = (?q1, m1)"
      by (simp add: flush_one_def kv d recordSuccess_def)
    have "po_systemd ?q1 = None" "po_mgr ?q1 = mgr" using Cons.prems by (simp_all add: recordSuccess_def)
    from Cons.IH [OF this, of m1] d(2,3) show ?case
      by (auto simp: step [unfolded kv mdel_def] kv mdel_def conj_commute)
  qed simp
  from this [OF assms(1,2), of "po_pending p" m] show ?thesis by (auto simp: flush_def)
qed

end

interpretation service_queue: restart_queue manager_ops "\<lambda>(sm, w). queued sm" snd
  by unfold_locales (auto simp: manager_ops_def AddRestartWithReasons_def)


definition legacy_policy :: "(string list ServiceManager \<times> string list) Policy" where
  "legacy_policy = NewPolicy manager_ops"


section \<open>Debounce\<close>

lemma record_restart_get:
  "mget (record_restart now e pending) k =
     (if k = rs_service e then
        Some (let r = (case mget pending k of
                 None \<Rightarrow> \<lparr>pr_action = ActionRestart, pr_reasons = [], pr_kinds = [], pr_lastRequest = now\<rparr>
               | Some r \<Rightarrow> r)
              in r\<lparr>pr_action := rs_action e,
                   pr_reasons := append_all_new (pr_reasons r) (Strings (rs_reasons e)),
                   pr_kinds := append_all_new (pr_kinds r) (reasonKinds (rs_reasons e)),
                   pr_lastRequest := now\<rparr>)
      else mget pending k)"
  by (auto simp: record_restart_def mget_mupsert Let_def split: option.split)

definition waits :: "int \<Rightarrow> string \<Rightarrow> string set \<Rightarrow> pendingRestart smap \<Rightarrow> bool" where
  "waits t svc reasons pending \<longleftrightarrow>
     (\<exists>r. mget pending svc = Some r \<and> pr_lastRequest r = t \<and> reasons \<subseteq> set (pr_reasons r))"

lemma record_waits: "waits now (rs_service e) (set (Strings (rs_reasons e))) (record_restart now e m)"
  by (auto simp: waits_def record_restart_get Let_def split: option.split)

lemma record_keeps: "waits now svc R m \<Longrightarrow> waits now svc R (record_restart now e m)"
  by (auto simp: waits_def record_restart_get Let_def split: option.split)

lemma records_wait:
  assumes "e \<in> set es"
  shows "waits now (rs_service e) (set (Strings (rs_reasons e))) (fold (record_restart now) es m)"
  by (rule fold_establish [OF assms]) (auto intro: record_waits record_keeps)

lemma records_other:
  "svc \<notin> rs_service ` set es \<Longrightarrow> mget (fold (record_restart now) es m) svc = mget m svc"
  by (induction es arbitrary: m) (auto simp: record_restart_get)

lemma records_wf: "wf_map m \<Longrightarrow> wf_map (fold (record_restart now) es m)"
  by (rule fold_inv [where P = wf_map]) (auto simp: record_restart_def)

lemma flush_one_other:
  assumes "flush_one due (name, r) (q, m) = (q', m')" "svc \<noteq> name \<or> \<not> due r"
  shows "mget (po_pending q') svc = mget (po_pending q) svc"
proof -
  obtain retry p1 m1 where d: "dispatch name (pr_action r) (pr_reasons r) (pr_kinds r) (q, m) = (retry, p1, m1)"
    by (cases "dispatch name (pr_action r) (pr_reasons r) (pr_kinds r) (q, m)") auto
  have "po_pending p1 = po_pending q" using dispatch_step [OF d] by (simp add: policy_step_def)
  with assms d show ?thesis by (auto simp: flush_one_def split: if_splits bool.splits)
qed

lemma flush_keeps_waiting:
  assumes "wf_map (po_pending q)" "mget (po_pending q) svc = Some r" "\<not> due r"
    "flush due (q, m) = (q', m')"
  shows "mget (po_pending q') svc = Some r"
proof -
  have keep: "mget (po_pending (fst (fold (flush_one due) kvs pm))) svc = mget (po_pending (fst pm)) svc"
    if "\<And>r'. (svc, r') \<in> set kvs \<Longrightarrow> \<not> due r'" for kvs pm
    using that
  proof (induction kvs arbitrary: pm)
    case (Cons kv kvs)
    obtain name r' q m where s: "kv = (name, r')" "pm = (q, m)" by (cases kv; cases pm)
    obtain q1 m1 where f: "flush_one due kv pm = (q1, m1)" by (rule prod.exhaust)
    have "mget (po_pending q1) svc = mget (po_pending q) svc"
      by (rule flush_one_other [OF f [unfolded s]]) (use Cons.prems s in auto)
    moreover have "mget (po_pending (fst (fold (flush_one due) kvs (q1, m1)))) svc = mget (po_pending q1) svc"
      using Cons.IH [of "(q1, m1)"] Cons.prems by simp
    ultimately show ?case by (simp add: f [unfolded s(2)] s(2))
  qed simp
  have "\<not> due r'" if "(svc, r') \<in> set (po_pending q)" for r'
    using that assms(2,3) unfolding wf_map_get [OF assms(1)] by simp
  from keep [of "po_pending q" "(q, m)", OF this] assms(2,4) show ?thesis by (simp add: flush_def)
qed



end
