(* ===== verification/Daemon_State.thy ===== *)
theory Daemon_State
  imports Snapshots "HOL-Library.Word"
begin

text \<open>
  Package \<open>internal/state\<close>: the \<open>State\<close> shared by the main loop, the listener and the watchdog
  (\<open>state.go\<close>), its file fingerprints and FILE cache (\<open>state_files.go\<close>) and the services available to
  the watchdog (\<open>state_watchdog.go\<close>). Every method holds the mutex for its whole body, so it is one
  atomic step; \<open>UpdateSnapshot\<close>, a compare-and-swap loop, is also given as a step relation in which
  other goroutines publish in between. \<open>SleepTimer\<close> is stored and read, never computed with: it is
  kept as the 64 bits of the float.
\<close>

section \<open>State\<close>

record State =
  ds_snap :: SnapshotRef
  ds_MtaConfig :: "MtaConfig option"
  ds_ForcedConfig :: "string smap"
  ds_RequestedConfig :: "string smap"
  ds_FileCache :: "string smap"
  ds_FileMD5Cache :: "string smap"
  ds_WatchdogProcess :: "bool smap"
  ds_FirstRun :: bool
  ds_Forced :: int
  ds_SleepTimer :: "64 word"

definition empty_parts :: Parts where
  "empty_parts = \<lparr>p_local = [], p_global = [], p_server = [], p_misc = [], p_services = []\<rparr>"

definition NewState :: State where
  "NewState =
     \<lparr>ds_snap = NewSnapshot empty_parts, ds_MtaConfig = Some \<lparr>mta_sections = []\<rparr>,
      ds_ForcedConfig = [], ds_RequestedConfig = [], ds_FileCache = [], ds_FileMD5Cache = [],
      ds_WatchdogProcess = [], ds_FirstRun = True, ds_Forced = 0, ds_SleepTimer = 0\<rparr>"

definition SetSleepTimer :: "64 word \<Rightarrow> State \<Rightarrow> State" where
  "SetSleepTimer v s = s\<lparr>ds_SleepTimer := v\<rparr>"

definition GetSleepTimer :: "State \<Rightarrow> 64 word" where
  "GetSleepTimer s = ds_SleepTimer s"

section \<open>The snapshot\<close>

definition orEmpty :: "SnapshotRef \<Rightarrow> SnapshotRef" where
  "orEmpty snap = (case snap of None \<Rightarrow> NewSnapshot empty_parts | Some x \<Rightarrow> Some x)"

definition StateSnapshot :: "State \<Rightarrow> SnapshotRef" where
  "StateSnapshot s = orEmpty (ds_snap s)"

definition Publish :: "SnapshotRef \<Rightarrow> State \<Rightarrow> State" where
  "Publish snap s = s\<lparr>ds_snap := snap\<rparr>"

definition UpdateSnapshot :: "(SnapshotRef \<Rightarrow> SnapshotRef) \<Rightarrow> State \<Rightarrow> State" where
  "UpdateSnapshot fn s = s\<lparr>ds_snap := fn (orEmpty (ds_snap s))\<rparr>"

text \<open>
  The loop of \<open>UpdateSnapshot\<close> among other goroutines: \<open>load\<close> and \<open>swap\<close> are its two atomic accesses of
  the pointer, \<open>publish\<close> is any store by someone else. Two equal pointers point to equal, immutable
  snapshots, so comparing the snapshots loses nothing.
\<close>

datatype update_pc = Loading | Swapping SnapshotRef | Updated

inductive update_step ::
    "(SnapshotRef \<Rightarrow> SnapshotRef) \<Rightarrow> update_pc \<times> SnapshotRef \<Rightarrow> update_pc \<times> SnapshotRef \<Rightarrow> bool"
  for fn where
  load: "update_step fn (Loading, snap) (Swapping snap, snap)"
| swap: "snap = old \<Longrightarrow> update_step fn (Swapping old, snap) (Updated, fn (orEmpty old))"
| retry: "snap \<noteq> old \<Longrightarrow> update_step fn (Swapping old, snap) (Loading, snap)"

inductive publish_step :: "update_pc \<times> SnapshotRef \<Rightarrow> update_pc \<times> SnapshotRef \<Rightarrow> bool" where
  publish: "publish_step (pc, snap) (pc, snap')"

inductive_cases update_stepE: "update_step fn c c'"

section \<open>Requests\<close>

definition AddRequestedConfigs :: "string list \<Rightarrow> State \<Rightarrow> State" where
  "AddRequestedConfigs sections s =
     s\<lparr>ds_RequestedConfig := fold (\<lambda>sn. mput sn sn) sections (ds_RequestedConfig s)\<rparr>"

definition TakeRequestedConfigs :: "State \<Rightarrow> string list \<times> State" where
  "TakeRequestedConfigs s = (sort (mkeys (ds_RequestedConfig s)), s\<lparr>ds_RequestedConfig := []\<rparr>)"

definition ForcedSections :: "State \<Rightarrow> string list" where
  "ForcedSections s = sort (mkeys (ds_ForcedConfig s))"

definition ResetForcedConfig :: "State \<Rightarrow> State" where
  "ResetForcedConfig s = s\<lparr>ds_ForcedConfig := []\<rparr>"

definition ResetRequestedConfig :: "State \<Rightarrow> State" where
  "ResetRequestedConfig s = s\<lparr>ds_RequestedConfig := []\<rparr>"

definition SetForcedConfig :: "string \<Rightarrow> State \<Rightarrow> State" where
  "SetForcedConfig sn s = s\<lparr>ds_ForcedConfig := mput sn ''1'' (ds_ForcedConfig s)\<rparr>"

definition SetRequestedConfig :: "string \<Rightarrow> State \<Rightarrow> State" where
  "SetRequestedConfig sn s = AddRequestedConfigs [sn] s"

section \<open>Flags and the parsed configuration\<close>

definition SetFirstRun :: "bool \<Rightarrow> State \<Rightarrow> State" where
  "SetFirstRun v s = s\<lparr>ds_FirstRun := v\<rparr>"

definition IsFirstRun :: "State \<Rightarrow> bool" where
  "IsFirstRun s = ds_FirstRun s"

definition SetMtaConfig :: "MtaConfig option \<Rightarrow> State \<Rightarrow> State" where
  "SetMtaConfig mtac s = s\<lparr>ds_MtaConfig := mtac\<rparr>"

definition GetMtaConfig :: "State \<Rightarrow> MtaConfig option" where
  "GetMtaConfig s = ds_MtaConfig s"

section \<open>Files\<close>

definition MAPPEDFILES :: "string smap" where
  "MAPPEDFILES = [(''zimbraSSLDHParam'', ''conf/dhparam.pem'')]"

text \<open>
  A file system is the content of each readable path; \<open>None\<close> is a path that cannot be opened or read.
  The digest (hex-encoded MD5) is a parameter \<open>md5\<close>.
\<close>

type_synonym fs = "string \<Rightarrow> string option"

definition ComputeFileMD5 :: "(string \<Rightarrow> string) \<Rightarrow> fs \<Rightarrow> string \<Rightarrow> string option" where
  "ComputeFileMD5 md5 fs path = map_option md5 (fs path)"

definition GetFileMD5 :: "string \<Rightarrow> State \<Rightarrow> string" where
  "GetFileMD5 path s = mget_str (ds_FileMD5Cache s) path"

definition SetFileMD5 :: "string \<Rightarrow> string \<Rightarrow> State \<Rightarrow> State" where
  "SetFileMD5 path hash s = s\<lparr>ds_FileMD5Cache := mput path hash (ds_FileMD5Cache s)\<rparr>"

definition FileHasChanged :: "(string \<Rightarrow> string) \<Rightarrow> fs \<Rightarrow> string \<Rightarrow> State \<Rightarrow> bool" where
  "FileHasChanged md5 fs path s =
     (let cachedMD5 = GetFileMD5 path s in
      case ComputeFileMD5 md5 fs path of
        None \<Rightarrow> True
      | Some currentMD5 \<Rightarrow> if cachedMD5 = [] then True else cachedMD5 \<noteq> currentMD5)"

text \<open>The result tells whether the file could be read.\<close>

definition UpdateFileMD5 :: "(string \<Rightarrow> string) \<Rightarrow> fs \<Rightarrow> string \<Rightarrow> State \<Rightarrow> bool \<times> State" where
  "UpdateFileMD5 md5 fs path s =
     (case ComputeFileMD5 md5 fs path of
        None \<Rightarrow> (False, s)
      | Some hash \<Rightarrow> (True, SetFileMD5 path hash s))"

definition LookupFile :: "string \<Rightarrow> State \<Rightarrow> string option" where
  "LookupFile key s = mget (ds_FileCache s) key"

definition StoreFile :: "string \<Rightarrow> string \<Rightarrow> State \<Rightarrow> State" where
  "StoreFile key v s = s\<lparr>ds_FileCache := mput key v (ds_FileCache s)\<rparr>"

definition ClearFileCache :: "State \<Rightarrow> State" where
  "ClearFileCache s = s\<lparr>ds_FileCache := []\<rparr>"

section \<open>Services available to the watchdog\<close>

definition GetWatchdog :: "string \<Rightarrow> State \<Rightarrow> bool option" where
  "GetWatchdog svc s = mget (ds_WatchdogProcess s) svc"

definition SetWatchdog :: "string \<Rightarrow> bool \<Rightarrow> State \<Rightarrow> State" where
  "SetWatchdog svc status s = s\<lparr>ds_WatchdogProcess := mput svc status (ds_WatchdogProcess s)\<rparr>"

definition DelWatchdog :: "string \<Rightarrow> State \<Rightarrow> State" where
  "DelWatchdog svc s = s\<lparr>ds_WatchdogProcess := mdel svc (ds_WatchdogProcess s)\<rparr>"

section \<open>Lemmas\<close>

text \<open>The maps of the state are maps.\<close>

definition wf_state :: "State \<Rightarrow> bool" where
  "wf_state s \<longleftrightarrow>
     wf_map (ds_ForcedConfig s) \<and> wf_map (ds_RequestedConfig s) \<and> wf_map (ds_FileCache s) \<and>
     wf_map (ds_FileMD5Cache s) \<and> wf_map (ds_WatchdogProcess s)"

definition requests :: "State \<Rightarrow> string set" where
  "requests s = fst ` set (ds_RequestedConfig s)"

lemma fold_requests:
  "fst ` set (fold (\<lambda>sn. mput sn sn) sections m) = fst ` set m \<union> set sections"
  by (induction sections arbitrary: m) auto

lemma wf_fold_requests: "wf_map m \<Longrightarrow> wf_map (fold (\<lambda>sn. mput sn sn) sections m)"
  by (induction sections arbitrary: m) auto

lemma requests_Add [simp]: "requests (AddRequestedConfigs sections s) = requests s \<union> set sections"
  by (simp add: requests_def AddRequestedConfigs_def fold_requests)

lemma requests_Take [simp]: "requests (snd (TakeRequestedConfigs s)) = {}"
  by (simp add: requests_def TakeRequestedConfigs_def)

lemma set_Take [simp]: "set (fst (TakeRequestedConfigs s)) = requests s"
  by (simp add: requests_def TakeRequestedConfigs_def)

lemma sorted_Take: "wf_state s \<Longrightarrow> sorted_wrt (<) (fst (TakeRequestedConfigs s))"
  by (simp add: TakeRequestedConfigs_def wf_state_def wf_map_distinct strict_sorted_iff)

lemma Take_of_sorted:
  assumes "wf_state s" "sorted_wrt (<) xs" "set xs = requests s"
  shows "fst (TakeRequestedConfigs s) = xs"
  using assms sorted_Take [OF assms(1)]
  by (metis set_Take strict_sorted_equal)

lemma wf_state_steps [simp, intro]:
  assumes "wf_state s"
  shows "wf_state (AddRequestedConfigs sections s)" "wf_state (snd (TakeRequestedConfigs s))"
    "wf_state (ResetForcedConfig s)" "wf_state (ResetRequestedConfig s)"
    "wf_state (SetForcedConfig sn s)" "wf_state (SetRequestedConfig sn s)" "wf_state (SetFirstRun b s)"
    "wf_state (SetMtaConfig mtac s)" "wf_state (SetFileMD5 path hash s)"
    "wf_state (snd (UpdateFileMD5 md5 fs path s))" "wf_state (StoreFile key v s)"
    "wf_state (ClearFileCache s)" "wf_state (SetWatchdog svc status s)" "wf_state (DelWatchdog svc s)"
    "wf_state (Publish snap s)" "wf_state (UpdateSnapshot fn s)" "wf_state (SetSleepTimer t s)"
  using assms
  by (simp_all add: wf_state_def AddRequestedConfigs_def TakeRequestedConfigs_def ResetForcedConfig_def
      ResetRequestedConfig_def SetForcedConfig_def SetRequestedConfig_def SetFirstRun_def SetMtaConfig_def
      SetFileMD5_def UpdateFileMD5_def StoreFile_def ClearFileCache_def SetWatchdog_def DelWatchdog_def
      Publish_def UpdateSnapshot_def SetSleepTimer_def wf_fold_requests split: option.split)

lemma wf_NewState [simp, intro!]: "wf_state NewState"
  by (simp add: wf_state_def NewState_def)

text \<open>Round trip of the request queue: what is taken is what was added since the last take.\<close>

lemma take_after_add:
  assumes "wf_state s"
  shows "fst (TakeRequestedConfigs (AddRequestedConfigs sections (snd (TakeRequestedConfigs s)))) =
    sort (remdups sections)"
proof (rule Take_of_sorted)
  show "wf_state (AddRequestedConfigs sections (snd (TakeRequestedConfigs s)))" using assms by simp
qed (simp_all add: strict_sorted_iff)

lemma orEmpty_not_None [simp]: "orEmpty snap \<noteq> None"
  by (auto simp: orEmpty_def NewSnapshot_def split: option.split)

lemma StateSnapshot_not_None [simp]: "StateSnapshot s \<noteq> None"
  by (simp add: StateSnapshot_def)

lemma snap_frames [simp]:
  "ds_snap (AddRequestedConfigs sections s) = ds_snap s"
  "ds_snap (snd (TakeRequestedConfigs s)) = ds_snap s"
  "ds_RequestedConfig (Publish snap s) = ds_RequestedConfig s"
  "ds_snap (Publish snap s) = snap"
  "requests (Publish snap s) = requests s"
  "ds_FirstRun (Publish snap s) = ds_FirstRun s"
  "ds_FirstRun (snd (TakeRequestedConfigs s)) = ds_FirstRun s"
  "ds_ForcedConfig (snd (TakeRequestedConfigs s)) = ds_ForcedConfig s"
  "ds_ForcedConfig (Publish snap s) = ds_ForcedConfig s"
  "ds_MtaConfig (Publish snap s) = ds_MtaConfig s"
  "ds_MtaConfig (snd (TakeRequestedConfigs s)) = ds_MtaConfig s"
  by (simp_all add: AddRequestedConfigs_def TakeRequestedConfigs_def Publish_def requests_def)

text \<open>
  The compare-and-swap loop: while it runs, its own steps leave the snapshot alone, and the step that
  ends it replaces the snapshot published last by its image, so no publication in between is lost.
\<close>

lemma update_step_atomic:
  assumes "update_step fn (pc, snap) (pc', snap')"
  shows "(pc' \<noteq> Updated \<and> snap' = snap) \<or> (pc' = Updated \<and> snap' = fn (orEmpty snap))"
  using assms by (auto elim: update_stepE)

lemma update_step_alone:
  "update_step fn (Loading, snap) (Swapping snap, snap) \<and>
   update_step fn (Swapping snap, snap) (Updated, fn (orEmpty snap))"
  by (auto intro: update_step.intros)

end
