(* ===== verification/Go_Regexp.thy ===== *)
theory Go_Regexp
  imports Go_Prelude
begin

text \<open>
  The part of Go's \<open>regexp\<close> the configuration code uses: patterns that are sequences of literals,
  classes, greedy repetitions of a class and alternatives of literals, with capture groups around
  single elements. Matching is leftmost-first: of the ways to match at a position the first in
  preference order counts (longer repetitions first), as in Perl. Texts are byte strings; the
  patterns below distinguish ASCII characters only.
\<close>

section \<open>Patterns\<close>

datatype rx_elem =
    Lit string
  | Alts "string list"
  | One "char \<Rightarrow> bool"
  | Opt "char \<Rightarrow> bool"
  | Many "char \<Rightarrow> bool"
  | Some1 "char \<Rightarrow> bool"

text \<open>An item is an element and whether it is a capture group.\<close>

type_synonym rx = "(bool \<times> rx_elem) list"

text \<open>The lengths an element can match at the head of a text, in preference order.\<close>

fun rx_lens :: "rx_elem \<Rightarrow> string \<Rightarrow> nat list" where
  "rx_lens (Lit t) s = (if has_prefix s t then [length t] else [])"
| "rx_lens (Alts ts) s = map length (filter (has_prefix s) ts)"
| "rx_lens (One p) s = (case s of c # _ \<Rightarrow> if p c then [1] else [] | [] \<Rightarrow> [])"
| "rx_lens (Opt p) s = (case s of c # _ \<Rightarrow> if p c then [1, 0] else [0] | [] \<Rightarrow> [0])"
| "rx_lens (Many p) s = rev [0..<Suc (length (takeWhile p s))]"
| "rx_lens (Some1 p) s = rev [1..<Suc (length (takeWhile p s))]"

fun first_some :: "('a \<Rightarrow> 'b option) \<Rightarrow> 'a list \<Rightarrow> 'b option" where
  "first_some f [] = None"
| "first_some f (x # xs) = (case f x of Some y \<Rightarrow> Some y | None \<Rightarrow> first_some f xs)"

text \<open>A match at the head of a text: its length and its groups.\<close>

fun rx_at :: "rx \<Rightarrow> string \<Rightarrow> (nat \<times> string list) option" where
  "rx_at [] s = Some (0, [])"
| "rx_at ((cap, e) # es) s =
     first_some
       (\<lambda>n. map_option (\<lambda>(k, gs). (n + k, if cap then take n s # gs else gs)) (rx_at es (drop n s)))
       (rx_lens e s)"

text \<open>
  The text cut at its successive matches: a piece is a stretch outside any match (\<open>Inl\<close>, one character
  each) or a match with its groups. An empty match is not one (no pattern here matches the empty text).
\<close>

function rx_pieces :: "rx \<Rightarrow> string \<Rightarrow> (char + string \<times> string list) list" where
  "rx_pieces r [] = []"
| "rx_pieces r (c # s) =
     (case rx_at r (c # s) of
        Some (Suc n, gs) \<Rightarrow> Inr (take (Suc n) (c # s), gs) # rx_pieces r (drop n s)
      | _ \<Rightarrow> Inl c # rx_pieces r s)"
  by pat_completeness auto
termination
  by (relation "measure (length \<circ> snd)") auto

text \<open>\<open>FindAllStringSubmatch(s, -1)\<close>: the groups of each match.\<close>

definition rx_find_all :: "rx \<Rightarrow> string \<Rightarrow> string list list" where
  "rx_find_all r s = concat (map (case_sum (\<lambda>_. []) (\<lambda>(_, gs). [gs])) (rx_pieces r s))"

text \<open>\<open>ReplaceAllString(s, "")\<close>.\<close>

definition rx_delete_all :: "rx \<Rightarrow> string \<Rightarrow> string" where
  "rx_delete_all r s = concat (map (case_sum (\<lambda>c. [c]) (\<lambda>_. [])) (rx_pieces r s))"

section \<open>Classes\<close>

definition rx_space :: "char \<Rightarrow> bool" where
  "rx_space c \<longleftrightarrow> of_char c \<in> {9, 10, 12, 13, 32 :: nat}"

definition rx_digit :: "char \<Rightarrow> bool" where
  "rx_digit c \<longleftrightarrow> CHR ''0'' \<le> c \<and> c \<le> CHR ''9''"

definition rx_word :: "char \<Rightarrow> bool" where
  "rx_word c \<longleftrightarrow> rx_digit c \<or> (CHR ''A'' \<le> c \<and> c \<le> CHR ''Z'') \<or> (CHR ''a'' \<le> c \<and> c \<le> CHR ''z'') \<or> c = CHR ''_''"

definition rx_any :: "char \<Rightarrow> bool" where
  "rx_any c \<longleftrightarrow> c \<noteq> CHR 0x0A"

definition rx_not :: "string \<Rightarrow> char \<Rightarrow> bool" where
  "rx_not cs c \<longleftrightarrow> c \<notin> set cs"

section \<open>Lemmas\<close>

lemma first_some_SomeE:
  assumes "first_some f xs = Some y"
  obtains x where "x \<in> set xs" "f x = Some y"
  using assms by (induction xs) (auto split: option.splits)

lemma has_prefix_length: "has_prefix s p \<Longrightarrow> length p \<le> length s"
  unfolding has_prefix_def by (metis length_take min.cobounded1)

lemma rx_lens_le: "n \<in> set (rx_lens e s) \<Longrightarrow> n \<le> length s"
proof -
  have "length (takeWhile p s) \<le> length s" for p by (rule length_takeWhile_le)
  moreover assume "n \<in> set (rx_lens e s)"
  ultimately show ?thesis
    by (cases e) (auto simp: less_Suc_eq_le dest: has_prefix_length order_trans less_imp_le
        split: list.splits if_splits)
qed

lemma rx_at_le: "rx_at r s = Some (n, gs) \<Longrightarrow> n \<le> length s"
proof (induction r arbitrary: s n gs)
  case (Cons item es)
  then obtain cap e where item: "item = (cap, e)" by (cases item)
  from Cons.prems [unfolded item] obtain k where k: "k \<in> set (rx_lens e s)"
    and "map_option (\<lambda>(j, gs). (k + j, if cap then take k s # gs else gs)) (rx_at es (drop k s)) = Some (n, gs)"
    by (auto elim: first_some_SomeE)
  then obtain j gs' where "rx_at es (drop k s) = Some (j, gs')" "n = k + j" by auto
  with Cons.IH [OF this(1)] rx_lens_le [OF k] show ?case by simp
qed simp

text \<open>The pieces are the text.\<close>

lemma rx_pieces_concat: "concat (map (case_sum (\<lambda>c. [c]) fst) (rx_pieces r s)) = s"
  by (induction r s rule: rx_pieces.induct) (auto split: option.split prod.split nat.split)

text \<open>A text without the first character of the pattern's leading literal has no match.\<close>

lemma rx_at_lit: "rx_at ((cap, Lit t) # es) s \<noteq> None \<Longrightarrow> has_prefix s t"
  by (auto split: if_splits)

lemma rx_pieces_no_lit:
  assumes "c \<in> set t" "c \<notin> set s"
  shows "rx_pieces ((cap, Lit t) # es) s = map Inl s"
  using assms
proof (induction s)
  case (Cons a s)
  have "\<not> has_prefix (a # s) t"
  proof
    assume "has_prefix (a # s) t"
    then have "set t \<subseteq> set (a # s)" by (metis has_prefix_def set_take_subset)
    with Cons.prems show False by blast
  qed
  then have "rx_at ((cap, Lit t) # es) (a # s) = None" by simp
  with Cons show ?case by simp
qed simp

end
