(* ===== verification/Transformer.thy ===== *)
theory Transformer
  imports Config_Types Go_Regexp "HOL-Library.Signed_Division"
begin

text \<open>
  Package \<open>internal/transformer\<close>: the substitutions and directives a template line may hold
  (\<open>transformer.go\<close>, \<open>directives.go\<close>), over the interface of package \<open>internal/lookup\<close>. A lookup may
  change the state behind it (a FILE lookup fills a cache), so it is a function on a state \<open>'s\<close> and
  the whole transformer passes that state on. An error wrapping \<open>ErrTransform\<close> is a value of
  \<open>transform_error\<close>. The float of a \<open>range\<close> directive is rendered by a parameter \<open>pyRange\<close>.
\<close>

section \<open>Lookups and errors\<close>

text \<open>
  Why a lookup failed: the key is undefined, the file does not exist, or it could not be performed.
  \<open>LookupDiverged\<close> is no error of the source but a lookup that does not return; a transformation that
  makes one does not return either (\<open>TransformDiverged\<close>).
\<close>

datatype lookup_error = LookupNotFound | FileNotExist | LookupFailed string | LookupDiverged

type_synonym 's lookup = "string \<Rightarrow> string \<Rightarrow> 's \<Rightarrow> (lookup_error + string) \<times> 's"

datatype transform_error =
    NotMatchedOnce string
  | NotSet string string
  | NotIntegers string
  | NotTypeKey string
  | MissingTypeKey string
  | MissingSeparator string
  | MissingSearchString string
  | LocalNotSet string string
  | LocalEmpty string
  | TransformDiverged

type_synonym ('s, 'a) xform = "'s \<Rightarrow> (transform_error + 'a) \<times> 's"

definition xreturn :: "'a \<Rightarrow> ('s, 'a) xform" where
  "xreturn v = (\<lambda>s. (Inr v, s))"

definition xfail :: "transform_error \<Rightarrow> ('s, 'a) xform" where
  "xfail e = (\<lambda>s. (Inl e, s))"

definition xbind :: "('s, 'a) xform \<Rightarrow> ('a \<Rightarrow> ('s, 'b) xform) \<Rightarrow> ('s, 'b) xform" where
  "xbind m f = (\<lambda>s. case m s of (Inl e, s') \<Rightarrow> (Inl e, s') | (Inr v, s') \<Rightarrow> f v s')"

text \<open>A lookup whose failure is \<open>None\<close>.\<close>

definition xlookup :: "'s lookup \<Rightarrow> string \<Rightarrow> string \<Rightarrow> ('s, string option) xform" where
  "xlookup lk cfgType key =
     (\<lambda>s. case lk cfgType key s of
            (Inl e, s') \<Rightarrow> (if e = LookupDiverged then Inl TransformDiverged else Inr None, s')
          | (Inr v, s') \<Rightarrow> (Inr (Some v), s'))"

definition or_empty :: "string option \<Rightarrow> string" where
  "or_empty v = (case v of None \<Rightarrow> [] | Some x \<Rightarrow> x)"

section \<open>Strings\<close>

definition pyWhitespace :: string where
  "pyWhitespace = map char_of [32, 9, 10, 13, 11, 12 :: nat]"

text \<open>\<open>strings.Trim\<close>, \<open>TrimLeft\<close> and \<open>TrimRight\<close> with a set of characters.\<close>

definition trim_left :: "string \<Rightarrow> string \<Rightarrow> string" where
  "trim_left cutset s = dropWhile (\<lambda>c. c \<in> set cutset) s"

definition trim_right :: "string \<Rightarrow> string \<Rightarrow> string" where
  "trim_right cutset s = rev (dropWhile (\<lambda>c. c \<in> set cutset) (rev s))"

definition trim_chars :: "string \<Rightarrow> string \<Rightarrow> string" where
  "trim_chars cutset s = trim_right cutset (trim_left cutset s)"

definition trim_suffix :: "string \<Rightarrow> string \<Rightarrow> string" where
  "trim_suffix s t = (if has_suffix s t then take (length s - length t) s else s)"

definition count_char :: "char \<Rightarrow> string \<Rightarrow> nat" where
  "count_char c s = length (filter (\<lambda>x. x = c) s)"

text \<open>\<open>strings.Cut\<close>, \<open>Split\<close> and \<open>SplitN\<close> at a single character.\<close>

definition cut_char :: "char \<Rightarrow> string \<Rightarrow> string \<times> string option" where
  "cut_char c s =
     (takeWhile (\<lambda>x. x \<noteq> c) s,
      case dropWhile (\<lambda>x. x \<noteq> c) s of [] \<Rightarrow> None | _ # rest \<Rightarrow> Some rest)"

fun splitN :: "nat \<Rightarrow> char \<Rightarrow> string \<Rightarrow> string list" where
  "splitN 0 c s = [s]"
| "splitN (Suc n) c s =
     (case cut_char c s of (a, None) \<Rightarrow> [a] | (a, Some rest) \<Rightarrow> a # splitN n c rest)"

text \<open>\<open>splitN n\<close> cuts at most \<open>n\<close> times, so it is Go's \<open>SplitN\<close> with \<open>n + 1\<close>.\<close>

definition split_char :: "char \<Rightarrow> string \<Rightarrow> string list" where
  "split_char c s = splitN (length s) c s"

fun find_sub :: "string \<Rightarrow> string \<Rightarrow> nat option" where
  "find_sub t [] = (if t = [] then Some 0 else None)"
| "find_sub t (c # s) = (if has_prefix (c # s) t then Some 0 else map_option Suc (find_sub t s))"

definition spaces_for_newlines :: "string \<Rightarrow> string" where
  "spaces_for_newlines s = map (\<lambda>c. if c = CHR 0x0A then CHR '' '' else c) s"

text \<open>\<open>strconv.Itoa\<close>.\<close>

fun nat_digits :: "nat \<Rightarrow> string" where
  "nat_digits n =
     (if n < 10 then [char_of (48 + n)] else nat_digits (n div 10) @ [char_of (48 + n mod 10)])"

declare nat_digits.simps [simp del]

definition itoa :: "int \<Rightarrow> string" where
  "itoa i = (if i < 0 then CHR ''-'' # nat_digits (nat (- i)) else nat_digits (nat i))"

section \<open>The patterns\<close>

definition typed :: "string \<Rightarrow> rx" where
  "typed name =
     [(False, Lit (name @ '' '')), (True, Some1 (rx_not '':'')), (False, Lit '':''),
      (True, Some1 (\<lambda>c. \<not> rx_space c))]"

definition localConfigRe :: rx where
  "localConfigRe = [(False, Lit ''@@''), (True, Some1 (rx_not ''@'')), (False, Lit ''@@'')]"

definition configVarRe :: rx where
  "configVarRe =
     [(False, Lit ''%%''), (True, Alts [''VAR'', ''LOCAL'', ''SERVICE'']), (False, Lit '':''),
      (True, Some1 (rx_not ''%'')), (False, Lit ''%%'')]"

definition plainVarRe :: rx where
  "plainVarRe = [(False, Lit ''%%''), (True, Some1 (rx_not ''%:'')), (False, Lit ''%%'')]"

definition commentRe :: rx where "commentRe = typed ''comment''"
definition uncommentRe :: rx where "uncommentRe = typed ''uncomment''"
definition binaryRe :: rx where "binaryRe = typed ''binary''"
definition truefalseRe :: rx where "truefalseRe = typed ''truefalse''"

definition spaced_word :: rx where
  "spaced_word = [(False, Some1 rx_space), (True, Some1 (\<lambda>c. \<not> rx_space c))]"

definition rangeRe :: rx where "rangeRe = typed ''range'' @ spaced_word @ spaced_word"
definition freqRe :: rx where "freqRe = typed ''freq'' @ spaced_word"
definition freqNonDigitRe :: rx where "freqNonDigitRe = [(False, One (\<lambda>c. \<not> rx_digit c))]"
definition freqDigitRe :: rx where "freqDigitRe = [(False, One rx_digit)]"

definition explodeRe :: rx where
  "explodeRe =
     [(False, Lit ''explode ''), (True, Many rx_any), (False, Lit '' ''), (True, Some1 (rx_not '':'')),
      (False, Lit '':''), (True, Some1 rx_word)]"

definition ldapURLRe :: rx where
  "ldapURLRe =
     [(False, Lit ''ldap''), (False, Opt rx_any), (False, Lit ''://''),
      (True, Many (\<lambda>c. \<not> rx_space c)), (False, Lit '':''), (False, Some1 rx_digit)]"

definition inlineDirectRe :: rx where
  "inlineDirectRe = [(False, Lit ''%%''), (True, Some1 (rx_not ''%'')), (False, Lit ''%%'')]"

text \<open>\<open>replaceAll\<close>: the callbacks run from left to right and the first error stops.\<close>

fun replace_pieces ::
    "(string \<Rightarrow> ('s, string) xform) \<Rightarrow> (char + string \<times> string list) list \<Rightarrow> ('s, string) xform" where
  "replace_pieces fn [] = xreturn []"
| "replace_pieces fn (Inl c # ps) = xbind (replace_pieces fn ps) (\<lambda>rest. xreturn (c # rest))"
| "replace_pieces fn (Inr (match, gs) # ps) =
     xbind (fn match) (\<lambda>v. xbind (replace_pieces fn ps) (\<lambda>rest. xreturn (v @ rest)))"

definition replaceAll :: "rx \<Rightarrow> string \<Rightarrow> (string \<Rightarrow> ('s, string) xform) \<Rightarrow> ('s, string) xform" where
  "replaceAll re src fn = replace_pieces fn (rx_pieces re src)"

definition findOne :: "rx \<Rightarrow> string \<Rightarrow> ('s, string list) xform" where
  "findOne re sr =
     (case rx_find_all re sr of [gs] \<Rightarrow> xreturn gs | _ \<Rightarrow> xfail (NotMatchedOnce sr))"

section \<open>Directives\<close>

definition resolveCommentState :: "'s lookup \<Rightarrow> rx \<Rightarrow> string \<Rightarrow> bool \<Rightarrow> ('s, string) xform" where
  "resolveCommentState lk re sr isComment =
     xbind (findOne re sr) (\<lambda>gs.
       let parts = splitN 2 (CHR '','') (gs ! 1);
           key = parts ! 0;
           commentStr = (if length parts > 1 then parts ! 1 else ''#'');
           negate = has_prefix key ''!''
       in xbind (xlookup lk (gs ! 0) (trim_prefix key ''!'')) (\<lambda>v.
            let lookupVal = or_empty v;
                hit =
                  (if length parts > 2 then
                     (v = None \<and> \<not> negate) \<or>
                     (\<not> negate \<and> v \<noteq> None \<and> lookupVal \<in> set (split_char (CHR '','') (parts ! 2)))
                   else if negate then IsFalseValue lookupVal
                   else IsTrueValue lookupVal)
            in xreturn (if hit = isComment then commentStr else [])))"

definition handleCommentDirective :: "'s lookup \<Rightarrow> string \<Rightarrow> ('s, string) xform" where
  "handleCommentDirective lk sr = resolveCommentState lk commentRe sr True"

definition handleUncommentDirective :: "'s lookup \<Rightarrow> string \<Rightarrow> ('s, string) xform" where
  "handleUncommentDirective lk sr = resolveCommentState lk uncommentRe sr False"

definition lookupTruth :: "'s lookup \<Rightarrow> string \<Rightarrow> string \<Rightarrow> ('s, bool) xform" where
  "lookupTruth lk cmd key =
     xbind (xlookup lk cmd (trim_prefix key ''!'')) (\<lambda>v.
       xreturn (if has_prefix key ''!'' then IsFalseValue (or_empty v) else IsTrueValue (or_empty v)))"

definition lookupRequired :: "'s lookup \<Rightarrow> string \<Rightarrow> string \<Rightarrow> string \<Rightarrow> ('s, string) xform" where
  "lookupRequired lk sr cmd key =
     xbind (xlookup lk cmd key) (\<lambda>v.
       case v of None \<Rightarrow> xfail (NotSet sr (cmd @ '':'' @ key)) | Some x \<Rightarrow> xreturn x)"

definition handleBinaryDirective :: "'s lookup \<Rightarrow> string \<Rightarrow> ('s, string) xform" where
  "handleBinaryDirective lk sr =
     xbind (findOne binaryRe sr) (\<lambda>gs.
       xbind (lookupTruth lk (gs ! 0) (gs ! 1)) (\<lambda>t. xreturn (if t then ''1'' else ''0'')))"

definition handleTrueFalseDirective :: "'s lookup \<Rightarrow> string \<Rightarrow> ('s, string) xform" where
  "handleTrueFalseDirective lk sr =
     xbind (findOne truefalseRe sr) (\<lambda>gs.
       xbind (lookupTruth lk (gs ! 0) (gs ! 1)) (\<lambda>t. xreturn (if t then ''true'' else ''false'')))"

definition atoiPy :: "string \<Rightarrow> int option" where
  "atoiPy s = atoi (trim_chars pyWhitespace s)"

definition handleRangeDirective ::
    "(int \<Rightarrow> int \<Rightarrow> int \<Rightarrow> string) \<Rightarrow> 's lookup \<Rightarrow> string \<Rightarrow> ('s, string) xform" where
  "handleRangeDirective pyRange lk sr =
     xbind (findOne rangeRe sr) (\<lambda>gs.
       xbind (lookupRequired lk sr (gs ! 0) (gs ! 1)) (\<lambda>v.
         case (atoiPy v, atoiPy (gs ! 2), atoiPy (gs ! 3)) of
           (Some x, Some lo, Some hi) \<Rightarrow> xreturn (pyRange x lo hi)
         | _ \<Rightarrow> xfail (NotIntegers sr)))"

definition splitTypeKey :: "string \<Rightarrow> string \<Rightarrow> ('s, string \<times> string) xform" where
  "splitTypeKey sr field =
     (case split_char (CHR '':'') field of
        [cfgType, key] \<Rightarrow> xreturn (cfgType, key)
      | _ \<Rightarrow> xfail (NotTypeKey sr))"

definition handleListDirective :: "'s lookup \<Rightarrow> string \<Rightarrow> ('s, string) xform" where
  "handleListDirective lk sr =
     (let fields = splitN 2 (CHR '' '') sr in
      if length fields < 2 then xfail (MissingTypeKey sr)
      else
        xbind (splitTypeKey sr (fields ! 1)) (\<lambda>(cfgType, key).
          xbind (xlookup lk cfgType key) (\<lambda>v.
            if or_empty v = [] then xreturn []
            else if length fields < 3 then xfail (MissingSeparator sr)
            else xreturn (join_with (fields ! 2) (str_fields (or_empty v))))))"

definition resolveSearchReplaceDirective ::
    "'s lookup \<Rightarrow> string \<Rightarrow> bool \<Rightarrow> (string \<Rightarrow> string \<Rightarrow> bool) \<Rightarrow> ('s, string) xform" where
  "resolveSearchReplaceDirective lk sr searchInNone match =
     (let f = splitN 2 (CHR ''^'') sr;
          replacement = (if length f > 1 then trim_chars pyWhitespace (f ! 1) else []);
          altReplacement = (if length f > 2 then trim_chars pyWhitespace (f ! 2) else []);
          fields = splitN 2 (CHR '' '') (f ! 0)
      in if length fields < 2 then xfail (MissingTypeKey sr)
         else
           xbind (splitTypeKey sr (fields ! 1)) (\<lambda>(cfgType, key).
             xbind (xlookup lk cfgType key) (\<lambda>v.
               if v = None \<and> \<not> searchInNone then xreturn []
               else if length fields < 3 then xfail (MissingSearchString sr)
               else
                 let lookupVal = (case v of None \<Rightarrow> ''None'' | Some x \<Rightarrow> x);
                     searchString = fields ! 2
                 in xreturn
                      (if match lookupVal searchString then
                         (if replacement = [] then searchString else replacement)
                       else altReplacement))))"

definition handleContainsDirective :: "'s lookup \<Rightarrow> string \<Rightarrow> ('s, string) xform" where
  "handleContainsDirective lk sr = resolveSearchReplaceDirective lk sr True contains_sub"

definition handleExactDirective :: "'s lookup \<Rightarrow> string \<Rightarrow> ('s, string) xform" where
  "handleExactDirective lk sr =
     resolveSearchReplaceDirective lk sr False (\<lambda>lookupVal s. s \<in> set (str_fields lookupVal))"

text \<open>Go's integer operators on 64-bit integers.\<close>

definition go_int :: "int \<Rightarrow> int" where
  "go_int i = signed_take_bit 63 i"

definition floorDiv :: "int \<Rightarrow> int \<Rightarrow> int" where
  "floorDiv a b =
     (let q = go_int (a sdiv b) in
      if a smod b \<noteq> 0 \<and> (a < 0) \<noteq> (b < 0) then go_int (q - 1) else q)"

definition freqValue :: "string \<Rightarrow> int \<Rightarrow> int \<Rightarrow> int" where
  "freqValue per valNum0 tot =
     (let valNum =
            (if per = ''m'' then floorDiv valNum0 60
             else if per = ''s'' then floorDiv valNum0 3600
             else if per = ''d'' then go_int (valNum0 * 24)
             else valNum0);
          val = (if valNum \<noteq> 0 then floorDiv tot valNum else tot)
      in if val < 1 \<and> tot > 1 then 1 else val)"

definition handleFreqDirective :: "'s lookup \<Rightarrow> string \<Rightarrow> ('s, string) xform" where
  "handleFreqDirective lk sr =
     xbind (findOne freqRe sr) (\<lambda>gs.
       xbind (lookupRequired lk sr (gs ! 0) (gs ! 1)) (\<lambda>v.
         case (atoi (rx_delete_all freqNonDigitRe v), atoiPy (gs ! 2)) of
           (Some valNum, Some tot) \<Rightarrow>
             xreturn (itoa (freqValue (rx_delete_all freqDigitRe v) valNum tot))
         | _ \<Rightarrow> xfail (NotIntegers sr)))"

definition handleExplodeDirective :: "'s lookup \<Rightarrow> string \<Rightarrow> ('s, string) xform" where
  "handleExplodeDirective lk sr =
     xbind (findOne explodeRe sr) (\<lambda>gs.
       xbind (xlookup lk (gs ! 1) (gs ! 2)) (\<lambda>v.
         xreturn (join_with [CHR 0x0A] (map (\<lambda>w. (gs ! 0) @ '' '' @ w) (str_fields (or_empty v))))))"

definition handleDefaultLookup :: "'s lookup \<Rightarrow> string \<Rightarrow> ('s, string) xform" where
  "handleDefaultLookup lk sr =
     xbind (xlookup lk ''VAR'' sr) (\<lambda>v.
       case v of
         Some x \<Rightarrow> xreturn x
       | None \<Rightarrow> xbind (xlookup lk ''LOCAL'' sr) (\<lambda>w. xreturn (or_empty w)))"

section \<open>Substitutions\<close>

definition xformLocalConfig :: "'s lookup \<Rightarrow> string \<Rightarrow> ('s, string) xform" where
  "xformLocalConfig lk match =
     (let text = trim_chars ''@'' match;
          (funcName, lookupKey) =
            (case cut_char (CHR '' '') text of (fn, Some rest) \<Rightarrow> (fn, rest) | (_, None) \<Rightarrow> ([], text))
      in xbind (xlookup lk ''LOCAL'' lookupKey) (\<lambda>v.
           case v of
             None \<Rightarrow>
               if funcName = ''SPLIT'' \<or> funcName = ''PERDITION_LDAP_SPLIT''
               then xfail (LocalNotSet funcName lookupKey) else xreturn []
           | Some val \<Rightarrow>
               if funcName = ''SPLIT'' then xreturn (fst (cut_char (CHR '' '') val))
               else if funcName = ''PERDITION_LDAP_SPLIT'' then
                 (case str_fields val of
                    [] \<Rightarrow> xfail (LocalEmpty lookupKey)
                  | first # _ \<Rightarrow>
                      xreturn (first @ '' '' @ join_with '' '' (map hd (rx_find_all ldapURLRe val))))
               else xreturn val))"

definition xformConfigVariable :: "'s lookup \<Rightarrow> string \<Rightarrow> ('s, string) xform" where
  "xformConfigVariable lk match =
     (case splitN 1 (CHR '':'') (trim_chars ''%'' match) of
        [cfgType, key] \<Rightarrow>
          if cfgType \<in> {''VAR'', ''LOCAL'', ''SERVICE''}
          then xbind (xlookup lk cfgType key) (\<lambda>v. xreturn (or_empty v))
          else xreturn []
      | _ \<Rightarrow> xreturn [])"

definition xformConfig ::
    "(int \<Rightarrow> int \<Rightarrow> int \<Rightarrow> string) \<Rightarrow> 's lookup \<Rightarrow> string \<Rightarrow> ('s, string) xform" where
  "xformConfig pyRange lk match =
     (let sr = trim_chars ''%'' match in
      if has_prefix sr ''comment'' then handleCommentDirective lk sr
      else if has_prefix sr ''uncomment'' then handleUncommentDirective lk sr
      else if has_prefix sr ''binary'' then handleBinaryDirective lk sr
      else if has_prefix sr ''truefalse'' then handleTrueFalseDirective lk sr
      else if has_prefix sr ''range'' then handleRangeDirective pyRange lk sr
      else if has_prefix sr ''freq'' then handleFreqDirective lk sr
      else if has_prefix sr ''list'' then handleListDirective lk sr
      else if has_prefix sr ''contains'' then handleContainsDirective lk sr
      else if has_prefix sr ''exact'' then handleExactDirective lk sr
      else if has_prefix sr ''explode'' then handleExplodeDirective lk sr
      else handleDefaultLookup lk sr)"

definition keepOnOneLine :: "string \<Rightarrow> string \<Rightarrow> string \<Rightarrow> string" where
  "keepOnOneLine line match val =
     (if trim_space line = match then val else spaces_for_newlines val)"

section \<open>A line\<close>

definition isPrefixDirective :: "string \<Rightarrow> bool" where
  "isPrefixDirective d \<longleftrightarrow> has_prefix d ''comment '' \<or> has_prefix d ''uncomment ''"

definition knownDirectives :: "string list" where
  "knownDirectives =
     [''binary'', ''truefalse'', ''range'', ''freq'', ''list'', ''contains'', ''exact'', ''explode'']"

definition isWrappingDirective :: "string \<Rightarrow> bool" where
  "isWrappingDirective d \<longleftrightarrow>
     (\<exists>name \<in> set [''contains'', ''exact'', ''list'', ''binary'', ''truefalse'', ''range'', ''freq'',
       ''explode'']. has_prefix d (name @ '' ''))"

definition isKnownDirective :: "string \<Rightarrow> bool" where
  "isKnownDirective name \<longleftrightarrow> name \<in> set knownDirectives"

definition processPrefixDirective ::
    "(int \<Rightarrow> int \<Rightarrow> int \<Rightarrow> string) \<Rightarrow> 's lookup \<Rightarrow> string \<Rightarrow> ('s, string) xform" where
  "processPrefixDirective pyRange lk line =
     (let trimmed = trim_left [CHR '' '', CHR 0x09] line;
          indent = take (length line - length trimmed) line
      in if \<not> has_prefix trimmed ''%%'' then xreturn line
         else
           case find_sub ''%%'' (drop 2 trimmed) of
             None \<Rightarrow> xreturn line
           | Some n \<Rightarrow>
               let directiveContent = take n (drop 2 trimmed);
                   restOfLine = drop (n + 4) trimmed
               in if \<not> isPrefixDirective directiveContent then xreturn line
                  else xbind (xformConfig pyRange lk (''%%'' @ directiveContent @ ''%%'')) (\<lambda>v.
                         xreturn (indent @ trim_suffix v [CHR 0x0A] @ restOfLine)))"

text \<open>The result is \<open>None\<close> when the line is not a wrapping directive, and final otherwise.\<close>

definition processWrappingDirective ::
    "(int \<Rightarrow> int \<Rightarrow> int \<Rightarrow> string) \<Rightarrow> 's lookup \<Rightarrow> string \<Rightarrow> ('s, string option) xform" where
  "processWrappingDirective pyRange lk line =
     (if \<not> has_prefix line ''%%'' \<or> \<not> has_suffix line ''%%'' \<or> count_char (CHR ''%'') line < 4
      then xreturn None
      else
        let innerContent = trim_prefix (trim_suffix line ''%%'') ''%%'' in
        if \<not> isWrappingDirective innerContent then xreturn None
        else
          xbind
            (if has_prefix innerContent ''contains '' \<or> has_prefix innerContent ''exact '' then
               xbind (replaceAll configVarRe innerContent (\<lambda>match.
                        xbind (xformConfigVariable lk match) (\<lambda>v. xreturn (spaces_for_newlines v))))
                 (\<lambda>substituted.
                   xbind (replaceAll plainVarRe substituted (xformConfig pyRange lk))
                     (\<lambda>t. xreturn (''%%'' @ t @ ''%%'')))
             else xreturn line)
            (\<lambda>line'. xbind (xformConfig pyRange lk line') (\<lambda>v. xreturn (Some (v @ [CHR 0x0A])))))"

definition processInlineDirectives ::
    "(int \<Rightarrow> int \<Rightarrow> int \<Rightarrow> string) \<Rightarrow> 's lookup \<Rightarrow> string \<Rightarrow> ('s, string) xform" where
  "processInlineDirectives pyRange lk line =
     (if \<not> contains_sub line ''%%'' \<or> count_char (CHR ''%'') line < 4 then xreturn line
      else
        replaceAll inlineDirectRe line (\<lambda>match.
          case splitN 1 (CHR '' '') (trim_chars ''%'' match) of
            [directiveName, _] \<Rightarrow>
              if isKnownDirective directiveName then xformConfig pyRange lk match else xreturn match
          | _ \<Rightarrow> xreturn match))"

definition Transform ::
    "(int \<Rightarrow> int \<Rightarrow> int \<Rightarrow> string) \<Rightarrow> 's lookup \<Rightarrow> string \<Rightarrow> ('s, string) xform" where
  "Transform pyRange lk line =
     (if count_char (CHR ''@'') line < 2 \<and> count_char (CHR ''%'') line < 2 then xreturn line
      else
        xbind (replaceAll localConfigRe line (xformLocalConfig lk)) (\<lambda>line1.
        xbind (processPrefixDirective pyRange lk (trim_right pyWhitespace line1)) (\<lambda>line2.
        xbind (processWrappingDirective pyRange lk line2) (\<lambda>wrapped.
          case wrapped of
            Some result \<Rightarrow> xreturn result
          | None \<Rightarrow>
              xbind (processInlineDirectives pyRange lk line2) (\<lambda>line3.
              xbind (replaceAll configVarRe line3 (\<lambda>match.
                       xbind (xformConfigVariable lk match) (\<lambda>v. xreturn (keepOnOneLine line3 match v))))
                (\<lambda>line4.
              xbind (replaceAll plainVarRe line4 (\<lambda>match.
                       xbind (xformConfig pyRange lk match) (\<lambda>v. xreturn (keepOnOneLine line4 match v))))
                (\<lambda>line5. xreturn (line5 @ [CHR 0x0A]))))))))"

end
