(* ===== verification/Config_Lookup.thy ===== *)
theory Config_Lookup
  imports Daemon_State Transformer
begin

text \<open>
  The lookups of package \<open>internal/configmgr\<close> (\<open>LookUpConfig\<close> and its helpers in \<open>manager.go\<close>,
  \<open>conditional.go\<close>, \<open>file_scratch.go\<close>), which implement the interface \<open>lookup.ConfigLookup\<close> the
  transformer, the observation and the conditionals read through.

  A FILE lookup renders the file through the transformer, which looks keys up in turn and may name
  another FILE: the recursion has no bound in the source, so it is bounded here by fuel, the depth of
  FILE lookups nested in one another. Running out is \<open>LookupDiverged\<close> and is never swallowed; a result
  other than that is the same at every greater depth (\<open>LookUpConfig_mono\<close> in \<open>Lookup_Correct\<close>).
\<close>

section \<open>The host\<close>

text \<open>
  What the lookups read of the host: the content of a file (\<open>ReadFile\<close>) and whether a path exists
  (\<open>Stat\<close>), each with the reason it failed.
\<close>

record lookup_host =
  lh_read :: "string \<Rightarrow> lookup_error + string"
  lh_stat :: "string \<Rightarrow> lookup_error option"
  lh_pyRange :: "int \<Rightarrow> int \<Rightarrow> int \<Rightarrow> string"

type_synonym ConfigLookup = "State lookup"

section \<open>FILE values\<close>

text \<open>The rendered, trimmed, non-empty lines of a file, or the first error of the transformer.\<close>

fun render_lines :: "(string \<Rightarrow> ('s, string) xform) \<Rightarrow> string list \<Rightarrow> ('s, string list) xform" where
  "render_lines transform [] = xreturn []"
| "render_lines transform (line # rest) =
     xbind (transform line) (\<lambda>v.
       xbind (render_lines transform rest) (\<lambda>out.
         xreturn (if trim_space v = [] then out else trim_space v # out)))"

definition lookupFileKey ::
    "(string \<Rightarrow> (State, string) xform) \<Rightarrow> lookup_host \<Rightarrow> Config \<Rightarrow> string \<Rightarrow> State
      \<Rightarrow> (lookup_error + string) \<times> State" where
  "lookupFileKey transform host cfg key s =
     (case LookupFile key s of
        Some v \<Rightarrow> (Inr v, s)
      | None \<Rightarrow>
          let filePath = TemplatePath cfg (''conf/'' @ key) in
          (case lh_read host filePath of
             Inl e \<Rightarrow> (Inl e, s)
           | Inr content \<Rightarrow>
               (case render_lines transform (split_char (CHR 0x0A) content) s of
                  (Inl e, s') \<Rightarrow>
                    (Inl (if e = TransformDiverged then LookupDiverged
                          else LookupFailed (''transform '' @ filePath)), s')
                | (Inr filteredLines, s') \<Rightarrow>
                    let val = join_with '', '' filteredLines in (Inr val, StoreFile key val s'))))"

definition lookupMappedFileKey ::
    "lookup_host \<Rightarrow> Config \<Rightarrow> string \<Rightarrow> State \<Rightarrow> (lookup_error + string) \<times> State" where
  "lookupMappedFileKey host cfg key s =
     (case mget MAPPEDFILES key of
        None \<Rightarrow> (Inl LookupNotFound, s)
      | Some mappedPath \<Rightarrow>
          let fullPath = cfg_BaseDir cfg @ ''/'' @ mappedPath in
          (case lh_stat host fullPath of
             None \<Rightarrow> (Inr fullPath, s)
           | Some FileNotExist \<Rightarrow> (Inr [], s)
           | Some e \<Rightarrow> (Inl e, s)))"

section \<open>The lookup\<close>

definition found_or_miss :: "string option \<Rightarrow> lookup_error + string" where
  "found_or_miss v = (case v of None \<Rightarrow> Inl LookupNotFound | Some x \<Rightarrow> Inr x)"

fun LookUpConfig :: "nat \<Rightarrow> lookup_host \<Rightarrow> Config \<Rightarrow> ConfigLookup" where
  "LookUpConfig depth host cfg cfgType key s =
     (if cfgType = TypeVar then (found_or_miss (Var (StateSnapshot s) key), s)
      else if cfgType = TypeLocal then (found_or_miss (Local (StateSnapshot s) key), s)
      else if cfgType = TypeFile then
        (case depth of
           0 \<Rightarrow> (Inl LookupDiverged, s)
         | Suc d \<Rightarrow>
             lookupFileKey (Transform (lh_pyRange host) (LookUpConfig d host cfg)) host cfg key s)
      else if cfgType = TypeMapFile \<or> cfgType = TypeMapLocal then lookupMappedFileKey host cfg key s
      else if cfgType = TypeService then (found_or_miss (SnapshotValue (StateSnapshot s) TypeService key), s)
      else (Inl (LookupFailed (''unknown config type '' @ cfgType)), s))"

declare LookUpConfig.simps [simp del]

definition CheckConditional :: "ConfigLookup \<Rightarrow> string \<Rightarrow> string \<Rightarrow> State \<Rightarrow> bool \<times> State" where
  "CheckConditional lk cfgType key0 s =
     (case cut_prefix key0 ''!'' of (key, negate) \<Rightarrow>
       (case lk cfgType key s of
          (Inl _, s') \<Rightarrow> (negate, s')
        | (Inr v, s') \<Rightarrow> (IsTrueValue v \<noteq> negate, s')))"

end
