(* ===== verification/Base64.thy ===== *)
theory Base64
  imports Go_Prelude
begin

text \<open>
  The standard base64 encoding of Go's \<open>encoding/base64\<close> (\<open>StdEncoding\<close>: padded, and the decoder
  skips line breaks and does not check the unused bits of a padded quantum), which the mapped files
  of the configuration travel in, with the round trip the code relies on.
\<close>

section \<open>Sextets\<close>

definition b64_alphabet :: string where
  "b64_alphabet = ''ABCDEFGHIJKLMNOPQRSTUVWXYZabcdefghijklmnopqrstuvwxyz0123456789+/''"

definition b64_char :: "nat \<Rightarrow> char" where
  "b64_char n = b64_alphabet ! n"

fun index_of :: "'a \<Rightarrow> 'a list \<Rightarrow> nat option" where
  "index_of x [] = None"
| "index_of x (y # ys) = (if x = y then Some 0 else map_option Suc (index_of x ys))"

definition b64_val :: "char \<Rightarrow> nat option" where
  "b64_val c = index_of c b64_alphabet"

definition byte :: "nat \<Rightarrow> char" where
  "byte n = char_of n"

section \<open>Encoding and decoding\<close>

text \<open>\<open>EncodeToString\<close>.\<close>

fun b64_encode :: "string \<Rightarrow> string" where
  "b64_encode [] = []"
| "b64_encode [a] =
     (let x = of_char a in [b64_char (x div 4), b64_char (x mod 4 * 16), CHR ''='', CHR ''=''])"
| "b64_encode [a, b] =
     (let x = of_char a; y = of_char b in
      [b64_char (x div 4), b64_char (x mod 4 * 16 + y div 16), b64_char (y mod 16 * 4), CHR ''=''])"
| "b64_encode (a # b # c # s) =
     (let x = of_char a; y = of_char b; z = of_char c in
      b64_char (x div 4) # b64_char (x mod 4 * 16 + y div 16) # b64_char (y mod 16 * 4 + z div 64) #
      b64_char (z mod 64) # b64_encode s)"

text \<open>The decoder on a text without line breaks; \<open>None\<close> is \<open>CorruptInputError\<close>.\<close>

fun b64_quanta :: "string \<Rightarrow> string option" where
  "b64_quanta [] = Some []"
| "b64_quanta (a # b # c # d # s) =
     (case (b64_val a, b64_val b) of
        (Some p, Some q) \<Rightarrow>
          let x = byte (4 * p + q div 16) in
          if c = CHR ''='' then (if d = CHR ''='' \<and> s = [] then Some [x] else None)
          else
            (case b64_val c of
               None \<Rightarrow> None
             | Some r \<Rightarrow>
                 let y = byte (q mod 16 * 16 + r div 4) in
                 if d = CHR ''='' then (if s = [] then Some [x, y] else None)
                 else
                   (case (b64_val d, b64_quanta s) of
                      (Some t, Some rest) \<Rightarrow> Some (x # y # byte (r mod 4 * 64 + t) # rest)
                    | _ \<Rightarrow> None))
      | _ \<Rightarrow> None)"
| "b64_quanta _ = None"

definition b64_decode :: "string \<Rightarrow> string option" where
  "b64_decode s = b64_quanta (filter (\<lambda>c. c \<noteq> CHR 0x0A \<and> c \<noteq> CHR 0x0D) s)"

section \<open>The round trip\<close>

lemma b64_sextets:
  "list_all (\<lambda>n. b64_val (b64_char n) = Some n \<and> b64_char n \<noteq> CHR ''='' \<and> b64_char n \<noteq> CHR 0x0A \<and>
     b64_char n \<noteq> CHR 0x0D) [0..<64]"
  by code_simp

lemma b64_sextet [simp]:
  assumes "n < 64"
  shows "b64_val (b64_char n) = Some n" "b64_char n \<noteq> CHR ''=''" "b64_char n \<noteq> CHR 0x0A"
    "b64_char n \<noteq> CHR 0x0D"
  using b64_sextets assms by (auto simp: list_all_iff)

lemma byte_of_char [simp]: "byte (of_char c) = c"
  by (simp add: byte_def)

lemma of_char_less [simp]: "(of_char c :: nat) < 256"
  using mod_less_divisor [of 256 "of_char c :: nat"] by simp

lemma sextet_bounds:
  fixes x y z :: nat
  assumes "x < 256" "y < 256" "z < 256"
  shows "x div 4 < 64" "x mod 4 * 16 + y div 16 < 64" "y mod 16 * 4 + z div 64 < 64" "z mod 64 < 64"
    "x mod 4 * 16 < 64" "y mod 16 * 4 < 64"
proof -
  have "x mod 4 < 4" "y mod 16 < 16" "y div 16 < 16" "z div 64 < 4" using assms by auto
  then show "x mod 4 * 16 + y div 16 < 64" "y mod 16 * 4 + z div 64 < 64" "x mod 4 * 16 < 64"
    "y mod 16 * 4 < 64" by linarith+
qed (use assms in auto)

lemma char_sextet_split [simp]:
  "(of_char c :: nat) div 16 div 16 = 0" "(of_char c :: nat) div 16 mod 16 = of_char c div 16"
  "(of_char c :: nat) div 64 div 4 = 0" "(of_char c :: nat) div 64 mod 4 = of_char c div 64"
proof -
  have "(of_char c :: nat) div 16 < 16" "(of_char c :: nat) div 64 < 4" by (simp_all add: less_mult_imp_div_less)
  then show "(of_char c :: nat) div 16 div 16 = 0" "(of_char c :: nat) div 16 mod 16 = of_char c div 16"
    "(of_char c :: nat) div 64 div 4 = 0" "(of_char c :: nat) div 64 mod 4 = of_char c div 64" by simp_all
qed

lemmas char_sextets [simp] =
  sextet_bounds [OF of_char_less of_char_less of_char_less]

lemma b64_quanta_encode: "b64_quanta (b64_encode s) = Some s"
  by (induction s rule: b64_encode.induct) (simp_all add: Let_def)

lemma b64_encode_one_line: "c \<in> set (b64_encode s) \<Longrightarrow> c \<noteq> CHR 0x0A \<and> c \<noteq> CHR 0x0D"
  by (induction s rule: b64_encode.induct) (auto simp: Let_def dest: sym)

lemma b64_roundtrip [simp]: "b64_decode (b64_encode s) = Some s"
proof -
  have "filter (\<lambda>c. c \<noteq> CHR 0x0A \<and> c \<noteq> CHR 0x0D) (b64_encode s) = b64_encode s"
    by (rule filter_True) (use b64_encode_one_line in blast)
  then show ?thesis by (simp add: b64_decode_def b64_quanta_encode)
qed

lemma b64_encode_eq_Nil [simp]: "b64_encode s = [] \<longleftrightarrow> s = []"
  by (cases s rule: b64_encode.cases) (simp_all add: Let_def)

text \<open>A text with a character outside the alphabet (PEM armour has dashes) does not decode.\<close>

lemma index_of_None [simp]: "index_of x xs = None \<longleftrightarrow> x \<notin> set xs"
  by (induction xs) auto

lemma b64_val_Some: "b64_val c = Some n \<Longrightarrow> c \<in> set b64_alphabet"
  unfolding b64_val_def by (metis index_of_None option.distinct(1))

lemma b64_quanta_alphabet:
  "b64_quanta s \<noteq> None \<Longrightarrow> set s \<subseteq> set b64_alphabet \<union> {CHR ''=''}"
  by (induction s rule: b64_quanta.induct)
    (auto simp: Let_def dest: b64_val_Some split: option.splits if_splits)

lemma b64_decode_alphabet:
  "b64_decode s \<noteq> None \<Longrightarrow> set s \<subseteq> set b64_alphabet \<union> {CHR ''='', CHR 0x0A, CHR 0x0D}"
  unfolding b64_decode_def by (drule b64_quanta_alphabet) auto

end
