(* ===== verification/Config_Cycle.thy ===== *)
theory Config_Cycle
  imports Config_Lookup Base64 Plan_Compute Restart_Policy
begin

text \<open>
  Package \<open>internal/configmgr\<close>: loading the configuration into a snapshot (\<open>manager_stage.go\<close>,
  \<open>manager_load.go\<close>), observing what the parsed \<open>zmconfigd.cf\<close> depends on, planning a cycle and
  keeping what it deferred (\<open>manager_plan.go\<close>). The lookups go through the interface
  \<open>lookup.ConfigLookup\<close>: a function on the daemon state, since a FILE lookup fills the file cache.
\<close>

section \<open>Loading\<close>

text \<open>The staging area of a load attempt: a part is there once its loader delivered it.\<close>

record stagedLoad =
  sl_local :: "string smap option"
  sl_global :: "string smap option"
  sl_misc :: "string smap option"
  sl_server :: "(string smap \<times> string smap) option"

definition empty_stage :: stagedLoad where
  "empty_stage = \<lparr>sl_local = None, sl_global = None, sl_misc = None, sl_server = None\<rparr>"

definition setLocal :: "string smap \<Rightarrow> stagedLoad \<Rightarrow> stagedLoad" where
  "setLocal m s = s\<lparr>sl_local := Some m\<rparr>"

definition setGlobal :: "string smap \<Rightarrow> stagedLoad \<Rightarrow> stagedLoad" where
  "setGlobal m s = s\<lparr>sl_global := Some m\<rparr>"

definition setMisc :: "string smap \<Rightarrow> stagedLoad \<Rightarrow> stagedLoad" where
  "setMisc m s = s\<lparr>sl_misc := Some m\<rparr>"

definition setServer :: "string smap \<Rightarrow> string smap \<Rightarrow> stagedLoad \<Rightarrow> stagedLoad" where
  "setServer m services s = s\<lparr>sl_server := Some (m, services)\<rparr>"

definition apply_stage :: "stagedLoad \<Rightarrow> SnapshotRef \<Rightarrow> SnapshotRef" where
  "apply_stage s old =
     (if sl_local s = None \<and> sl_global s = None \<and> sl_misc s = None \<and> sl_server s = None then old
      else
        let s1 = (case sl_local s of None \<Rightarrow> old | Some m \<Rightarrow> WithLocal old m);
            s2 = (case sl_global s of None \<Rightarrow> s1 | Some m \<Rightarrow> WithGlobal s1 m);
            s3 = (case sl_misc s of None \<Rightarrow> s2 | Some m \<Rightarrow> WithMisc s2 m);
            s4 = (case sl_server s of None \<Rightarrow> s3 | Some (m, services) \<Rightarrow> WithServer s3 m services)
        in WithObserved s4 [])"

text \<open>
  The outcome of one load attempt (\<open>runLoadAttempt\<close>): cancelled by a shutdown, or the time-out flag,
  the errors of the loaders in their order, and what the loaders staged. \<open>load_error\<close> is the error of
  a load; \<open>LoadTimeout\<close> carries the attempt, 0 for the final one.
\<close>

datatype load_error = LoaderFailed string | LoadTimeout nat | LoadCancelled

datatype load_attempt = CancelledAttempt | Attempt bool "string list" stagedLoad

definition evaluateLoadResult ::
    "bool \<Rightarrow> string list \<Rightarrow> nat \<Rightarrow> nat \<Rightarrow> bool \<times> load_error option" where
  "evaluateLoadResult timedOut errs attempt maxRetries =
     (if \<not> timedOut \<and> errs = [] then (False, None)
      else if attempt < maxRetries then
        (True, Some (if timedOut then LoadTimeout attempt else LoaderFailed (hd errs)))
      else (False, Some (if errs \<noteq> [] then LoaderFailed (hd errs) else LoadTimeout 0)))"

text \<open>
  The loop over the attempts; the list holds the outcomes of the attempts in order, and the pause
  between two of them may be cut short by a shutdown (a \<open>CancelledAttempt\<close>).
\<close>

fun load_attempts ::
    "nat \<Rightarrow> nat \<Rightarrow> load_attempt list \<Rightarrow> load_error option \<Rightarrow> State \<Rightarrow> load_error option \<times> State" where
  "load_attempts attempt maxRetries [] lastErr s = (lastErr, s)"
| "load_attempts attempt maxRetries (a # rest) lastErr s =
     (if attempt > maxRetries then (lastErr, s)
      else
        case a of
          CancelledAttempt \<Rightarrow> (Some LoadCancelled, s)
        | Attempt timedOut errs stage \<Rightarrow>
            let s1 = UpdateSnapshot (apply_stage stage) s in
            (case evaluateLoadResult timedOut errs attempt maxRetries of
               (True, err) \<Rightarrow> load_attempts (Suc attempt) maxRetries rest err s1
             | (False, err) \<Rightarrow> (err, s1)))"

definition LoadAllConfigsWithRetry :: "nat \<Rightarrow> load_attempt list \<Rightarrow> State \<Rightarrow> load_error option \<times> State" where
  "LoadAllConfigsWithRetry maxRetries outcomes s =
     load_attempts 1 maxRetries outcomes None (ClearFileCache s)"

definition LoadAllConfigs :: "load_attempt list \<Rightarrow> State \<Rightarrow> load_error option \<times> State" where
  "LoadAllConfigs outcomes s = LoadAllConfigsWithRetry 1 outcomes s"

text \<open>The time each attempt waits for the loaders, in seconds.\<close>

definition parseLDAPReadTimeout :: "string smap \<Rightarrow> int" where
  "parseLDAPReadTimeout localConfig =
     (let ms = (case mget localConfig ''ldap_read_timeout'' of
                  None \<Rightarrow> 60000
                | Some s \<Rightarrow> (case atoi s of None \<Rightarrow> 60000 | Some v \<Rightarrow> v))
      in if ms \<ge> 60000 then ms div 1000 else 60)"

section \<open>The manager\<close>

record 'm ConfigManager =
  cm_mainConfig :: Config
  cm_State :: State
  cm_policy :: "'m Policy"
  cm_prev :: SnapshotRef
  cm_tracked :: "string smap"
  cm_carry :: Carry
  cm_deferred :: "Restart list"

section \<open>Observing\<close>

definition lookupIsMissing :: "lookup_error \<Rightarrow> bool" where
  "lookupIsMissing e \<longleftrightarrow> e = LookupNotFound \<or> e = FileNotExist"

definition mappedFileBase64 :: "string \<Rightarrow> State \<Rightarrow> string" where
  "mappedFileBase64 key s =
     (let val = (case Var (StateSnapshot s) key of None \<Rightarrow> [] | Some v \<Rightarrow> v) in
      if val = [] then []
      else if b64_decode val \<noteq> None then val
      else b64_encode val)"

definition mapfilePath :: "Config \<Rightarrow> string \<Rightarrow> State \<Rightarrow> string" where
  "mapfilePath cfg key s =
     (case mget MAPPEDFILES key of
        None \<Rightarrow> []
      | Some relPath \<Rightarrow>
          if mappedFileBase64 key s = [] then [] else cfg_BaseDir cfg @ ''/'' @ relPath)"

type_synonym observing = "(Lookup, string) gomap \<times> State"

definition observeOne :: "ConfigLookup \<Rightarrow> Config \<Rightarrow> SnapshotRef \<Rightarrow> Lookup \<Rightarrow> observing \<Rightarrow> observing" where
  "observeOne lk cfg base ident os =
     (case (ident, os) of ((lookupType, key), (obs, s)) \<Rightarrow>
       if mhas obs ident then os
       else if lookupType = TypeMapFile then (mput ident (mapfilePath cfg key s) obs, s)
       else
         (case lk lookupType key s of
            (Inr v, s') \<Rightarrow> (mput ident v obs, s')
          | (Inl e, s') \<Rightarrow>
              if lookupIsMissing e then (mput ident [] obs, s')
              else (mput ident (observed_or_empty base lookupType key) obs, s')))"

text \<open>
  The lookups of a section, in the order they are made. A nil section, on which the source would
  panic and which the parser never stores, asks for none.
\<close>

definition section_lookups :: "MtaConfigSection option \<Rightarrow> Lookup list" where
  "section_lookups sec =
     (case sec of
        None \<Rightarrow> []
      | Some x \<Rightarrow>
          map (\<lambda>(key, lookupType). (lookupType, trim_prefix key ''!'')) (sec_required x) @
          map (\<lambda>c. (cond_type c, trim_prefix (cond_key c) ''!'')) (sec_conditionals x))"

definition conf_lookups :: "MtaConfig option \<Rightarrow> Lookup list" where
  "conf_lookups conf =
     (case conf of None \<Rightarrow> [] | Some c \<Rightarrow> concat (map (section_lookups \<circ> snd) (mta_sections c)))"

definition Observe ::
    "ConfigLookup \<Rightarrow> Config \<Rightarrow> SnapshotRef \<Rightarrow> MtaConfig option \<Rightarrow> State \<Rightarrow> SnapshotRef \<times> State" where
  "Observe lk cfg base conf s =
     (case fold (observeOne lk cfg base) (conf_lookups conf) ([], s) of
        (obs, s') \<Rightarrow> (WithObserved base obs, s'))"

section \<open>Planning\<close>

definition cmSystemdMode :: "'m ConfigManager \<Rightarrow> 'm \<Rightarrow> bool" where
  "cmSystemdMode cm m = SystemdMode (cm_policy cm) m"

definition holdDeferred ::
    "bool \<Rightarrow> bool \<Rightarrow> Plan \<Rightarrow> 'm ConfigManager \<Rightarrow> Plan \<times> 'm ConfigManager" where
  "holdDeferred systemd release pl cm =
     (let held = (if pl_Deferred pl \<noteq> [] then MergeRestarts (cm_deferred cm) (pl_Deferred pl) systemd
                  else cm_deferred cm)
      in if \<not> release \<or> held = [] then (pl, cm\<lparr>cm_deferred := held\<rparr>)
         else (pl\<lparr>pl_Restarts := MergeRestarts held (pl_Restarts pl) systemd\<rparr>, cm\<lparr>cm_deferred := []\<rparr>))"

text \<open>The input the cycle computes its plan from.\<close>

definition plan_input :: "'m ConfigManager \<Rightarrow> 'm \<Rightarrow> SnapshotRef \<Rightarrow> string list \<Rightarrow> Input" where
  "plan_input cm m cur reqs =
     \<lparr>in_Prev = cm_prev cm, in_Cur = cur, in_Conf = GetMtaConfig (cm_State cm),
      in_Forced = ForcedSections (cm_State cm), in_Requested = reqs,
      in_FirstRun = IsFirstRun (cm_State cm), in_Tracked = cm_tracked cm, in_Carry = cm_carry cm,
      in_Scope = cfg_Sections (cm_mainConfig cm), in_AssumeChanged = False, in_Host = None,
      in_Systemd = cmSystemdMode cm m\<rparr>"

definition PlanCycle ::
    "ConfigLookup \<Rightarrow> 'm \<Rightarrow> 'm ConfigManager \<Rightarrow> (plan_error + Plan) \<times> 'm ConfigManager" where
  "PlanCycle lk m cm =
     (case Observe lk (cm_mainConfig cm) (StateSnapshot (cm_State cm)) (GetMtaConfig (cm_State cm))
             (cm_State cm) of
        (cur, s1) \<Rightarrow>
          (case TakeRequestedConfigs (Publish cur s1) of
             (reqs, s2) \<Rightarrow>
               let cm1 = cm\<lparr>cm_State := s2\<rparr>;
                   i = plan_input cm1 m cur reqs
               in (case Compute i of
                     Inl e \<Rightarrow> (Inl e, cm\<lparr>cm_State := AddRequestedConfigs reqs s2\<rparr>)
                   | Inr pl \<Rightarrow>
                       (case holdDeferred (cmSystemdMode cm m)
                               (\<not> in_FirstRun i \<and> reqs = [] \<and> in_Forced i = []) pl
                               (cm1\<lparr>cm_prev := cur, cm_tracked := pl_Tracked pl\<rparr>) of
                          (pl', cm2) \<Rightarrow> (Inr pl', cm2)))))"

section \<open>Restarts\<close>

definition debounceOf :: "Config \<Rightarrow> int" where
  "debounceOf cfg = signed_take_bit 63 (cfg_RestartDebounce cfg * 1000000000)"

definition ApplyRestarts ::
    "Plan \<Rightarrow> int \<Rightarrow> 'm ConfigManager \<times> 'm \<Rightarrow> ('m ConfigManager \<times> 'm) option" where
  "ApplyRestarts pl now cmm =
     (case cmm of (cm, m) \<Rightarrow>
       map_option
         (\<lambda>(carry, p, m'). (cm\<lparr>cm_carry := (cm_carry cm)\<lparr>c_Restarts := carry\<rparr>, cm_policy := p\<rparr>, m'))
         (Apply (pl_Restarts pl)
            \<lparr>st_Enabled = cfg_RestartConfig (cm_mainConfig cm),
             st_Debounce = debounceOf (cm_mainConfig cm)\<rparr>
            now (cm_policy cm, m)))"

end
