(* ===== verification/Lookup_Correct.thy ===== *)
theory Lookup_Correct
  imports Config_Lookup
begin

text \<open>
  What a lookup may do to the state behind it. The interface \<open>lookup.ConfigLookup\<close> gives the
  transformer no other access to the state, so whatever every lookup preserves, rendering a line
  preserves; the manager's lookups touch the FILE cache only.
\<close>

section \<open>Frames\<close>

named_theorems keeps_intros

definition keeps :: "('s \<Rightarrow> 's \<Rightarrow> bool) \<Rightarrow> ('s, 'a) xform \<Rightarrow> bool" where
  "keeps R m \<longleftrightarrow> (\<forall>s. R s (snd (m s)))"

locale lookup_frame =
  fixes lk :: "'s lookup" and R :: "'s \<Rightarrow> 's \<Rightarrow> bool"
  assumes R_refl: "R s s"
    and R_trans: "R s t \<Longrightarrow> R t u \<Longrightarrow> R s u"
    and lookup_R: "R s (snd (lk cfgType key s))"
begin

lemma keeps_return [keeps_intros]: "keeps R (xreturn v)"
  by (simp add: keeps_def xreturn_def R_refl)

lemma keeps_fail [keeps_intros]: "keeps R (xfail e)"
  by (simp add: keeps_def xfail_def R_refl)

lemma keeps_bind [keeps_intros]:
  assumes "keeps R m" "\<And>v. keeps R (f v)"
  shows "keeps R (xbind m f)"
  unfolding keeps_def
proof
  fix s
  show "R s (snd (xbind m f s))"
  proof (cases "m s")
    case (Pair r s')
    with assms(1) have "R s s'" by (metis keeps_def snd_conv)
    with Pair assms(2) show ?thesis
      by (auto simp: xbind_def keeps_def intro: R_trans split: sum.split)
  qed
qed

lemma keeps_lookup [keeps_intros]: "keeps R (xlookup lk cfgType key)"
  unfolding keeps_def xlookup_def
proof
  fix s
  show "R s (snd (case lk cfgType key s of
      (Inl e, s') \<Rightarrow> (if e = LookupDiverged then Inl TransformDiverged else Inr None, s')
    | (Inr v, s') \<Rightarrow> (Inr (Some v), s')))"
    using lookup_R [of s cfgType key] by (auto split: prod.split sum.split)
qed

lemma keeps_findOne [keeps_intros]: "keeps R (findOne re sr)"
  by (auto simp: findOne_def intro!: keeps_intros split: list.split)

lemma keeps_splitTypeKey [keeps_intros]: "keeps R (splitTypeKey sr field)"
  by (auto simp: splitTypeKey_def intro!: keeps_intros split: list.split)

lemma keeps_comment [keeps_intros]: "keeps R (resolveCommentState lk re sr b)"
  unfolding resolveCommentState_def Let_def by (intro keeps_intros)

lemma keeps_lookupTruth [keeps_intros]: "keeps R (lookupTruth lk cmd key)"
  unfolding lookupTruth_def by (intro keeps_intros)

lemma keeps_lookupRequired [keeps_intros]: "keeps R (lookupRequired lk sr cmd key)"
  unfolding lookupRequired_def by (intro keeps_intros) (auto intro: keeps_intros split: option.split)

lemma keeps_search [keeps_intros]: "keeps R (resolveSearchReplaceDirective lk sr b match)"
  unfolding resolveSearchReplaceDirective_def Let_def
  by (auto intro!: keeps_intros)

lemma keeps_directives [keeps_intros]:
  "keeps R (handleCommentDirective lk sr)" "keeps R (handleUncommentDirective lk sr)"
  "keeps R (handleBinaryDirective lk sr)" "keeps R (handleTrueFalseDirective lk sr)"
  "keeps R (handleRangeDirective pyRange lk sr)" "keeps R (handleListDirective lk sr)"
  "keeps R (handleContainsDirective lk sr)" "keeps R (handleExactDirective lk sr)"
  "keeps R (handleFreqDirective lk sr)" "keeps R (handleExplodeDirective lk sr)"
  "keeps R (handleDefaultLookup lk sr)"
  unfolding handleCommentDirective_def handleUncommentDirective_def handleBinaryDirective_def
    handleTrueFalseDirective_def handleRangeDirective_def handleListDirective_def
    handleContainsDirective_def handleExactDirective_def handleFreqDirective_def
    handleExplodeDirective_def handleDefaultLookup_def Let_def
  by (auto intro!: keeps_intros split: option.split)

lemma keeps_xformLocalConfig [keeps_intros]: "keeps R (xformLocalConfig lk match)"
  unfolding xformLocalConfig_def Let_def
  by (auto intro!: keeps_intros split: option.split list.split prod.split)

lemma keeps_xformConfigVariable [keeps_intros]: "keeps R (xformConfigVariable lk match)"
  unfolding xformConfigVariable_def by (auto intro!: keeps_intros split: list.split)

lemma keeps_xformConfig [keeps_intros]: "keeps R (xformConfig pyRange lk match)"
  unfolding xformConfig_def Let_def by (simp add: keeps_intros)

lemma keeps_replace_pieces:
  "(\<And>match. keeps R (fn match)) \<Longrightarrow> keeps R (replace_pieces fn ps)"
  by (induction fn ps rule: replace_pieces.induct) (auto intro!: keeps_intros)

lemma keeps_replaceAll [keeps_intros]:
  "(\<And>match. keeps R (fn match)) \<Longrightarrow> keeps R (replaceAll re src fn)"
  unfolding replaceAll_def by (rule keeps_replace_pieces)

lemma keeps_line [keeps_intros]:
  "keeps R (processPrefixDirective pyRange lk line)" "keeps R (processWrappingDirective pyRange lk line)"
  "keeps R (processInlineDirectives pyRange lk line)"
  unfolding processPrefixDirective_def processWrappingDirective_def processInlineDirectives_def Let_def
  by (auto intro!: keeps_intros split: option.split list.split)

lemma Transform_keeps: "keeps R (Transform pyRange lk line)"
  unfolding Transform_def by (auto intro!: keeps_intros split: option.split)

lemma render_lines_keeps: "keeps R (render_lines (Transform pyRange lk) lines)"
  by (induction lines) (auto intro!: keeps_intros Transform_keeps)

end

section \<open>The manager's lookups\<close>

definition only_cache :: "State \<Rightarrow> State \<Rightarrow> bool" where
  "only_cache s s' \<longleftrightarrow> s' = s\<lparr>ds_FileCache := ds_FileCache s'\<rparr> \<and> (wf_map (ds_FileCache s) \<longrightarrow> wf_map (ds_FileCache s'))"

lemma only_cache_refl: "only_cache s s"
  by (simp add: only_cache_def)

lemma only_cache_trans: "only_cache s t \<Longrightarrow> only_cache t u \<Longrightarrow> only_cache s u"
  unfolding only_cache_def by (metis State.surjective State.update_convs(5))

lemma only_cache_store: "only_cache s s' \<Longrightarrow> only_cache s (StoreFile key v s')"
  unfolding only_cache_def StoreFile_def by (metis (no_types, lifting) State.select_convs(5) State.surjective State.update_convs(5) wf_map_mput)

lemma lookupFileKey_cache:
  assumes "keeps only_cache (render_lines transform (split_char (CHR 0x0A) content))"
  shows "lh_read host (TemplatePath cfg (''conf/'' @ key)) = Inr content \<Longrightarrow>
    only_cache s (snd (lookupFileKey transform host cfg key s))"
  using assms [unfolded keeps_def, rule_format, of s]
  by (auto simp: lookupFileKey_def Let_def only_cache_refl only_cache_store
      split: option.split prod.split sum.split)

lemma LookUpConfig_cache: "only_cache s (snd (LookUpConfig depth host cfg cfgType key s))"
proof (induction depth arbitrary: cfgType key s)
  case 0
  then show ?case
    by (subst LookUpConfig.simps)
      (auto simp: only_cache_refl lookupMappedFileKey_def Let_def split: option.split lookup_error.split)
next
  case (Suc d)
  have "lookup_frame (LookUpConfig d host cfg) only_cache"
    by unfold_locales (auto intro: only_cache_refl only_cache_trans Suc.IH)
  note render = lookup_frame.render_lines_keeps [OF this, of "lh_pyRange host"]
  have "only_cache s (snd (lookupFileKey (Transform (lh_pyRange host) (LookUpConfig d host cfg)) host cfg key s))"
  proof (cases "lh_read host (TemplatePath cfg (''conf/'' @ key))")
    case (Inl e)
    then show ?thesis by (simp add: lookupFileKey_def only_cache_refl Let_def split: option.split)
  next
    case (Inr content)
    with render show ?thesis by (rule lookupFileKey_cache)
  qed
  then show ?case
    by (subst LookUpConfig.simps)
      (auto simp: only_cache_refl lookupMappedFileKey_def Let_def split: option.split lookup_error.split)
qed

interpretation manager_lookup: lookup_frame "LookUpConfig depth host cfg" only_cache
  by unfold_locales (auto intro: only_cache_refl only_cache_trans LookUpConfig_cache)

section \<open>Depth\<close>

text \<open>
  Two lookups of which the second agrees with the first wherever that one returns: what the
  transformer computes over the first, it computes over the second.
\<close>

definition agrees :: "('s, 'a) xform \<Rightarrow> ('s, 'a) xform \<Rightarrow> bool" where
  "agrees m m' \<longleftrightarrow> (\<forall>s. fst (m s) = Inl TransformDiverged \<or> m' s = m s)"

named_theorems agrees_intros

lemma agrees_refl [agrees_intros]: "agrees m m"
  by (simp add: agrees_def)

lemma agrees_bind [agrees_intros]:
  assumes "agrees m m'" "\<And>v. agrees (f v) (f' v)"
  shows "agrees (xbind m f) (xbind m' f')"
  unfolding agrees_def
proof
  fix s
  show "fst (xbind m f s) = Inl TransformDiverged \<or> xbind m' f' s = xbind m f s"
  proof (cases "m s")
    case (Pair r s')
    with assms(1) have "r = Inl TransformDiverged \<or> m' s = (r, s')" by (metis agrees_def fst_conv)
    moreover have "fst (f v s') = Inl TransformDiverged \<or> f' v s' = f v s'" for v
      using assms(2) by (simp add: agrees_def)
    ultimately show ?thesis using Pair by (cases r) (auto simp: xbind_def)
  qed
qed

locale lookup_agree =
  fixes lk lk' :: "'s lookup"
  assumes agree: "fst (lk cfgType key s) = Inl LookupDiverged \<or> lk' cfgType key s = lk cfgType key s"
begin

lemma agrees_lookup [agrees_intros]: "agrees (xlookup lk cfgType key) (xlookup lk' cfgType key)"
  unfolding agrees_def xlookup_def
proof
  fix s
  show "fst (case lk cfgType key s of
          (Inl e, s') \<Rightarrow> (if e = LookupDiverged then Inl TransformDiverged else Inr None, s')
        | (Inr v, s') \<Rightarrow> (Inr (Some v), s')) = Inl TransformDiverged \<or>
      (case lk' cfgType key s of
          (Inl e, s') \<Rightarrow> (if e = LookupDiverged then Inl TransformDiverged else Inr None, s')
        | (Inr v, s') \<Rightarrow> (Inr (Some v), s')) =
      (case lk cfgType key s of
          (Inl e, s') \<Rightarrow> (if e = LookupDiverged then Inl TransformDiverged else Inr None, s')
        | (Inr v, s') \<Rightarrow> (Inr (Some v), s'))"
    using agree [of cfgType key s] by (auto split: prod.split sum.split)
qed

lemma agrees_parts [agrees_intros]:
  "agrees (resolveCommentState lk re sr b) (resolveCommentState lk' re sr b)"
  "agrees (lookupTruth lk cmd key) (lookupTruth lk' cmd key)"
  "agrees (lookupRequired lk sr cmd key) (lookupRequired lk' sr cmd key)"
  "agrees (resolveSearchReplaceDirective lk sr b match) (resolveSearchReplaceDirective lk' sr b match)"
  unfolding resolveCommentState_def lookupTruth_def lookupRequired_def resolveSearchReplaceDirective_def
    Let_def
  by (auto intro!: agrees_intros)

lemma agrees_directives [agrees_intros]:
  "agrees (handleCommentDirective lk sr) (handleCommentDirective lk' sr)"
  "agrees (handleUncommentDirective lk sr) (handleUncommentDirective lk' sr)"
  "agrees (handleBinaryDirective lk sr) (handleBinaryDirective lk' sr)"
  "agrees (handleTrueFalseDirective lk sr) (handleTrueFalseDirective lk' sr)"
  "agrees (handleRangeDirective pyRange lk sr) (handleRangeDirective pyRange lk' sr)"
  "agrees (handleListDirective lk sr) (handleListDirective lk' sr)"
  "agrees (handleContainsDirective lk sr) (handleContainsDirective lk' sr)"
  "agrees (handleExactDirective lk sr) (handleExactDirective lk' sr)"
  "agrees (handleFreqDirective lk sr) (handleFreqDirective lk' sr)"
  "agrees (handleExplodeDirective lk sr) (handleExplodeDirective lk' sr)"
  "agrees (handleDefaultLookup lk sr) (handleDefaultLookup lk' sr)"
  unfolding handleCommentDirective_def handleUncommentDirective_def handleBinaryDirective_def
    handleTrueFalseDirective_def handleRangeDirective_def handleListDirective_def
    handleContainsDirective_def handleExactDirective_def handleFreqDirective_def
    handleExplodeDirective_def handleDefaultLookup_def Let_def
  by (auto intro!: agrees_intros split: option.split)

lemma agrees_xforms [agrees_intros]:
  "agrees (xformLocalConfig lk match) (xformLocalConfig lk' match)"
  "agrees (xformConfigVariable lk match) (xformConfigVariable lk' match)"
  "agrees (xformConfig pyRange lk match) (xformConfig pyRange lk' match)"
  unfolding xformLocalConfig_def xformConfigVariable_def xformConfig_def Let_def
  by (auto intro!: agrees_intros split: list.split prod.split)

lemma agrees_replace_pieces:
  assumes "\<And>match. agrees (fn match) (fn' match)"
  shows "agrees (replace_pieces fn ps) (replace_pieces fn' ps)"
proof (induction ps)
  case (Cons p ps)
  with assms show ?case by (cases p) (auto intro!: agrees_intros)
qed (simp add: agrees_refl)

lemma agrees_replaceAll [agrees_intros]:
  "(\<And>match. agrees (fn match) (fn' match)) \<Longrightarrow> agrees (replaceAll re src fn) (replaceAll re src fn')"
  unfolding replaceAll_def by (rule agrees_replace_pieces)

lemma agrees_line [agrees_intros]:
  "agrees (processPrefixDirective pyRange lk line) (processPrefixDirective pyRange lk' line)"
  "agrees (processWrappingDirective pyRange lk line) (processWrappingDirective pyRange lk' line)"
  "agrees (processInlineDirectives pyRange lk line) (processInlineDirectives pyRange lk' line)"
  unfolding processPrefixDirective_def processWrappingDirective_def processInlineDirectives_def Let_def
  by (auto intro!: agrees_intros split: option.split list.split)

lemma Transform_agrees: "agrees (Transform pyRange lk line) (Transform pyRange lk' line)"
  unfolding Transform_def by (auto intro!: agrees_intros split: option.split)

lemma render_lines_agrees:
  "agrees (render_lines (Transform pyRange lk) lines) (render_lines (Transform pyRange lk') lines)"
  by (induction lines) (auto intro!: agrees_intros Transform_agrees)

end

lemma lookupFileKey_agrees:
  assumes "\<And>lines. agrees (render_lines f lines) (render_lines g lines)"
  shows "fst (lookupFileKey f host cfg key s) = Inl LookupDiverged \<or>
    lookupFileKey g host cfg key s = lookupFileKey f host cfg key s"
proof (cases "lh_read host (TemplatePath cfg (''conf/'' @ key))")
  case (Inr content)
  let ?lines = "split_char (CHR 0x0A) content"
  have "fst (render_lines f ?lines s) = Inl TransformDiverged \<or> render_lines g ?lines s = render_lines f ?lines s"
    using assms by (simp add: agrees_def)
  with Inr show ?thesis
    by (auto simp: lookupFileKey_def Let_def split: option.split prod.split sum.split)
qed (simp add: lookupFileKey_def Let_def split: option.split)

lemma LookUpConfig_Suc:
  "fst (LookUpConfig depth host cfg cfgType key s) = Inl LookupDiverged \<or>
   LookUpConfig (Suc depth) host cfg cfgType key s = LookUpConfig depth host cfg cfgType key s"
proof (induction depth arbitrary: cfgType key s)
  case 0
  then show ?case by (auto simp: LookUpConfig.simps)
next
  case (Suc d)
  have "lookup_agree (LookUpConfig d host cfg) (LookUpConfig (Suc d) host cfg)"
    by unfold_locales (rule Suc.IH)
  note lookupFileKey_agrees [OF lookup_agree.render_lines_agrees [OF this], of "lh_pyRange host" host cfg key s]
  then show ?case by (auto simp: LookUpConfig.simps [of "Suc _"])
qed

text \<open>A lookup that returns at some depth returns the same at every greater one.\<close>

lemma LookUpConfig_mono:
  assumes "fst (LookUpConfig depth host cfg cfgType key s) \<noteq> Inl LookupDiverged"
  shows "LookUpConfig (depth + n) host cfg cfgType key s = LookUpConfig depth host cfg cfgType key s"
proof (induction n)
  case (Suc n)
  with LookUpConfig_Suc [of "depth + n" host cfg cfgType key s] assms show ?case by auto
qed simp

interpretation deeper_lookup: lookup_agree "LookUpConfig depth host cfg" "LookUpConfig (depth + n) host cfg"
proof unfold_locales
  fix cfgType key s
  show "fst (LookUpConfig depth host cfg cfgType key s) = Inl LookupDiverged \<or>
    LookUpConfig (depth + n) host cfg cfgType key s = LookUpConfig depth host cfg cfgType key s"
    using LookUpConfig_mono by blast
qed

end
