(* ===== verification/Cycle_Correct.thy ===== *)
theory Cycle_Correct
  imports Config_Cycle Lookup_Correct Plan_Change Plan_Deferred
begin

text \<open>
  Properties of the planning step of the daemon's cycle: what it does to the request queue, to the
  baseline of the comparison and to the deferred restarts, and what the observation makes of a lookup
  that fails.
\<close>

section \<open>The interface of a lookup\<close>

locale config_lookup =
  fixes lk :: ConfigLookup
  assumes lookup_cache: "only_cache s (snd (lk cfgType key s))"
begin

lemma observeOne_cache: "only_cache s (snd (observeOne lk cfg base ident (obs, s)))"
  using lookup_cache [of s "fst ident" "snd ident"]
  by (auto simp: observeOne_def only_cache_refl split: prod.splits sum.splits)

lemma observe_fold_cache: "only_cache s (snd (fold (observeOne lk cfg base) ids (obs, s)))"
proof (induction ids arbitrary: obs s)
  case (Cons ident ids)
  obtain obs' s' where 1: "observeOne lk cfg base ident (obs, s) = (obs', s')" by fastforce
  with observeOne_cache [of s cfg base ident obs] have "only_cache s s'" by simp
  with Cons.IH [of s' obs'] 1 show ?case by (auto intro: only_cache_trans)
qed (simp add: only_cache_refl)

lemma Observe_cache: "only_cache s (snd (Observe lk cfg base conf s))"
  using observe_fold_cache [of s cfg base "conf_lookups conf" "[]"]
  by (auto simp: Observe_def split: prod.splits)

end

interpretation manager_lookups: config_lookup "LookUpConfig depth host cfg"
  by unfold_locales (rule LookUpConfig_cache)

text \<open>What stays when only the FILE cache changes.\<close>

lemma only_cache_frame:
  assumes "only_cache s s'"
  shows "requests s' = requests s" "ds_RequestedConfig s' = ds_RequestedConfig s"
    "ds_ForcedConfig s' = ds_ForcedConfig s" "ds_FirstRun s' = ds_FirstRun s"
    "ds_MtaConfig s' = ds_MtaConfig s" "ds_snap s' = ds_snap s" "StateSnapshot s' = StateSnapshot s"
proof -
  obtain c where "s' = s\<lparr>ds_FileCache := c\<rparr>" using assms unfolding only_cache_def by blast
  then show "requests s' = requests s" "ds_RequestedConfig s' = ds_RequestedConfig s"
    "ds_ForcedConfig s' = ds_ForcedConfig s" "ds_FirstRun s' = ds_FirstRun s"
    "ds_MtaConfig s' = ds_MtaConfig s" "ds_snap s' = ds_snap s" "StateSnapshot s' = StateSnapshot s"
    by (simp_all add: requests_def StateSnapshot_def)
qed

section \<open>The cycle, unfolded\<close>

text \<open>The snapshot a cycle observes and the requests it takes.\<close>

definition observed_snapshot :: "ConfigLookup \<Rightarrow> 'm ConfigManager \<Rightarrow> SnapshotRef" where
  "observed_snapshot lk cm =
     fst (Observe lk (cm_mainConfig cm) (StateSnapshot (cm_State cm)) (GetMtaConfig (cm_State cm))
            (cm_State cm))"

definition taken_requests :: "'m ConfigManager \<Rightarrow> string list" where
  "taken_requests cm = fst (TakeRequestedConfigs (cm_State cm))"

definition cycle_input :: "ConfigLookup \<Rightarrow> 'm \<Rightarrow> 'm ConfigManager \<Rightarrow> Input" where
  "cycle_input lk m cm = plan_input cm m (observed_snapshot lk cm) (taken_requests cm)"

definition quiet_cycle :: "'m ConfigManager \<Rightarrow> bool" where
  "quiet_cycle cm \<longleftrightarrow>
     \<not> IsFirstRun (cm_State cm) \<and> requests (cm_State cm) = {} \<and> ForcedSections (cm_State cm) = []"

lemma taken_requests_set [simp]: "set (taken_requests cm) = requests (cm_State cm)"
  by (simp add: taken_requests_def)

lemma taken_requests_Nil: "taken_requests cm = [] \<longleftrightarrow> requests (cm_State cm) = {}"
  by (metis set_empty taken_requests_set)

lemma observed_services [simp]:
  "ServiceEnabled (observed_snapshot lk cm) = ServiceEnabled (StateSnapshot (cm_State cm))"
  by (rule ext) (simp add: observed_snapshot_def Observe_def split: prod.split)

lemma sort_Nil [simp]: "sort xs = [] \<longleftrightarrow> xs = []"
  by (metis set_empty set_sort)

text \<open>The restarts held once the plan's deferred ones joined.\<close>

definition held_restarts :: "bool \<Rightarrow> Plan \<Rightarrow> 'm ConfigManager \<Rightarrow> Restart list" where
  "held_restarts systemd p cm =
     (if pl_Deferred p \<noteq> [] then MergeRestarts (cm_deferred cm) (pl_Deferred p) systemd else cm_deferred cm)"

lemma holdDeferred_eq:
  "holdDeferred systemd release p cm =
     (if \<not> release \<or> held_restarts systemd p cm = [] then (p, cm\<lparr>cm_deferred := held_restarts systemd p cm\<rparr>)
      else (p\<lparr>pl_Restarts := MergeRestarts (held_restarts systemd p cm) (pl_Restarts p) systemd\<rparr>,
            cm\<lparr>cm_deferred := []\<rparr>))"
  unfolding holdDeferred_def held_restarts_def Let_def ..

lemma held_covers:
  assumes "r \<in> set (cm_deferred cm) \<union> set (pl_Deferred p)"
  shows "\<exists>h \<in> set (held_restarts systemd p cm). rs_service h = rs_service r \<and>
    set (rs_reasons r) \<subseteq> set (rs_reasons h)"
proof (cases "pl_Deferred p = []")
  case True
  with assms show ?thesis unfolding held_restarts_def by (intro bexI [of _ r]) auto
next
  case False
  with merge_covers [OF assms, of systemd] show ?thesis unfolding held_restarts_def by simp
qed

context config_lookup
begin

lemma PlanCycle_unfold:
  defines "s2 cm \<equiv> snd (TakeRequestedConfigs (Publish (observed_snapshot lk cm)
     (snd (Observe lk (cm_mainConfig cm) (StateSnapshot (cm_State cm)) (GetMtaConfig (cm_State cm))
        (cm_State cm)))))"
  shows "PlanCycle lk m cm =
    (case Compute (cycle_input lk m cm) of
       Inl e \<Rightarrow> (Inl e, cm\<lparr>cm_State := AddRequestedConfigs (taken_requests cm) (s2 cm)\<rparr>)
     | Inr pl \<Rightarrow>
         (case holdDeferred (cmSystemdMode cm m) (quiet_cycle cm) pl
                 (cm\<lparr>cm_State := s2 cm, cm_prev := observed_snapshot lk cm, cm_tracked := pl_Tracked pl\<rparr>) of
            (pl', cm') \<Rightarrow> (Inr pl', cm')))"
proof -
  obtain cur s1 where obs: "Observe lk (cm_mainConfig cm) (StateSnapshot (cm_State cm))
      (GetMtaConfig (cm_State cm)) (cm_State cm) = (cur, s1)" by fastforce
  note frame = only_cache_frame [OF Observe_cache [of "cm_State cm" "cm_mainConfig cm"
      "StateSnapshot (cm_State cm)" "GetMtaConfig (cm_State cm)"], unfolded obs snd_conv]
  have cur: "cur = observed_snapshot lk cm" by (simp add: observed_snapshot_def obs)
  have reqs: "fst (TakeRequestedConfigs (Publish cur s1)) = taken_requests cm"
    by (simp add: taken_requests_def TakeRequestedConfigs_def Publish_def frame)
  have "plan_input (cm\<lparr>cm_State := s2 cm\<rparr>) m cur (taken_requests cm) = cycle_input lk m cm"
    by (simp add: cycle_input_def plan_input_def cur s2_def obs [unfolded GetMtaConfig_def] GetMtaConfig_def ForcedSections_def
        IsFirstRun_def cmSystemdMode_def frame)
  moreover have "quiet_cycle cm \<longleftrightarrow> \<not> in_FirstRun (cycle_input lk m cm) \<and> taken_requests cm = [] \<and>
      in_Forced (cycle_input lk m cm) = []"
    by (simp add: quiet_cycle_def cycle_input_def plan_input_def taken_requests_Nil)
  moreover have "TakeRequestedConfigs (Publish cur s1) = (taken_requests cm, s2 cm)"
    using reqs by (simp add: s2_def cur [symmetric] obs prod_eq_iff)
  ultimately show ?thesis
    by (simp add: PlanCycle_def obs Let_def cur [symmetric] split: sum.split prod.split)
qed

lemma PlanCycle_failed:
  assumes "PlanCycle lk m cm = (Inl e, cm')"
  shows "Compute (cycle_input lk m cm) = Inl e"
    "cm' = cm\<lparr>cm_State := cm_State cm'\<rparr>"
    "requests (cm_State cm') = requests (cm_State cm)"
    "ds_FirstRun (cm_State cm') = ds_FirstRun (cm_State cm)"
    "ds_ForcedConfig (cm_State cm') = ds_ForcedConfig (cm_State cm)"
proof -
  let ?s1 = "snd (Observe lk (cm_mainConfig cm) (StateSnapshot (cm_State cm)) (GetMtaConfig (cm_State cm))
        (cm_State cm))"
  let ?s2 = "snd (TakeRequestedConfigs (Publish (observed_snapshot lk cm) ?s1))"
  from assms have 1: "Compute (cycle_input lk m cm) = Inl e"
    and 2: "cm' = cm\<lparr>cm_State := AddRequestedConfigs (taken_requests cm) ?s2\<rparr>"
    unfolding PlanCycle_unfold by (auto split: sum.splits prod.splits)
  note frame = only_cache_frame [OF Observe_cache [of "cm_State cm" "cm_mainConfig cm"
      "StateSnapshot (cm_State cm)" "GetMtaConfig (cm_State cm)"]]
  show "Compute (cycle_input lk m cm) = Inl e" by (rule 1)
  show "cm' = cm\<lparr>cm_State := cm_State cm'\<rparr>" by (simp add: 2)
  show "requests (cm_State cm') = requests (cm_State cm)" by (simp add: 2)
  show "ds_FirstRun (cm_State cm') = ds_FirstRun (cm_State cm)"
    "ds_ForcedConfig (cm_State cm') = ds_ForcedConfig (cm_State cm)"
    using frame by (simp_all add: 2 AddRequestedConfigs_def)
qed

lemma PlanCycle_planned:
  assumes "PlanCycle lk m cm = (Inr pl, cm')"
  obtains p0 where "Compute (cycle_input lk m cm) = Inr p0"
    "pl = fst (holdDeferred (cmSystemdMode cm m) (quiet_cycle cm) p0 cm)"
    "cm_deferred cm' = cm_deferred (snd (holdDeferred (cmSystemdMode cm m) (quiet_cycle cm) p0 cm))"
    "requests (cm_State cm') = {}" "cm_prev cm' = observed_snapshot lk cm"
    "cm_tracked cm' = pl_Tracked p0" "cm_carry cm' = cm_carry cm"
    "StateSnapshot (cm_State cm') = orEmpty (observed_snapshot lk cm)"
proof -
  let ?sd = "cmSystemdMode cm m" and ?q = "quiet_cycle cm"
  let ?s2 = "snd (TakeRequestedConfigs (Publish (observed_snapshot lk cm)
     (snd (Observe lk (cm_mainConfig cm) (StateSnapshot (cm_State cm)) (GetMtaConfig (cm_State cm))
        (cm_State cm)))))"
  obtain p0 where p0: "Compute (cycle_input lk m cm) = Inr p0"
    using assms unfolding PlanCycle_unfold by (cases "Compute (cycle_input lk m cm)") auto
  let ?cm = "cm\<lparr>cm_State := ?s2, cm_prev := observed_snapshot lk cm, cm_tracked := pl_Tracked p0\<rparr>"
  have hd: "holdDeferred ?sd ?q p0 ?cm = (pl, cm')"
    using assms unfolding PlanCycle_unfold p0 by (simp split: prod.splits)
  have held: "held_restarts ?sd p0 ?cm = held_restarts ?sd p0 cm" by (simp add: held_restarts_def)
  have cm': "cm' = ?cm\<lparr>cm_deferred := cm_deferred cm'\<rparr>"
    using hd unfolding holdDeferred_eq by (simp split: if_splits) auto
  show ?thesis
  proof (rule that [OF p0])
    show "pl = fst (holdDeferred ?sd ?q p0 cm)"
      "cm_deferred cm' = cm_deferred (snd (holdDeferred ?sd ?q p0 cm))"
      using hd unfolding holdDeferred_eq held by (simp_all split: if_splits) auto
  qed (subst cm', simp add: StateSnapshot_def)+
qed

lemma PlanCycle_succeeds:
  assumes "list_ex (ServiceEnabled (StateSnapshot (cm_State cm))) (mkeys (cm_tracked cm))"
  shows "\<exists>pl cm'. PlanCycle lk m cm = (Inr pl, cm')"
proof -
  have "guardAllDisabled (cycle_input lk m cm) = None"
    using assms by (simp add: guardAllDisabled_def cycle_input_def plan_input_def)
  then show ?thesis unfolding PlanCycle_unfold by (simp add: Compute_def split: prod.split)
qed

text \<open>A restart the cycle holds or defers is handed over or kept, with all its reasons.\<close>

lemma deferred_conserved:
  assumes "PlanCycle lk m cm = (Inr pl, cm')" "Compute (cycle_input lk m cm) = Inr p0"
    and "r \<in> set (cm_deferred cm) \<union> set (pl_Deferred p0)"
  shows "\<exists>h \<in> set (if quiet_cycle cm then pl_Restarts pl else cm_deferred cm').
    rs_service h = rs_service r \<and> set (rs_reasons r) \<subseteq> set (rs_reasons h)"
proof -
  let ?held = "held_restarts (cmSystemdMode cm m) p0 cm"
  have pl: "pl = fst (holdDeferred (cmSystemdMode cm m) (quiet_cycle cm) p0 cm)"
    and cm': "cm_deferred cm' = cm_deferred (snd (holdDeferred (cmSystemdMode cm m) (quiet_cycle cm) p0 cm))"
    by (rule PlanCycle_planned [OF assms(1)], simp add: assms(2))+
  obtain h where h: "h \<in> set ?held" "rs_service h = rs_service r" "set (rs_reasons r) \<subseteq> set (rs_reasons h)"
    using held_covers [OF assms(3)] by blast
  show ?thesis
  proof (cases "quiet_cycle cm")
    case True
    from h(1) have "?held \<noteq> []" by auto
    with True have restarts: "pl_Restarts pl = MergeRestarts ?held (pl_Restarts p0) (cmSystemdMode cm m)"
      by (simp add: pl holdDeferred_eq)
    obtain h' where "h' \<in> set (pl_Restarts pl)" "rs_service h' = rs_service h"
        "set (rs_reasons h) \<subseteq> set (rs_reasons h')"
      using merge_covers [of h ?held "pl_Restarts p0" "cmSystemdMode cm m"] h(1) unfolding restarts by blast
    with True h(2,3) show ?thesis by (intro bexI [of _ h']) auto
  next
    case False
    then have "cm_deferred cm' = ?held" by (simp add: cm' holdDeferred_eq)
    with False h show ?thesis by (intro bexI [of _ h]) simp_all
  qed
qed

text \<open>The plan's own restarts are never dropped by the hand-over either.\<close>

lemma planned_restart_kept:
  assumes "PlanCycle lk m cm = (Inr pl, cm')" "Compute (cycle_input lk m cm) = Inr p0" "r \<in> set (pl_Restarts p0)"
  shows "\<exists>h \<in> set (pl_Restarts pl). rs_service h = rs_service r \<and> set (rs_reasons r) \<subseteq> set (rs_reasons h)"
proof -
  let ?sd = "cmSystemdMode cm m"
  have pl: "pl = fst (holdDeferred ?sd (quiet_cycle cm) p0 cm)"
    by (rule PlanCycle_planned [OF assms(1)]) (simp add: assms(2))
  have covered: "\<exists>h \<in> set (MergeRestarts held (pl_Restarts p0) ?sd). rs_service h = rs_service r \<and>
      set (rs_reasons r) \<subseteq> set (rs_reasons h)" for held
    using assms(3) by (intro merge_covers) blast
  show ?thesis
  proof (cases "pl_Restarts pl = pl_Restarts p0")
    case True
    with assms(3) show ?thesis by (intro bexI [of _ r]) simp_all
  next
    case False
    then have "pl_Restarts pl = MergeRestarts (held_restarts ?sd p0 cm) (pl_Restarts p0) ?sd"
      by (simp add: pl holdDeferred_eq split: if_splits)
    then show ?thesis using covered [of "held_restarts ?sd p0 cm"] by simp
  qed
qed

end

section \<open>Requests\<close>

text \<open>C32: A cycle that cannot be planned consumes nothing. When every tracked service looks disabled,
  planning fails with that error, the requested sections are queued as before, and the baseline, the
  tracking map, the carried actions, the deferred restarts and the policy (everything but the shared
  state) are those the cycle started with.\<close>

theorem failed_plan_consumes_nothing:
  assumes "PlanCycle (LookUpConfig depth host cfg) m cm = (Inl e, cm')"
  shows "e = ErrAllServicesDisabled \<and> requests (cm_State cm') = requests (cm_State cm) \<and>
    IsFirstRun (cm_State cm') = IsFirstRun (cm_State cm) \<and>
    ForcedSections (cm_State cm') = ForcedSections (cm_State cm) \<and> cm' = cm\<lparr>cm_State := cm_State cm'\<rparr>"
  using manager_lookups.PlanCycle_failed [OF assms]
  by (cases e) (simp add: IsFirstRun_def ForcedSections_def)

text \<open>C31: A planned cycle answers every request it took: the queue is empty afterwards, and every
  requested section that exists, is in scope and is enabled is processed by the plan for that reason.\<close>

theorem requests_are_planned:
  assumes "PlanCycle (LookUpConfig depth host cfg) m cm = (Inr pl, cm')"
    and "sn \<in> requests (cm_State cm)" "GetMtaConfig (cm_State cm) = Some conf"
    and "(sn, Some sec) \<in> set (mta_sections conf)"
    and "cfg_Sections (cm_mainConfig cm) = [] \<or> sn \<in> set (cfg_Sections (cm_mainConfig cm))"
    and "SectionEnabled sn (ServiceEnabled (StateSnapshot (cm_State cm)))"
  shows "requests (cm_State cm') = {} \<and> sn \<in> sn_name ` set (pl_Sections pl)"
proof -
  let ?lk = "LookUpConfig depth host cfg"
  let ?i = "cycle_input ?lk m cm"
  obtain p0 where p0: "Compute ?i = Inr p0" "pl = fst (holdDeferred (cmSystemdMode cm m) (quiet_cycle cm) p0 cm)"
    "requests (cm_State cm') = {}"
    by (rule manager_lookups.PlanCycle_planned [OF assms(1)])
  have input: "in_Host ?i = None" "requested ?i sn" "(sn, Some sec) \<in> set (conf_sections ?i)"
    "considered ?i sn (Some sec)"
    using assms(2-6)
    by (simp_all add: cycle_input_def plan_input_def requested_def conf_sections_def considered_def inScope_def)
  then have "processed ?i sn sec" by (simp add: processed_def reasons_nonempty)
  with input(3) planned_section [OF p0(1) input(1)] have "sn \<in> sn_name ` set (pl_Sections p0)" by blast
  moreover have "pl_Sections pl = pl_Sections p0" by (simp add: p0(2) holdDeferred_eq)
  ultimately show ?thesis using p0(3) by simp
qed

section \<open>Deferred restarts\<close>

text \<open>C30: A change that a REWRITE cycle consumes still restarts its services. When a lookup of a
  requested section changed, the cycle restarts nothing for it, but the next cycle that is not a
  REWRITE (whatever happened in between, as long as the held restarts were kept) restarts each service
  of that section and names the change.\<close>

theorem deferred_change_restarts_later:
  assumes first: "PlanCycle (LookUpConfig depth host cfg) m cm = (Inr p1, cm1)"
    and sec: "GetMtaConfig (cm_State cm) = Some conf" "(sn, Some sec) \<in> set (mta_sections conf)"
      "cfg_Sections (cm_mainConfig cm) = []" "SectionEnabled sn (ServiceEnabled (StateSnapshot (cm_State cm)))"
    and req: "sn \<in> requests (cm_State cm)" "ForcedSections (cm_State cm) = []" "\<not> IsFirstRun (cm_State cm)"
    and kv: "kv \<in> set (sec_required sec)" "seen (cm_prev cm) kv \<noteq> seen (cm_prev cm1) kv"
    and svc: "svc \<in> fst ` set (sec_restarts sec)" "to_lower svc \<noteq> ''archiving''"
    and second: "cm_deferred cm2 = cm_deferred cm1" "quiet_cycle cm2"
      "PlanCycle (LookUpConfig depth' host' cfg') m' cm2 = (Inr p2, cm3)"
  shows "\<exists>r \<in> set (pl_Restarts p2). rs_service r = to_lower svc \<and>
    varChanged sn (snd kv) (trim_prefix (fst kv) ''!'') (seen (cm_prev cm) kv) (seen (cm_prev cm1) kv)
      \<in> set (rs_reasons r)"
proof -
  let ?i = "cycle_input (LookUpConfig depth host cfg) m cm"
  obtain p0 where p0: "Compute ?i = Inr p0" "cm_prev cm1 = observed_snapshot (LookUpConfig depth host cfg) cm"
    by (rule manager_lookups.PlanCycle_planned [OF first])
  have input: "in_Host ?i = None" "\<not> in_FirstRun ?i" "(sn, Some sec) \<in> set (conf_sections ?i)"
    "considered ?i sn (Some sec)" "compared ?i sn" "requested ?i sn"
    "in_Prev ?i = cm_prev cm" "in_Cur ?i = cm_prev cm1"
    using sec req
    by (simp_all add: cycle_input_def plan_input_def requested_def conf_sections_def considered_def inScope_def
        compared_def p0(2))
  from svc(2) have "to_lower svc = ''archiving'' \<Longrightarrow> ServiceEnabled (in_Cur ?i) ''archiving''" by simp
  from changed_service_planned [OF p0(1) input(1-5) kv(1) _ svc(1) this] kv(2) input(6-8)
  obtain r where r: "r \<in> set (pl_Deferred p0)" "rs_service r = to_lower svc"
    "varChanged sn (snd kv) (trim_prefix (fst kv) ''!'') (seen (cm_prev cm) kv) (seen (cm_prev cm1) kv)
      \<in> set (rs_reasons r)" by auto
  have "\<not> quiet_cycle cm" using req by (auto simp: quiet_cycle_def)
  with manager_lookups.deferred_conserved [OF first p0(1), of r] r(1)
  obtain h where h: "h \<in> set (cm_deferred cm2)" "rs_service h = rs_service r" "set (rs_reasons r) \<subseteq> set (rs_reasons h)"
    unfolding second(1) by auto
  obtain q where q: "Compute (cycle_input (LookUpConfig depth' host' cfg') m' cm2) = Inr q"
    by (rule manager_lookups.PlanCycle_planned [OF second(3)])
  from manager_lookups.deferred_conserved [OF second(3) q, of h] h(1) second(2)
  obtain h' where "h' \<in> set (pl_Restarts p2)" "rs_service h' = rs_service h" "set (rs_reasons h) \<subseteq> set (rs_reasons h')"
    by auto
  with r h show ?thesis by (intro bexI [of _ h']) auto
qed

section \<open>Failing lookups\<close>

text \<open>
  The value an observation records for a lookup does not depend on the lookups before it, when it is
  the same in every state those can reach.
\<close>

lemma observe_fold_value:
  assumes inv: "\<And>cfgType key s. P s \<Longrightarrow> P (snd (lk cfgType key s))"
    and val: "\<And>obs s. P s \<Longrightarrow> mget obs ident = None \<Longrightarrow>
      mget (fst (observeOne lk cfg base ident (obs, s))) ident = Some v"
    and "P s" "mget obs ident = None \<or> mget obs ident = Some v" "ident \<in> set ids \<or> mget obs ident = Some v"
  shows "mget (fst (fold (observeOne lk cfg base) ids (obs, s))) ident = Some v"
  using assms(3-5)
proof (induction ids arbitrary: obs s)
  case (Cons x ids)
  obtain obs' s' where step: "observeOne lk cfg base x (obs, s) = (obs', s')" by fastforce
  then have obs': "P s'" "x \<noteq> ident \<Longrightarrow> mget obs' ident = mget obs ident"
      "mget obs ident = Some v \<Longrightarrow> mget obs' ident = Some v"
    using Cons.prems(1) inv [of s "fst x" "snd x"]
    by (auto simp: observeOne_def dest: mget_keys split: prod.splits sum.splits if_splits)
  have "mget obs' ident = Some v" if "x = ident" "mget obs ident = None"
    using val [OF Cons.prems(1) that(2)] step that(1) by simp
  with obs' Cons.prems(2,3) have "mget obs' ident = None \<or> mget obs' ident = Some v"
    "ident \<in> set ids \<or> mget obs' ident = Some v" by (cases "x = ident"; auto)+
  with Cons.IH [OF obs'(1)] step show ?case by simp
qed simp

text \<open>A file that cannot be read never gets into the FILE cache.\<close>

definition uncached :: "string \<Rightarrow> State \<Rightarrow> bool" where
  "uncached key s \<longleftrightarrow> LookupFile key s = None"

definition stays_uncached :: "string \<Rightarrow> State \<Rightarrow> State \<Rightarrow> bool" where
  "stays_uncached key s s' \<longleftrightarrow> (uncached key s \<longrightarrow> uncached key s')"

lemma lookupFileKey_uncached:
  assumes "lh_read host (TemplatePath cfg (''conf/'' @ key)) = Inl e"
    and "\<And>lines. keeps (stays_uncached key) (render_lines transform lines)"
  shows "stays_uncached key s (snd (lookupFileKey transform host cfg key' s))"
proof (cases "lh_read host (TemplatePath cfg (''conf/'' @ key'))")
  case (Inr content)
  with assms(1) have "key' \<noteq> key" by auto
  with Inr assms(2) [of "split_char (CHR 0x0A) content", unfolded keeps_def, rule_format, of s] show ?thesis
    by (auto simp: lookupFileKey_def stays_uncached_def uncached_def StoreFile_def LookupFile_def Let_def
        split: option.splits prod.splits sum.splits)
qed (auto simp: lookupFileKey_def stays_uncached_def split: option.split)

lemma LookUpConfig_uncached:
  assumes "lh_read host (TemplatePath cfg (''conf/'' @ key)) = Inl e"
  shows "stays_uncached key s (snd (LookUpConfig depth host cfg cfgType key' s))"
proof (induction depth arbitrary: cfgType key' s)
  case 0
  then show ?case
    by (subst LookUpConfig.simps)
      (auto simp: stays_uncached_def lookupMappedFileKey_def Let_def split: option.split lookup_error.split)
next
  case (Suc d)
  have "lookup_frame (LookUpConfig d host cfg) (stays_uncached key)"
    by unfold_locales (auto simp: stays_uncached_def intro: Suc.IH [unfolded stays_uncached_def, rule_format])
  from lookup_frame.render_lines_keeps [OF this]
  have "stays_uncached key s
      (snd (lookupFileKey (Transform (lh_pyRange host) (LookUpConfig d host cfg)) host cfg key' s))"
    by (rule lookupFileKey_uncached [OF assms])
  then show ?case
    by (subst LookUpConfig.simps)
      (auto simp: stays_uncached_def lookupMappedFileKey_def Let_def split: option.split lookup_error.split)
qed

text \<open>What the observation makes of a FILE that cannot be read: the value the snapshot observed before.\<close>

lemma observe_read_error:
  assumes read: "lh_read host (TemplatePath cfg (''conf/'' @ key)) = Inl (LookupFailed msg)"
    and "uncached key s" "(TypeFile, key) \<in> set (conf_lookups conf)"
  shows "Observed (fst (Observe (LookUpConfig (Suc d) host cfg) cfg' base conf s)) TypeFile key =
    Some (observed_or_empty base TypeFile key)"
proof -
  let ?lk = "LookUpConfig (Suc d) host cfg"
  have "mget (fst (fold (observeOne ?lk cfg' base) (conf_lookups conf) ([], s))) (TypeFile, key) =
      Some (observed_or_empty base TypeFile key)"
  proof (rule observe_fold_value [where P = "uncached key"])
    show "uncached key (snd (?lk cfgType key' s'))" if "uncached key s'" for cfgType key' s'
      using LookUpConfig_uncached [OF read] that unfolding stays_uncached_def by blast
    show "mget (fst (observeOne ?lk cfg' base (TypeFile, key) (obs, s'))) (TypeFile, key) =
        Some (observed_or_empty base TypeFile key)"
      if "uncached key s'" "mget obs (TypeFile, key) = None" for obs s'
      using that read
      by (simp add: observeOne_def LookUpConfig.simps [of "Suc d"] lookupFileKey_def uncached_def
          lookupIsMissing_def map_of_eq_None_iff)
  qed (use assms in auto)
  then show ?thesis by (auto simp: Observe_def split: prod.split)
qed

text \<open>A load drops what was observed.\<close>

lemma empty_stage_iff:
  "stage = empty_stage \<longleftrightarrow>
     sl_local stage = None \<and> sl_global stage = None \<and> sl_misc stage = None \<and> sl_server stage = None"
  by (cases stage) (simp add: empty_stage_def)

lemma apply_stage_observed:
  "stage \<noteq> empty_stage \<Longrightarrow> observed_or_empty (apply_stage stage old) cfgType key = []"
  by (auto simp: apply_stage_def empty_stage_iff observed_or_empty_def Let_def)

lemma load_forgets:
  assumes "stage \<noteq> empty_stage" "LoadAllConfigs [Attempt timedOut errs stage] s0 = (err, s)"
  shows "uncached key s" "observed_or_empty (StateSnapshot s) cfgType k = []"
proof -
  have s: "s = UpdateSnapshot (apply_stage stage) (ClearFileCache s0)"
    using assms(2)
    by (auto simp: LoadAllConfigs_def LoadAllConfigsWithRetry_def evaluateLoadResult_def Let_def split: if_splits)
  then show "uncached key s" by (simp add: uncached_def LookupFile_def ClearFileCache_def UpdateSnapshot_def)
  obtain old where "ds_snap s = apply_stage stage old" by (simp add: s UpdateSnapshot_def)
  moreover have "apply_stage stage old \<noteq> None"
    using assms(1) by (auto simp: apply_stage_def empty_stage_iff Let_def WithObserved_def)
  ultimately have "StateSnapshot s = apply_stage stage old" by (auto simp: StateSnapshot_def orEmpty_def)
  then show "observed_or_empty (StateSnapshot s) cfgType k = []" by (simp add: apply_stage_observed [OF assms(1)])
qed

text \<open>C33: A FILE that could not be read restarts services. The observation keeps the previous value of a
  lookup that failed, so that a transient read error is no change; but the load at the start of every
  cycle has dropped the observed values by then. In a quiet cycle after a load, a required FILE that
  had a value and cannot be read is planned as a change to the undefined value, and every service of
  the section is restarted for it.\<close>

theorem read_error_restarts_services:
  assumes load: "LoadAllConfigs [Attempt timedOut errs stage] s0 = (err, cm_State cm)" "stage \<noteq> empty_stage"
    and read: "lh_read host (TemplatePath cfg (''conf/'' @ key)) = Inl (LookupFailed msg)"
    and prev: "seen (cm_prev cm) (key, TypeFile) \<noteq> []" "trim_prefix key ''!'' = key"
    and sec: "GetMtaConfig (cm_State cm) = Some conf" "(sn, Some sec) \<in> set (mta_sections conf)"
      "cfg_Sections (cm_mainConfig cm) = []" "SectionEnabled sn (ServiceEnabled (StateSnapshot (cm_State cm)))"
      "(key, TypeFile) \<in> set (sec_required sec)"
    and svc: "svc \<in> fst ` set (sec_restarts sec)" "to_lower svc \<noteq> ''archiving''"
    and cycle: "quiet_cycle cm" "PlanCycle (LookUpConfig (Suc d) host cfg) m cm = (Inr pl, cm')"
  shows "\<exists>r \<in> set (pl_Restarts pl). rs_service r = to_lower svc \<and>
    varChanged sn TypeFile key (seen (cm_prev cm) (key, TypeFile)) [] \<in> set (rs_reasons r)"
proof -
  let ?lk = "LookUpConfig (Suc d) host cfg"
  let ?i = "cycle_input ?lk m cm"
  obtain p0 where p0: "Compute ?i = Inr p0"
    by (rule manager_lookups.PlanCycle_planned [OF cycle(2)])
  have "(TypeFile, key) \<in> set (conf_lookups (GetMtaConfig (cm_State cm)))"
    using sec(1,2,5) prev(2) by (force simp: conf_lookups_def section_lookups_def)
  from observe_read_error [OF read load_forgets(1) [OF load(2,1)] this] load_forgets(2) [OF load(2,1)]
  have "seen (observed_snapshot ?lk cm) (key, TypeFile) = []"
    by (simp add: observed_snapshot_def seen_def observed_or_empty_def prev(2))
  then have input: "in_Host ?i = None" "\<not> in_FirstRun ?i" "(sn, Some sec) \<in> set (conf_sections ?i)"
    "considered ?i sn (Some sec)" "compared ?i sn" "\<not> requested ?i sn" "\<not> forced ?i sn"
    "in_Prev ?i = cm_prev cm" "seen (in_Cur ?i) (key, TypeFile) = []"
    using sec cycle(1)
    by (simp_all add: cycle_input_def plan_input_def requested_def forced_def conf_sections_def considered_def
        inScope_def compared_def quiet_cycle_def)
  from svc(2) have "to_lower svc = ''archiving'' \<Longrightarrow> ServiceEnabled (in_Cur ?i) ''archiving''" by simp
  from changed_service_planned [OF p0 input(1-5) sec(5) _ svc(1) this] prev input(6-9)
  obtain r where "r \<in> set (pl_Restarts p0)" "rs_service r = to_lower svc"
    "varChanged sn TypeFile key (seen (cm_prev cm) (key, TypeFile)) [] \<in> set (rs_reasons r)" by auto
  with manager_lookups.planned_restart_kept [OF cycle(2) p0, of r] show ?thesis by fastforce
qed

section \<open>Concrete cycles\<close>

text \<open>A host whose files cannot be read, a manager that queues nothing, and the section of the planner's
  examples with one more lookup, a FILE.\<close>

definition ex_host :: lookup_host where
  "ex_host =
     \<lparr>lh_read = \<lambda>_. Inl (LookupFailed ''is a directory''), lh_stat = \<lambda>_. Some FileNotExist,
      lh_pyRange = \<lambda>_ _ _. ''0.0''\<rparr>"

definition idle_manager :: "unit Manager" where
  "idle_manager = \<lparr>mg_add = \<lambda>_ _ u. (None, u), mg_process = \<lambda>u. Some (None, u), mg_cancelled = \<lambda>_. False\<rparr>"

definition ex_file_section :: MtaConfigSection where
  "ex_file_section = ex_section\<lparr>sec_required := [(''flaky'', TypeFile), (''networks'', TypeVar)]\<rparr>"

definition ex_stage :: "string smap \<Rightarrow> stagedLoad" where
  "ex_stage services = setServer [(''networks'', ''11'')] services empty_stage"

definition ex_state :: State where
  "ex_state = NewState\<lparr>ds_MtaConfig := Some \<lparr>mta_sections = [(''mta'', Some ex_file_section)]\<rparr>, ds_FirstRun := False\<rparr>"

definition ex_loaded :: "string smap \<Rightarrow> State" where
  "ex_loaded services = snd (LoadAllConfigs [Attempt False [] (ex_stage services)] ex_state)"

definition ex_services :: "string smap" where
  "ex_services = [(''mailbox'', ''TRUE''), (''mta'', ''TRUE'')]"

definition ex_cm :: "State \<Rightarrow> unit ConfigManager" where
  "ex_cm s =
     \<lparr>cm_mainConfig = NewConfig ''/opt'', cm_State = s, cm_policy = NewPolicy idle_manager,
      cm_prev = WithObserved (ex_snapshot [])
        [((TypeFile, ''flaky''), ''a''), ((TypeVar, ''networks''), ''10'')],
      cm_tracked = [(''mailbox'', ''running''), (''mta'', ''running'')], cm_carry = empty_carry,
      cm_deferred = []\<rparr>"

definition ex_lookup :: ConfigLookup where
  "ex_lookup = LookUpConfig 1 ex_host (NewConfig ''/opt'')"

theorem failed_plan_consumes_nothing_witness:
  "let cm = ex_cm (AddRequestedConfigs [''mta''] (ex_loaded [])); r = PlanCycle ex_lookup () cm
   in fst r = Inl ErrAllServicesDisabled \<and> requests (cm_State (snd r)) = {''mta''}"
proof -
  let ?cm = "ex_cm (AddRequestedConfigs [''mta''] (ex_loaded []))"
  have "isl (fst (PlanCycle ex_lookup () ?cm))" by code_simp
  then obtain e cm' where "PlanCycle ex_lookup () ?cm = (Inl e, cm')" by (cases "PlanCycle ex_lookup () ?cm") (auto simp: isl_def)
  note r = this and failed_plan_consumes_nothing [OF this [unfolded ex_lookup_def]]
  moreover have "ds_RequestedConfig (cm_State ?cm) = [(''mta'', ''mta'')]" by code_simp
  ultimately show ?thesis by (simp add: Let_def requests_def)
qed

text \<open>The plan and the manager of a cycle that could be planned.\<close>

definition cycle_plan :: "unit ConfigManager \<Rightarrow> Plan" where
  "cycle_plan cm = projr (fst (PlanCycle ex_lookup () cm))"

definition cycle_manager :: "unit ConfigManager \<Rightarrow> unit ConfigManager" where
  "cycle_manager cm = snd (PlanCycle ex_lookup () cm)"

lemma cycle_planI:
  assumes "list_ex (ServiceEnabled (StateSnapshot (cm_State cm))) (mkeys (cm_tracked cm))"
  shows "PlanCycle (LookUpConfig 1 ex_host (NewConfig ''/opt'')) () cm = (Inr (cycle_plan cm), cycle_manager cm)"
  using manager_lookups.PlanCycle_succeeds [OF assms, of 1 ex_host "NewConfig ''/opt''" "()"]
  by (auto simp: cycle_plan_def cycle_manager_def ex_lookup_def)

definition ex_requesting :: "unit ConfigManager" where
  "ex_requesting = ex_cm (AddRequestedConfigs [''mta''] (ex_loaded ex_services))"

definition ex_conf :: MtaConfig where
  "ex_conf = \<lparr>mta_sections = [(''mta'', Some ex_file_section)]\<rparr>"

lemma ex_requesting_facts:
  "GetMtaConfig (cm_State ex_requesting) = Some ex_conf"
  "SectionEnabled ''mta'' (ServiceEnabled (StateSnapshot (cm_State ex_requesting)))"
  "cfg_Sections (cm_mainConfig ex_requesting) = []"
  "ds_RequestedConfig (cm_State ex_requesting) = [(''mta'', ''mta'')]"
  "list_ex (ServiceEnabled (StateSnapshot (cm_State ex_requesting))) (mkeys (cm_tracked ex_requesting))"
  "ForcedSections (cm_State ex_requesting) = []" "\<not> IsFirstRun (cm_State ex_requesting)"
  by code_simp+

theorem requests_are_planned_witness:
  "''mta'' \<in> requests (cm_State ex_requesting) \<and> requests (cm_State (cycle_manager ex_requesting)) = {} \<and>
   ''mta'' \<in> sn_name ` set (pl_Sections (cycle_plan ex_requesting))"
proof -
  have req: "''mta'' \<in> requests (cm_State ex_requesting)" by (simp add: requests_def ex_requesting_facts(4))
  have sec: "(''mta'', Some ex_file_section) \<in> set (mta_sections ex_conf)" by (simp add: ex_conf_def)
  from requests_are_planned [OF cycle_planI [OF ex_requesting_facts(5)] req ex_requesting_facts(1) sec
      disjI1 [OF ex_requesting_facts(3)] ex_requesting_facts(2)] req
  show ?thesis by blast
qed

text \<open>The cycle after the REWRITE cycle, with nothing requested.\<close>

definition ex_periodic :: "unit ConfigManager" where
  "ex_periodic = (ex_cm (ex_loaded ex_services))\<lparr>cm_deferred := cm_deferred (cycle_manager ex_requesting)\<rparr>"

lemma ex_periodic_facts:
  "ds_RequestedConfig (ex_loaded ex_services) = []" "\<not> IsFirstRun (ex_loaded ex_services)"
  "ForcedSections (ex_loaded ex_services) = []"
  "list_ex (ServiceEnabled (StateSnapshot (ex_loaded ex_services))) [''mailbox'', ''mta'']"
  "seen (cm_prev ex_requesting) (''networks'', TypeVar) = ''10''"
  "seen (observed_snapshot ex_lookup ex_requesting) (''networks'', TypeVar) = ''11''"
  by code_simp+

theorem deferred_change_restarts_later_witness:
  "\<exists>r \<in> set (pl_Restarts (cycle_plan ex_periodic)). rs_service r = ''mta'' \<and>
     varChanged ''mta'' TypeVar ''networks'' ''10'' ''11'' \<in> set (rs_reasons r)"
proof -
  have req: "''mta'' \<in> requests (cm_State ex_requesting)" by (simp add: requests_def ex_requesting_facts(4))
  have sec: "(''mta'', Some ex_file_section) \<in> set (mta_sections ex_conf)" by (simp add: ex_conf_def)
  have lists: "(''networks'', TypeVar) \<in> set (sec_required ex_file_section)"
    "''MTA'' \<in> fst ` set (sec_restarts ex_file_section)"
    by (simp_all add: ex_file_section_def ex_section_def)
  have names: "to_lower ''MTA'' = ''mta''" "trim_prefix ''networks'' ''!'' = ''networks''" by code_simp+
  then have arch: "to_lower ''MTA'' \<noteq> ''archiving''" by simp
  have quiet: "quiet_cycle ex_periodic"
    by (simp add: quiet_cycle_def requests_def ex_periodic_def ex_cm_def ex_periodic_facts)
  have held: "cm_deferred ex_periodic = cm_deferred (cycle_manager ex_requesting)" by (simp add: ex_periodic_def)
  note first = cycle_planI [OF ex_requesting_facts(5)]
  have second: "PlanCycle (LookUpConfig 1 ex_host (NewConfig ''/opt'')) () ex_periodic =
      (Inr (cycle_plan ex_periodic), cycle_manager ex_periodic)"
    by (rule cycle_planI) (use ex_periodic_facts(4) in \<open>simp add: ex_periodic_def ex_cm_def\<close>)
  have "cm_prev (cycle_manager ex_requesting) = observed_snapshot ex_lookup ex_requesting"
    by (rule manager_lookups.PlanCycle_planned [OF first]) (simp add: ex_lookup_def)
  then have new: "seen (cm_prev (cycle_manager ex_requesting)) (''networks'', TypeVar) = ''11''"
    by (simp add: ex_periodic_facts)
  then have changed: "seen (cm_prev ex_requesting) (''networks'', TypeVar) \<noteq>
      seen (cm_prev (cycle_manager ex_requesting)) (''networks'', TypeVar)" by (simp add: ex_periodic_facts)
  from deferred_change_restarts_later [OF first ex_requesting_facts(1) sec ex_requesting_facts(3,2) req
      ex_requesting_facts(6,7) lists(1) changed lists(2) arch held quiet second]
  show ?thesis by (simp add: names new ex_periodic_facts)
qed

text \<open>A quiet cycle after a load in which the FILE cannot be read.\<close>

definition ex_read_error :: "unit ConfigManager" where
  "ex_read_error = ex_cm (ex_loaded ex_services)"

lemma ex_read_error_facts:
  "GetMtaConfig (cm_State ex_read_error) = Some ex_conf"
  "SectionEnabled ''mta'' (ServiceEnabled (StateSnapshot (cm_State ex_read_error)))"
  "cfg_Sections (cm_mainConfig ex_read_error) = []" "ds_RequestedConfig (cm_State ex_read_error) = []"
  "ForcedSections (cm_State ex_read_error) = []" "\<not> IsFirstRun (cm_State ex_read_error)"
  "list_ex (ServiceEnabled (StateSnapshot (cm_State ex_read_error))) (mkeys (cm_tracked ex_read_error))"
  "fst (LoadAllConfigs [Attempt False [] (ex_stage ex_services)] ex_state) = None"
  "seen (cm_prev ex_read_error) (''flaky'', TypeFile) = ''a''"
  "to_lower ''MTA'' = ''mta''" "trim_prefix ''flaky'' ''!'' = ''flaky''"
  by code_simp+

theorem read_error_restarts_services_witness:
  "\<exists>r \<in> set (pl_Restarts (cycle_plan ex_read_error)). rs_service r = ''mta'' \<and>
     varChanged ''mta'' TypeFile ''flaky'' ''a'' [] \<in> set (rs_reasons r)"
proof -
  have load: "LoadAllConfigs [Attempt False [] (ex_stage ex_services)] ex_state = (None, cm_State ex_read_error)"
    using ex_read_error_facts(8) by (simp add: ex_read_error_def ex_cm_def ex_loaded_def prod_eq_iff)
  have stage: "ex_stage ex_services \<noteq> empty_stage"
    by (simp add: ex_stage_def setServer_def empty_stage_def)
  have read: "lh_read ex_host (TemplatePath (NewConfig ''/opt'') (''conf/'' @ ''flaky'')) =
      Inl (LookupFailed ''is a directory'')" by (simp add: ex_host_def)
  have sec: "(''mta'', Some ex_file_section) \<in> set (mta_sections ex_conf)" by (simp add: ex_conf_def)
  have lists: "(''flaky'', TypeFile) \<in> set (sec_required ex_file_section)"
    "''MTA'' \<in> fst ` set (sec_restarts ex_file_section)"
    by (simp_all add: ex_file_section_def ex_section_def)
  have prev: "seen (cm_prev ex_read_error) (''flaky'', TypeFile) \<noteq> []" by (simp add: ex_read_error_facts)
  have arch: "to_lower ''MTA'' \<noteq> ''archiving''" by (simp add: ex_read_error_facts)
  have quiet: "quiet_cycle ex_read_error" by (simp add: quiet_cycle_def requests_def ex_read_error_facts)
  from read_error_restarts_services [OF load stage read prev ex_read_error_facts(11) ex_read_error_facts(1) sec
      ex_read_error_facts(3,2) lists(1) lists(2) arch quiet
      cycle_planI [OF ex_read_error_facts(7), unfolded One_nat_def]]
  show ?thesis by (simp add: ex_read_error_facts)
qed

end
