(* ===== verification/Rewrite_Trigger.thy ===== *)
theory Rewrite_Trigger
  imports Daemon_State Plan_Types
begin

text \<open>
  \<open>cmd/configd/mainloop.go\<close>: \<open>MainLoopActionTrigger\<close>, through which REWRITE clients wait for the main
  loop. A client is a number; its \<open>done\<close> channel is closed when the number is in \<open>tr_done\<close>. Each method
  that takes the mutex is one function here. \<open>rewrite_step\<close> interleaves the steps of any number of
  clients (\<open>TriggerRewrite\<close>, which is not atomic) with those of the loop (\<open>runConfigPhases\<close> and the
  restart phase of \<open>runCycle\<close>).
\<close>

section \<open>The trigger\<close>

record MainLoopActionTrigger =
  tr_EventCounter :: int
  tr_waiting :: "nat list"
  tr_inflight :: "nat list"
  tr_restarting :: "string list option"
  tr_done :: "nat list"

definition newTrigger :: MainLoopActionTrigger where
  "newTrigger = \<lparr>tr_EventCounter = 0, tr_waiting = [], tr_inflight = [], tr_restarting = None, tr_done = []\<rparr>"

definition rewrittenByRestartingCycle :: "string list \<Rightarrow> MainLoopActionTrigger \<Rightarrow> bool" where
  "rewrittenByRestartingCycle configs t =
     (case tr_restarting t of
        None \<Rightarrow> False
      | Some secs \<Rightarrow> secs \<noteq> [] \<and> configs \<noteq> [] \<and> list_all (\<lambda>c. c \<in> set secs) configs)"

definition countEvent :: "MainLoopActionTrigger \<Rightarrow> MainLoopActionTrigger" where
  "countEvent t = t\<lparr>tr_EventCounter := tr_EventCounter t + 1\<rparr>"

definition registerWaiter :: "nat \<Rightarrow> MainLoopActionTrigger \<Rightarrow> MainLoopActionTrigger" where
  "registerWaiter w t = t\<lparr>tr_waiting := tr_waiting t @ [w]\<rparr>"

definition forget :: "nat \<Rightarrow> MainLoopActionTrigger \<Rightarrow> MainLoopActionTrigger" where
  "forget w t =
     t\<lparr>tr_waiting := filter (\<lambda>o'. o' \<noteq> w) (tr_waiting t), tr_inflight := filter (\<lambda>o'. o' \<noteq> w) (tr_inflight t)\<rparr>"

definition claimWaiters :: "MainLoopActionTrigger \<Rightarrow> MainLoopActionTrigger" where
  "claimWaiters t = t\<lparr>tr_inflight := tr_inflight t @ tr_waiting t, tr_waiting := []\<rparr>"

definition completeWaiters :: "MainLoopActionTrigger \<Rightarrow> MainLoopActionTrigger" where
  "completeWaiters t = t\<lparr>tr_done := tr_done t @ tr_inflight t, tr_inflight := []\<rparr>"

definition beginRestarts :: "string list \<Rightarrow> MainLoopActionTrigger \<Rightarrow> MainLoopActionTrigger" where
  "beginRestarts sections t = t\<lparr>tr_restarting := Some sections\<rparr>"

definition endRestarts :: "MainLoopActionTrigger \<Rightarrow> MainLoopActionTrigger" where
  "endRestarts t = t\<lparr>tr_restarting := None\<rparr>"

definition requeueWaiters :: "MainLoopActionTrigger \<Rightarrow> MainLoopActionTrigger" where
  "requeueWaiters t = t\<lparr>tr_waiting := tr_inflight t @ tr_waiting t, tr_inflight := []\<rparr>"

section \<open>Clients and the loop\<close>

text \<open>
  Where a client is. The number a client carries from \<open>Queued\<close> on is how many rewrite phases had ended
  when it queued its sections. \<open>Answered _ None\<close> is the answer given at once because a restarting cycle
  has just written the sections, \<open>Answered _ (Some _)\<close> the one after waiting.
\<close>

datatype client =
    Absent
  | Checked "string list"
  | Queued "string list" nat
  | Waiting "string list" nat
  | Answered "string list" "nat option"
  | TimedOut "string list" nat

text \<open>Where the loop is in a cycle: the requests the plan took and the sections it processes.\<close>

datatype phase =
    LoopIdle
  | LoopClaimed
  | LoopTaken "string list"
  | LoopPlanFailed
  | LoopPlanned "string list" "string list"
  | LoopRewritten "string list"
  | LoopReleased "string list"
  | LoopRestarting "string list"

text \<open>The log has an entry per rewrite phase that ended: the requests it had taken and its sections.\<close>

record daemon =
  da_state :: State
  da_trigger :: MainLoopActionTrigger
  da_reload :: bool
  da_clients :: "nat \<Rightarrow> client"
  da_phase :: phase
  da_log :: "(string list \<times> string list) list"

definition boot :: daemon where
  "boot =
     \<lparr>da_state = NewState, da_trigger = newTrigger, da_reload = False, da_clients = (\<lambda>_. Absent),
      da_phase = LoopIdle, da_log = []\<rparr>"

definition set_client :: "nat \<Rightarrow> client \<Rightarrow> daemon \<Rightarrow> daemon" where
  "set_client c pc d = d\<lparr>da_clients := (da_clients d)(c := pc)\<rparr>"

definition on_trigger :: "(MainLoopActionTrigger \<Rightarrow> MainLoopActionTrigger) \<Rightarrow> daemon \<Rightarrow> daemon" where
  "on_trigger f d = d\<lparr>da_trigger := f (da_trigger d)\<rparr>"

text \<open>
  The steps; a recovered panic (\<open>runLoopIterationSafe\<close>) takes the loop back to the start of a cycle from
  anywhere in it and is possible where \<open>panics\<close> holds. The deferred \<open>endRestarts\<close> runs then too.
\<close>

inductive rewrite_step :: "bool \<Rightarrow> daemon \<Rightarrow> daemon \<Rightarrow> bool" for panics where
  already: "da_clients d c = Absent \<Longrightarrow> rewrittenByRestartingCycle configs (da_trigger d) \<Longrightarrow>
    rewrite_step panics d (set_client c (Answered configs None) d)"
| check: "da_clients d c = Absent \<Longrightarrow> \<not> rewrittenByRestartingCycle configs (da_trigger d) \<Longrightarrow>
    rewrite_step panics d (set_client c (Checked configs) d)"
| queue: "da_clients d c = Checked configs \<Longrightarrow>
    rewrite_step panics d
      (set_client c (Queued configs (length (da_log d)))
        (on_trigger countEvent (d\<lparr>da_state := AddRequestedConfigs configs (da_state d)\<rparr>)))"
| register: "da_clients d c = Queued configs n \<Longrightarrow>
    rewrite_step panics d
      (set_client c (Waiting configs n) (on_trigger (registerWaiter c) (d\<lparr>da_reload := True\<rparr>)))"
| answer: "da_clients d c = Waiting configs n \<Longrightarrow> c \<in> set (tr_done (da_trigger d)) \<Longrightarrow>
    rewrite_step panics d (set_client c (Answered configs (Some n)) (on_trigger (forget c) d))"
| give_up: "da_clients d c = Waiting configs n \<Longrightarrow>
    rewrite_step panics d (set_client c (TimedOut configs n) (on_trigger (forget c) d))"
| wake: "rewrite_step panics d (d\<lparr>da_reload := False\<rparr>)"
| claim: "da_phase d = LoopIdle \<Longrightarrow>
    rewrite_step panics d (on_trigger claimWaiters (d\<lparr>da_phase := LoopClaimed\<rparr>))"
| take: "da_phase d = LoopClaimed \<Longrightarrow> TakeRequestedConfigs (da_state d) = (reqs, s) \<Longrightarrow>
    rewrite_step panics d (d\<lparr>da_phase := LoopTaken reqs, da_state := s\<rparr>)"
| plan_failed: "da_phase d = LoopTaken reqs \<Longrightarrow>
    rewrite_step panics d
      (d\<lparr>da_phase := LoopPlanFailed, da_state := AddRequestedConfigs reqs (da_state d)\<rparr>)"
| requeue: "da_phase d = LoopPlanFailed \<Longrightarrow>
    rewrite_step panics d (on_trigger requeueWaiters (d\<lparr>da_phase := LoopIdle\<rparr>))"
| planned: "da_phase d = LoopTaken reqs \<Longrightarrow>
    rewrite_step panics d (d\<lparr>da_phase := LoopPlanned reqs secs\<rparr>)"
| execute: "da_phase d = LoopPlanned reqs secs \<Longrightarrow>
    rewrite_step panics d (d\<lparr>da_phase := LoopRewritten secs, da_log := da_log d @ [(reqs, secs)]\<rparr>)"
| complete: "da_phase d = LoopRewritten secs \<Longrightarrow>
    rewrite_step panics d (on_trigger completeWaiters (d\<lparr>da_phase := LoopReleased secs\<rparr>))"
| no_restarts: "da_phase d = LoopReleased secs \<Longrightarrow> rewrite_step panics d (d\<lparr>da_phase := LoopIdle\<rparr>)"
| begin_restarts: "da_phase d = LoopReleased secs \<Longrightarrow>
    rewrite_step panics d (on_trigger (beginRestarts secs) (d\<lparr>da_phase := LoopRestarting secs\<rparr>))"
| end_restarts: "da_phase d = LoopRestarting secs \<Longrightarrow>
    rewrite_step panics d (on_trigger endRestarts (d\<lparr>da_phase := LoopIdle\<rparr>))"
| panic: "panics \<Longrightarrow> rewrite_step panics d (on_trigger endRestarts (d\<lparr>da_phase := LoopIdle\<rparr>))"

definition reachable :: "bool \<Rightarrow> daemon \<Rightarrow> bool" where
  "reachable panics d = (rewrite_step panics)\<^sup>*\<^sup>* boot d"

end
