(* ===== verification/Rewrite_Protocol.thy ===== *)
theory Rewrite_Protocol
  imports Rewrite_Trigger "HOL-Library.Multiset"
begin

text \<open>
  The REWRITE protocol between the clients of the control socket and the main loop: what holds in every
  state that \<open>rewrite_step\<close> reaches. The registry of waiting clients is sound also when cycles panic;
  that a client is answered only for sections that were rewritten holds as long as no cycle panics.
\<close>

named_theorems trigger_ops \<open>the operations of the trigger, unfolded\<close>

lemmas trigger_ops_defs [trigger_ops] =
  set_client_def on_trigger_def countEvent_def registerWaiter_def forget_def claimWaiters_def
  completeWaiters_def beginRestarts_def endRestarts_def requeueWaiters_def

lemmas boot_defs = boot_def newTrigger_def

section \<open>The registry\<close>

fun past_registering :: "client \<Rightarrow> bool" where
  "past_registering (Waiting _ _) = True"
| "past_registering (Answered _ (Some _)) = True"
| "past_registering (TimedOut _ _) = True"
| "past_registering _ = False"

definition registered :: "MainLoopActionTrigger \<Rightarrow> nat list" where
  "registered t = tr_waiting t @ tr_inflight t @ tr_done t"

fun is_waiting :: "client \<Rightarrow> bool" where
  "is_waiting (Waiting _ _) = True"
| "is_waiting _ = False"

definition registry_ok :: "daemon \<Rightarrow> bool" where
  "registry_ok d =
     (distinct (registered (da_trigger d)) \<and>
      (\<forall>c. (c \<in> set (registered (da_trigger d)) \<longrightarrow> past_registering (da_clients d c)) \<and>
        (is_waiting (da_clients d c) \<longrightarrow> c \<in> set (registered (da_trigger d)))))"

lemma registry_boot: "registry_ok boot"
  by (simp add: registry_ok_def registered_def boot_defs)

lemma registered_ops [simp]:
  "mset (registered (claimWaiters t)) = mset (registered t)"
  "mset (registered (completeWaiters t)) = mset (registered t)"
  "mset (registered (requeueWaiters t)) = mset (registered t)"
  "registered (beginRestarts secs t) = registered t"
  "registered (endRestarts t) = registered t"
  "registered (countEvent t) = registered t"
  "registered (registerWaiter c t) = tr_waiting t @ c # tr_inflight t @ tr_done t"
  by (simp_all add: registered_def trigger_ops)

lemma registry_perm:
  assumes "registry_ok d"
    and "mset (registered (da_trigger d')) = mset (registered (da_trigger d))"
    and "da_clients d' = da_clients d"
  shows "registry_ok d'"
  using assms mset_eq_setD [OF assms(2)] mset_eq_imp_distinct_iff [OF assms(2)]
  by (simp add: registry_ok_def)

lemma registry_client:
  assumes "registry_ok d" and "\<not> is_waiting pc" and "\<not> past_registering (da_clients d c)"
  shows "registry_ok (set_client c pc d)"
  using assms by (auto simp: registry_ok_def set_client_def)

lemma registry_forget:
  assumes "registry_ok d" and "past_registering pc" and "\<not> is_waiting pc"
  shows "registry_ok (set_client c pc (on_trigger (forget c) d))"
  using assms by (auto simp: registry_ok_def registered_def trigger_ops)

lemma registry_register:
  assumes "registry_ok d" and "da_clients d c = Queued configs n"
  shows "registry_ok (set_client c (Waiting configs n) (on_trigger (registerWaiter c) (d\<lparr>da_reload := b\<rparr>)))"
proof -
  have "c \<notin> set (registered (da_trigger d))"
    using assms by (auto simp: registry_ok_def)
  with assms(1) show ?thesis
    by (auto simp: registry_ok_def registered_def trigger_ops)
qed

lemma registry_step:
  assumes "rewrite_step panics d d'" "registry_ok d"
  shows "registry_ok d'"
  using assms(1)
proof cases
  case (register c configs n)
  then show ?thesis by (simp add: registry_register [OF assms(2)])
next
  case (queue c configs)
  then have "registry_ok (on_trigger countEvent (d\<lparr>da_state := AddRequestedConfigs configs (da_state d)\<rparr>))"
    by (intro registry_perm [OF assms(2)]) (simp_all add: on_trigger_def)
  with queue show ?thesis by (simp add: registry_client on_trigger_def)
next
  case (answer c configs n)
  then show ?thesis by (simp add: registry_forget [OF assms(2)])
next
  case (give_up c configs n)
  then show ?thesis by (simp add: registry_forget [OF assms(2)])
next
  case (already c configs)
  then show ?thesis by (simp add: registry_client [OF assms(2)])
next
  case (check c configs)
  then show ?thesis by (simp add: registry_client [OF assms(2)])
qed (simp_all add: registry_perm [OF assms(2)] on_trigger_def)

section \<open>The ledger of requested sections\<close>

definition rewritten_since :: "nat \<Rightarrow> (string list \<times> string list) list \<Rightarrow> string set" where
  "rewritten_since n log = (\<Union>e \<in> set (drop n log). set (fst e))"

lemma rewritten_since_append [simp]:
  "n \<le> length log \<Longrightarrow> rewritten_since n (log @ [e]) = rewritten_since n log \<union> set (fst e)"
  by (auto simp: rewritten_since_def)

lemma rewritten_since_iff:
  "s \<in> rewritten_since n log \<longleftrightarrow> (\<exists>k. n \<le> k \<and> k < length log \<and> s \<in> set (fst (log ! k)))"
proof -
  have "s \<in> rewritten_since n log \<longleftrightarrow> (\<exists>i < length log - n. s \<in> set (fst (drop n log ! i)))"
    by (force simp: rewritten_since_def in_set_conv_nth)
  also have "\<dots> \<longleftrightarrow> (\<exists>k. n \<le> k \<and> k < length log \<and> s \<in> set (fst (log ! k)))"
  proof safe
    fix i
    assume "i < length log - n" "s \<in> set (fst (drop n log ! i))"
    then show "\<exists>k. n \<le> k \<and> k < length log \<and> s \<in> set (fst (log ! k))" by (intro exI [of _ "n + i"]) simp
  next
    fix k
    assume "n \<le> k" "k < length log" "s \<in> set (fst (log ! k))"
    then show "\<exists>i < length log - n. s \<in> set (fst (drop n log ! i))" by (intro exI [of _ "k - n"]) simp
  qed
  finally show ?thesis .
qed

fun in_hand :: "phase \<Rightarrow> string set" where
  "in_hand (LoopTaken reqs) = set reqs"
| "in_hand (LoopPlanned reqs _) = set reqs"
| "in_hand _ = {}"

text \<open>What a claimed client may count on, by the phase of the cycle that claimed it.\<close>

fun promised :: "phase \<Rightarrow> string set \<Rightarrow> string set" where
  "promised LoopClaimed queued = queued"
| "promised LoopPlanFailed queued = queued"
| "promised (LoopTaken reqs) _ = set reqs"
| "promised (LoopPlanned reqs _) _ = set reqs"
| "promised _ _ = {}"

fun claims_open :: "phase \<Rightarrow> bool" where
  "claims_open LoopIdle = False"
| "claims_open (LoopReleased _) = False"
| "claims_open (LoopRestarting _) = False"
| "claims_open _ = True"

fun owes :: "client \<Rightarrow> (string list \<times> nat) option" where
  "owes (Queued configs n) = Some (configs, n)"
| "owes (Waiting configs n) = Some (configs, n)"
| "owes _ = None"

definition ledger_ok :: "daemon \<Rightarrow> bool" where
  "ledger_ok d =
     (\<forall>c configs n. owes (da_clients d c) = Some (configs, n) \<longrightarrow>
        n \<le> length (da_log d) \<and>
        set configs \<subseteq> requests (da_state d) \<union> in_hand (da_phase d) \<union> rewritten_since n (da_log d))"

definition claims_ok :: "daemon \<Rightarrow> bool" where
  "claims_ok d =
     ((\<not> claims_open (da_phase d) \<longrightarrow> tr_inflight (da_trigger d) = []) \<and>
      (\<forall>c \<in> set (tr_inflight (da_trigger d)). \<forall>configs n. da_clients d c = Waiting configs n \<longrightarrow>
        set configs \<subseteq> promised (da_phase d) (requests (da_state d)) \<union> rewritten_since n (da_log d)))"

definition releases_ok :: "daemon \<Rightarrow> bool" where
  "releases_ok d =
     (\<forall>c \<in> set (tr_done (da_trigger d)). \<forall>configs n. da_clients d c = Waiting configs n \<longrightarrow>
        set configs \<subseteq> rewritten_since n (da_log d))"

fun rewritten_sections :: "phase \<Rightarrow> string list option" where
  "rewritten_sections (LoopRewritten secs) = Some secs"
| "rewritten_sections (LoopReleased secs) = Some secs"
| "rewritten_sections (LoopRestarting secs) = Some secs"
| "rewritten_sections _ = None"

fun window :: "phase \<Rightarrow> string list option" where
  "window (LoopRestarting secs) = Some secs"
| "window _ = None"

definition window_ok :: "daemon \<Rightarrow> bool" where
  "window_ok d =
     (tr_restarting (da_trigger d) = window (da_phase d) \<and>
      (\<forall>secs. rewritten_sections (da_phase d) = Some secs \<longrightarrow> da_log d \<noteq> [] \<and> snd (last (da_log d)) = secs))"

definition answers_ok :: "daemon \<Rightarrow> bool" where
  "answers_ok d =
     ((\<forall>c configs n. da_clients d c = Answered configs (Some n) \<longrightarrow>
         n \<le> length (da_log d) \<and> set configs \<subseteq> rewritten_since n (da_log d)) \<and>
      (\<forall>c configs. da_clients d c = Answered configs None \<longrightarrow>
         (\<exists>e \<in> set (da_log d). set configs \<subseteq> set (snd e))))"

lemma ledger_boot: "ledger_ok boot" and claims_boot: "claims_ok boot" and releases_boot: "releases_ok boot"
  and window_boot: "window_ok boot" and answers_boot: "answers_ok boot"
  by (simp_all add: boot_defs ledger_ok_def claims_ok_def releases_ok_def window_ok_def answers_ok_def)

section \<open>Every step keeps them\<close>

lemma ledgerD:
  "ledger_ok d \<Longrightarrow> owes (da_clients d c) = Some (configs, n) \<Longrightarrow>
    n \<le> length (da_log d) \<and>
    set configs \<subseteq> requests (da_state d) \<union> in_hand (da_phase d) \<union> rewritten_since n (da_log d)"
  unfolding ledger_ok_def by blast

lemma ledger_keep:
  assumes "ledger_ok d"
    and "\<And>c x. owes (da_clients d' c) = Some x \<Longrightarrow> owes (da_clients d c) = Some x"
    and "length (da_log d) \<le> length (da_log d')"
    and "\<And>n. n \<le> length (da_log d) \<Longrightarrow>
      requests (da_state d) \<union> in_hand (da_phase d) \<union> rewritten_since n (da_log d)
      \<subseteq> requests (da_state d') \<union> in_hand (da_phase d') \<union> rewritten_since n (da_log d')"
  shows "ledger_ok d'"
  unfolding ledger_ok_def
proof (intro allI impI)
  fix c configs n
  assume "owes (da_clients d' c) = Some (configs, n)"
  note led = ledgerD [OF assms(1) assms(2) [OF this]]
  show "n \<le> length (da_log d') \<and>
    set configs \<subseteq> requests (da_state d') \<union> in_hand (da_phase d') \<union> rewritten_since n (da_log d')"
    using le_trans [OF conjunct1 [OF led] assms(3)]
      subset_trans [OF conjunct2 [OF led] assms(4) [OF conjunct1 [OF led]]] by (rule conjI)
qed

lemma Take_requests:
  "TakeRequestedConfigs s = (reqs, s') \<Longrightarrow> set reqs = requests s \<and> requests s' = {}"
  by (metis fst_conv requests_Take set_Take snd_conv)

lemma ledger_step:
  assumes "rewrite_step False d d'" "ledger_ok d"
  shows "ledger_ok d'"
  using assms(1)
proof cases
  case (queue c configs)
  show ?thesis
    unfolding ledger_ok_def
  proof (intro allI impI)
    fix c' configs' n
    assume owed: "owes (da_clients d' c') = Some (configs', n)"
    show "n \<le> length (da_log d') \<and>
      set configs' \<subseteq> requests (da_state d') \<union> in_hand (da_phase d') \<union> rewritten_since n (da_log d')"
    proof (cases "c' = c")
      case True
      with owed queue show ?thesis by (auto simp: trigger_ops)
    next
      case False
      with owed queue have "owes (da_clients d c') = Some (configs', n)" by (simp add: trigger_ops)
      from ledgerD [OF assms(2) this] show ?thesis using queue by (auto simp: trigger_ops)
    qed
  qed
next
  case (take reqs s)
  show ?thesis
    using take Take_requests [of "da_state d" reqs s] by (intro ledger_keep [OF assms(2)]) auto
qed (rule ledger_keep [OF assms(2)]; auto simp: trigger_ops split: if_splits; fail)+

abbreviation counted_on :: "daemon \<Rightarrow> nat \<Rightarrow> string set" where
  "counted_on d n \<equiv> promised (da_phase d) (requests (da_state d)) \<union> rewritten_since n (da_log d)"

lemma claims_keep:
  assumes "claims_ok d" "ledger_ok d"
    and "\<not> claims_open (da_phase d') \<Longrightarrow> tr_inflight (da_trigger d') = []"
    and "set (tr_inflight (da_trigger d')) \<subseteq> set (tr_inflight (da_trigger d))"
    and "\<And>c configs n. c \<in> set (tr_inflight (da_trigger d')) \<Longrightarrow> da_clients d' c = Waiting configs n \<Longrightarrow>
      da_clients d c = Waiting configs n"
    and "\<And>n. n \<le> length (da_log d) \<Longrightarrow> tr_inflight (da_trigger d') \<noteq> [] \<Longrightarrow> counted_on d n \<subseteq> counted_on d' n"
  shows "claims_ok d'"
  unfolding claims_ok_def
proof (intro conjI ballI allI impI)
  fix c configs n
  assume c: "c \<in> set (tr_inflight (da_trigger d'))" and "da_clients d' c = Waiting configs n"
  then have client: "da_clients d c = Waiting configs n" by (rule assms(5))
  have "set configs \<subseteq> counted_on d n"
    using assms(1) c client assms(4) unfolding claims_ok_def by blast
  also have "\<dots> \<subseteq> counted_on d' n"
    using c ledgerD [OF assms(2), of c configs n] client by (intro assms(6)) auto
  finally show "set configs \<subseteq> counted_on d' n" .
qed (rule assms(3))

lemma claims_closed: "claims_ok d \<Longrightarrow> \<not> claims_open (da_phase d) \<Longrightarrow> tr_inflight (da_trigger d) = []"
  by (simp add: claims_ok_def)

lemma promised_mono: "q \<subseteq> q' \<Longrightarrow> promised p q \<subseteq> promised p q'"
  by (cases p) simp_all

lemma registry_Queued:
  assumes "registry_ok d" and "da_clients d c = Queued configs n"
  shows "c \<notin> set (tr_waiting (da_trigger d))" "c \<notin> set (tr_inflight (da_trigger d))"
    "c \<notin> set (tr_done (da_trigger d))"
  using assms by (auto simp: registry_ok_def registered_def)

lemma claims_step:
  assumes "rewrite_step False d d'" "claims_ok d" "ledger_ok d" "registry_ok d"
  shows "claims_ok d'"
  using assms(1)
proof cases
  case (register c configs n)
  then show ?thesis using registry_Queued [OF assms(4), of c]
    by (intro claims_keep [OF assms(2,3)])
      (auto simp: trigger_ops claims_closed [OF assms(2)] split: if_splits)
next
  case (queue c configs)
  have "promised (da_phase d) (requests (da_state d))
    \<subseteq> promised (da_phase d) (requests (da_state d) \<union> set configs)" by (rule promised_mono) simp
  with queue show ?thesis
    by (intro claims_keep [OF assms(2,3)])
      (auto simp: trigger_ops claims_closed [OF assms(2)] split: if_splits)
next
  case claim
  have "set configs \<subseteq> counted_on d' n" if "da_clients d c = Waiting configs n" for c configs n
    using ledgerD [OF assms(3), of c configs n] that claim by (auto simp: trigger_ops)
  with claim assms(2) show ?thesis by (simp add: claims_ok_def trigger_ops)
next
  case (take reqs s)
  show ?thesis
    using take Take_requests [of "da_state d" reqs s] by (intro claims_keep [OF assms(2,3)]) auto
next
  case (no_restarts secs)
  with assms(2) show ?thesis by (simp add: claims_ok_def)
next
  case (begin_restarts secs)
  with assms(2) show ?thesis by (simp add: claims_ok_def trigger_ops)
next
  case (end_restarts secs)
  with assms(2) show ?thesis by (simp add: claims_ok_def trigger_ops)
qed (rule claims_keep [OF assms(2,3)];
    auto simp: trigger_ops claims_closed [OF assms(2)] split: if_splits; fail)+

lemma releases_keep:
  assumes "releases_ok d" "ledger_ok d"
    and "set (tr_done (da_trigger d')) \<subseteq> set (tr_done (da_trigger d))"
    and "\<And>c configs n. c \<in> set (tr_done (da_trigger d')) \<Longrightarrow> da_clients d' c = Waiting configs n \<Longrightarrow>
      da_clients d c = Waiting configs n"
    and "\<And>n. n \<le> length (da_log d) \<Longrightarrow> rewritten_since n (da_log d) \<subseteq> rewritten_since n (da_log d')"
  shows "releases_ok d'"
  unfolding releases_ok_def
proof (intro ballI allI impI)
  fix c configs n
  assume c: "c \<in> set (tr_done (da_trigger d'))" and "da_clients d' c = Waiting configs n"
  then have client: "da_clients d c = Waiting configs n" by (rule assms(4))
  have "set configs \<subseteq> rewritten_since n (da_log d)"
    using assms(1) c client assms(3) unfolding releases_ok_def by blast
  also have "\<dots> \<subseteq> rewritten_since n (da_log d')"
    using ledgerD [OF assms(2), of c configs n] client by (intro assms(5)) simp
  finally show "set configs \<subseteq> rewritten_since n (da_log d')" .
qed

lemma releases_step:
  assumes "rewrite_step False d d'" "releases_ok d" "claims_ok d" "ledger_ok d" "registry_ok d"
  shows "releases_ok d'"
  using assms(1)
proof cases
  case (register c configs n)
  then show ?thesis using registry_Queued [OF assms(5), of c]
    by (intro releases_keep [OF assms(2,4)]) (auto simp: trigger_ops split: if_splits)
next
  case (complete secs)
  have "set configs \<subseteq> rewritten_since n (da_log d)"
    if c: "c \<in> set (tr_done (da_trigger d)) \<union> set (tr_inflight (da_trigger d))"
      and client: "da_clients d c = Waiting configs n" for c configs n
  proof (cases "c \<in> set (tr_done (da_trigger d))")
    case True
    with client assms(2) show ?thesis unfolding releases_ok_def by blast
  next
    case False
    with c client assms(3) have "set configs \<subseteq> counted_on d n" unfolding claims_ok_def by blast
    with complete show ?thesis by simp
  qed
  with complete show ?thesis by (simp add: releases_ok_def trigger_ops)
qed (rule releases_keep [OF assms(2,4)]; auto simp: trigger_ops split: if_splits; fail)+

lemma window_step:
  assumes "rewrite_step False d d'" "window_ok d"
  shows "window_ok d'"
  using assms(1)
  by cases (use assms(2) in \<open>simp_all add: window_ok_def trigger_ops\<close>)

lemma answers_keep:
  assumes "answers_ok d"
    and "\<And>c configs x. da_clients d' c = Answered configs x \<Longrightarrow> da_clients d c = Answered configs x"
    and "da_log d' = da_log d \<or> (\<exists>e. da_log d' = da_log d @ [e])"
  shows "answers_ok d'"
  unfolding answers_ok_def
proof (intro conjI allI impI)
  fix c configs n
  assume "da_clients d' c = Answered configs (Some n)"
  then have "da_clients d c = Answered configs (Some n)" by (rule assms(2))
  with assms(1) have n: "n \<le> length (da_log d)" and s: "set configs \<subseteq> rewritten_since n (da_log d)"
    unfolding answers_ok_def by blast+
  show "n \<le> length (da_log d')" using n assms(3) by auto
  show "set configs \<subseteq> rewritten_since n (da_log d')" using n s assms(3) by auto
next
  fix c configs
  assume "da_clients d' c = Answered configs None"
  then have "da_clients d c = Answered configs None" by (rule assms(2))
  with assms(1) have "\<exists>e \<in> set (da_log d). set configs \<subseteq> set (snd e)"
    unfolding answers_ok_def by blast
  with assms(3) show "\<exists>e \<in> set (da_log d'). set configs \<subseteq> set (snd e)" by auto
qed

lemma answers_step:
  assumes "rewrite_step False d d'" "answers_ok d" "releases_ok d" "ledger_ok d" "window_ok d"
  shows "answers_ok d'"
  using assms(1)
proof cases
  case (already c configs)
  then obtain secs where secs: "tr_restarting (da_trigger d) = Some secs" "set configs \<subseteq> set secs"
    by (auto simp: rewrittenByRestartingCycle_def list_all_iff split: option.splits)
  with assms(5) have "da_phase d = LoopRestarting secs"
    by (cases "da_phase d") (simp_all add: window_ok_def)
  with assms(5) have "last (da_log d) \<in> set (da_log d)" "snd (last (da_log d)) = secs"
    by (simp_all add: window_ok_def)
  with secs have "\<exists>e \<in> set (da_log d). set configs \<subseteq> set (snd e)" by blast
  with already assms(2) show ?thesis by (simp add: answers_ok_def set_client_def)
next
  case (answer c configs n)
  with assms(3) have "set configs \<subseteq> rewritten_since n (da_log d)" unfolding releases_ok_def by blast
  moreover have "n \<le> length (da_log d)" using ledgerD [OF assms(4), of c configs n] answer by simp
  ultimately show ?thesis using answer assms(2) by (simp add: answers_ok_def trigger_ops)
qed (rule answers_keep [OF assms(2)]; auto simp: trigger_ops split: if_splits; fail)+

section \<open>Reachable states\<close>

definition protocol_ok :: "daemon \<Rightarrow> bool" where
  "protocol_ok d =
     (registry_ok d \<and> ledger_ok d \<and> claims_ok d \<and> releases_ok d \<and> window_ok d \<and> answers_ok d)"

lemma reachable_registry: "reachable panics d \<Longrightarrow> registry_ok d"
  unfolding reachable_def
  by (induction rule: rtranclp_induct) (auto intro: registry_boot registry_step)

lemma reachable_protocol: "reachable False d \<Longrightarrow> protocol_ok d"
  unfolding reachable_def
proof (induction rule: rtranclp_induct)
  case base
  show ?case
    by (simp add: protocol_ok_def registry_boot ledger_boot claims_boot releases_boot window_boot answers_boot)
next
  case (step d d')
  then show ?case
    unfolding protocol_ok_def
    using registry_step ledger_step claims_step releases_step window_step answers_step by blast
qed

lemma reachable_boot [simp]: "reachable panics boot"
  by (simp add: reachable_def)

lemma reachable_step: "reachable panics d \<Longrightarrow> rewrite_step panics d d' \<Longrightarrow> reachable panics d'"
  by (simp add: reachable_def)

section \<open>Two runs\<close>

text \<open>
  In both, client 0 asks for one section, and a cycle claims it and takes its request. In the first the
  cycle rewrites; in the second it panics, and the next one, which has nothing to take, releases the client.
\<close>

definition asked :: "string \<Rightarrow> daemon" where
  "asked sec =
     boot\<lparr>da_state := AddRequestedConfigs [sec] NewState, da_reload := True,
       da_trigger := registerWaiter 0 (countEvent newTrigger), da_clients := (\<lambda>_. Absent)(0 := Waiting [sec] 0)\<rparr>"

definition taken :: "string \<Rightarrow> daemon" where
  "taken sec =
     (asked sec)\<lparr>da_trigger := claimWaiters (da_trigger (asked sec)), da_phase := LoopTaken [sec],
       da_state := snd (TakeRequestedConfigs (da_state (asked sec)))\<rparr>"

lemma Take_asked: "fst (TakeRequestedConfigs (da_state (asked sec))) = [sec]"
  by (simp add: asked_def TakeRequestedConfigs_def AddRequestedConfigs_def NewState_def)

lemma reachable_asked: "reachable panics (asked sec)"
proof -
  let ?d1 = "set_client 0 (Checked [sec]) boot"
  let ?d2 = "set_client 0 (Queued [sec] (length (da_log ?d1)))
    (on_trigger countEvent (?d1\<lparr>da_state := AddRequestedConfigs [sec] (da_state ?d1)\<rparr>))"
  let ?d3 = "set_client 0 (Waiting [sec] 0) (on_trigger (registerWaiter 0) (?d2\<lparr>da_reload := True\<rparr>))"
  have "reachable panics ?d1"
    by (rule reachable_step [OF reachable_boot check])
      (simp_all add: boot_defs rewrittenByRestartingCycle_def)
  then have "reachable panics ?d2"
    by (rule reachable_step [OF _ queue]) (simp add: set_client_def)
  then have "reachable panics ?d3"
    by (rule reachable_step [OF _ register]) (simp add: trigger_ops boot_defs)
  moreover have "?d3 = asked sec"
    by (simp add: asked_def set_client_def on_trigger_def boot_def fun_eq_iff)
  ultimately show ?thesis by simp
qed

lemma reachable_taken: "reachable panics (taken sec)"
proof -
  have "reachable panics (on_trigger claimWaiters ((asked sec)\<lparr>da_phase := LoopClaimed\<rparr>))" (is "reachable _ ?c")
    by (rule reachable_step [OF reachable_asked claim]) (simp add: asked_def boot_defs)
  then have "reachable panics (?c\<lparr>da_phase := LoopTaken [sec], da_state := snd (TakeRequestedConfigs (da_state ?c))\<rparr>)"
    by (rule reachable_step [OF _ take]) (simp_all add: on_trigger_def prod_eq_iff Take_asked)
  then show ?thesis by (simp add: taken_def on_trigger_def)
qed

definition released :: "phase \<Rightarrow> (string list \<times> string list) list \<Rightarrow> daemon \<Rightarrow> daemon" where
  "released p log d =
     set_client 0 (case da_clients d 0 of Waiting configs n \<Rightarrow> Answered configs (Some n) | pc \<Rightarrow> pc)
       (on_trigger (forget 0) (on_trigger completeWaiters (d\<lparr>da_log := log, da_phase := p\<rparr>)))"

lemma reachable_released:
  assumes "reachable panics d" "da_phase d = LoopPlanned reqs secs"
    "da_clients d 0 = Waiting configs n" "0 \<in> set (tr_inflight (da_trigger d))"
  shows "reachable panics (released (LoopReleased secs) (da_log d @ [(reqs, secs)]) d)"
proof -
  let ?e = "d\<lparr>da_phase := LoopRewritten secs, da_log := da_log d @ [(reqs, secs)]\<rparr>"
  let ?c = "on_trigger completeWaiters (?e\<lparr>da_phase := LoopReleased secs\<rparr>)"
  have "reachable panics ?e" by (rule reachable_step [OF assms(1) execute]) (rule assms(2))
  then have "reachable panics ?c" by (rule reachable_step [OF _ complete]) simp
  then have "reachable panics (set_client 0 (Answered configs (Some n)) (on_trigger (forget 0) ?c))"
    by (rule reachable_step [OF _ answer]) (simp_all add: assms(3,4) trigger_ops)
  then show ?thesis by (simp add: released_def assms(3))
qed

section \<open>Properties\<close>



text \<open>C34: Every client that waits for a reply is in exactly one place of the registry, queued for a cycle,
  claimed by the running one or released, and no client's channel is closed twice (a second close would crash
  the daemon). Holds for every interleaving, cycles that panic included.\<close>
theorem waiting_client_registered_once:
  assumes "reachable panics d"
  shows "distinct (tr_waiting (da_trigger d) @ tr_inflight (da_trigger d) @ tr_done (da_trigger d)) \<and>
    (da_clients d c = Waiting configs n \<longrightarrow>
      c \<in> set (tr_waiting (da_trigger d) @ tr_inflight (da_trigger d) @ tr_done (da_trigger d)))"
proof -
  have "is_waiting (da_clients d c)" if "da_clients d c = Waiting configs n" using that by simp
  with reachable_registry [OF assms] show ?thesis unfolding registry_ok_def registered_def by blast
qed

theorem waiting_client_registered_once_witness:
  "reachable True (asked ''mta'') \<and> da_clients (asked ''mta'') 0 = Waiting [''mta''] 0 \<and>
    0 \<in> set (tr_waiting (da_trigger (asked ''mta'')))"
proof -
  have client: "da_clients (asked ''mta'') 0 = Waiting [''mta''] 0" by (simp add: asked_def)
  with waiting_client_registered_once [OF reachable_asked [of True "''mta''"], of 0 "[''mta'']" 0]
  have "0 \<in> set (tr_waiting (da_trigger (asked ''mta'')))"
    by (simp add: asked_def registerWaiter_def countEvent_def newTrigger_def)
  with client reachable_asked show ?thesis by blast
qed

text \<open>C35: A recovered panic breaks the promise of the reply. If the cycle that took a client's request
  panics, the client stays claimed while its section is no longer queued; the next cycle, which takes no
  request, releases it, and it gets the success reply though no cycle rewrote or even processed the
  section.\<close>
theorem panicking_cycle_breaks_reply:
  "\<exists>d. reachable True d \<and> da_clients d 0 = Answered [sec] (Some 0) \<and>
    (\<forall>e \<in> set (da_log d). sec \<notin> set (fst e) \<and> sec \<notin> set (snd e))"
proof -
  let ?i = "on_trigger endRestarts ((taken sec)\<lparr>da_phase := LoopIdle\<rparr>)"
  let ?c = "on_trigger claimWaiters (?i\<lparr>da_phase := LoopClaimed\<rparr>)"
  let ?t = "?c\<lparr>da_phase := LoopTaken [], da_state := snd (TakeRequestedConfigs (da_state ?c))\<rparr>"
  let ?p = "?t\<lparr>da_phase := LoopPlanned [] []\<rparr>"
  let ?d = "released (LoopReleased []) (da_log ?p @ [([], [])]) ?p"
  have "reachable True ?i" by (rule reachable_step [OF reachable_taken panic]) simp
  then have "reachable True ?c" by (rule reachable_step [OF _ claim]) (simp add: on_trigger_def)
  then have "reachable True ?t"
    by (rule reachable_step [OF _ take])
      (simp_all add: on_trigger_def taken_def TakeRequestedConfigs_def)
  then have "reachable True ?p" by (rule reachable_step [OF _ planned]) simp
  then have "reachable True ?d"
    by (rule reachable_released) (simp_all add: taken_def asked_def trigger_ops newTrigger_def)
  moreover have "da_clients ?d 0 = Answered [sec] (Some 0)" "da_log ?d = [([], [])]"
    by (simp_all add: released_def taken_def asked_def set_client_def on_trigger_def boot_def)
  ultimately show ?thesis by (intro exI [of _ ?d]) simp
qed

theorem panicking_cycle_breaks_reply_witness:
  "\<exists>d. reachable True d \<and> da_clients d 0 = Answered [''mta''] (Some 0) \<and>
    (\<forall>e \<in> set (da_log d). ''mta'' \<notin> set (fst e) \<and> ''mta'' \<notin> set (snd e))"
  using panicking_cycle_breaks_reply [of "''mta''"] by simp

end
