(* ===== verification/Host_Files.thy ===== *)
theory Host_Files
  imports Go_Prelude
begin

text \<open>
  The host the daemon writes to: packages \<open>internal/sys\<close> (\<open>fs.go\<close>) and \<open>internal/fileutil\<close>. A file
  system is a map from paths to regular files. Every call takes its fate from a stream, so that any call
  can fail, rename can meet a device boundary, and the context can be cancelled between any two calls.
  \<open>ho_ext\<close> is what external programs keep (their effects are parameters of the model).
\<close>

section \<open>Paths\<close>

fun split_slash :: "string \<Rightarrow> string \<Rightarrow> string list" where
  "split_slash cur [] = [rev cur]"
| "split_slash cur (c # s) =
     (if c = CHR ''/'' then rev cur # split_slash [] s else split_slash (c # cur) s)"

text \<open>\<open>filepath.Clean\<close>: the stack holds the elements kept so far, innermost first.\<close>

definition clean_elem :: "bool \<Rightarrow> string \<Rightarrow> string list \<Rightarrow> string list" where
  "clean_elem rooted e stack =
     (if e = [] \<or> e = ''.'' then stack
      else if e = ''..'' then
        (case stack of
           [] \<Rightarrow> (if rooted then [] else [''..''])
         | t # rest \<Rightarrow> (if t = ''..'' then ''..'' # stack else rest))
      else e # stack)"

definition clean_path :: "string \<Rightarrow> string" where
  "clean_path p =
     (let rooted = has_prefix p ''/'';
          body = join_with ''/'' (rev (fold (clean_elem rooted) (split_slash [] p) []))
      in if rooted then ''/'' @ body else if body = [] then ''.'' else body)"

definition path_join :: "string list \<Rightarrow> string" where
  "path_join elems =
     (case filter (\<lambda>e. e \<noteq> []) elems of [] \<Rightarrow> [] | es \<Rightarrow> clean_path (join_with ''/'' es))"

definition path_dir :: "string \<Rightarrow> string" where
  "path_dir p = clean_path (rev (dropWhile (\<lambda>c. c \<noteq> CHR ''/'') (rev p)))"

section \<open>Files\<close>

record regfile =
  fl_data :: string
  fl_mode :: nat
  fl_owner :: "int \<times> int"

datatype fate = Works | IOError | CrossDevice

datatype fs_error = ErrNotExist | ErrCrossDevice | ErrIO

text \<open>
  \<open>ho_log\<close> records, oldest first, what was done: a program that ran (whether it succeeded, program and
  arguments), an LDAP attribute that was written, a template that was rewritten to its target, a mapped
  file that was written, a proxy configuration that was generated.
\<close>

datatype effect = Ran bool "string list" | Modified string string | Placed string string | Synced string | Generated

record 'x host =
  ho_files :: "regfile smap"
  ho_umask :: nat
  ho_fate :: "nat \<Rightarrow> fate"
  ho_cancel :: "nat \<Rightarrow> bool"
  ho_calls :: nat
  ho_ext :: 'x
  ho_log :: "effect list"

type_synonym ('x, 'a) hostm = "'x host \<Rightarrow> (fs_error + 'a) \<times> 'x host"

definition tick :: "'x host \<Rightarrow> 'x host" where
  "tick h = h\<lparr>ho_calls := Suc (ho_calls h)\<rparr>"

definition log_effect :: "effect \<Rightarrow> 'x host \<Rightarrow> 'x host" where
  "log_effect e h = h\<lparr>ho_log := ho_log h @ [e]\<rparr>"

definition cancelled :: "'x host \<Rightarrow> bool \<times> 'x host" where
  "cancelled h = (ho_cancel h (ho_calls h), tick h)"

definition attempt :: "('x host \<Rightarrow> (fs_error + 'a) \<times> 'x host) \<Rightarrow> ('x, 'a) hostm" where
  "attempt f h =
     (case ho_fate h (ho_calls h) of
        Works \<Rightarrow> f (tick h)
      | IOError \<Rightarrow> (Inl ErrIO, tick h)
      | CrossDevice \<Rightarrow> (Inl ErrCrossDevice, tick h))"

definition hreturn :: "'a \<Rightarrow> ('x, 'a) hostm" where
  "hreturn v h = (Inr v, h)"

definition hbind :: "('x, 'a) hostm \<Rightarrow> ('a \<Rightarrow> ('x, 'b) hostm) \<Rightarrow> ('x, 'b) hostm" where
  "hbind m f h = (case m h of (Inl e, h') \<Rightarrow> (Inl e, h') | (Inr v, h') \<Rightarrow> f v h')"

text \<open>Run \<open>clean\<close> for its effect when \<open>m\<close> fails, and report the failure of \<open>m\<close>.\<close>

definition on_failure :: "('x, 'a) hostm \<Rightarrow> ('x, unit) hostm \<Rightarrow> ('x, 'a) hostm" where
  "on_failure m clean h =
     (case m h of (Inl e, h') \<Rightarrow> (Inl e, snd (clean h')) | (Inr v, h') \<Rightarrow> (Inr v, h'))"

definition put_file :: "string \<Rightarrow> regfile \<Rightarrow> 'x host \<Rightarrow> 'x host" where
  "put_file p f h = h\<lparr>ho_files := mput p f (ho_files h)\<rparr>"

definition fs_stat :: "string \<Rightarrow> ('x, regfile) hostm" where
  "fs_stat p =
     attempt (\<lambda>h. (case mget (ho_files h) p of None \<Rightarrow> Inl ErrNotExist | Some f \<Rightarrow> Inr f, h))"

definition fs_read :: "string \<Rightarrow> ('x, string) hostm" where
  "fs_read p =
     attempt (\<lambda>h. (case mget (ho_files h) p of None \<Rightarrow> Inl ErrNotExist | Some f \<Rightarrow> Inr (fl_data f), h))"

text \<open>An operation on an existing file: read it, and store what it becomes.\<close>

definition fs_update :: "string \<Rightarrow> (regfile \<Rightarrow> regfile) \<Rightarrow> ('x, unit) hostm" where
  "fs_update p g =
     attempt (\<lambda>h. case mget (ho_files h) p of
                    None \<Rightarrow> (Inl ErrNotExist, h)
                  | Some f \<Rightarrow> (Inr (), put_file p (g f) h))"

definition fs_chmod :: "string \<Rightarrow> nat \<Rightarrow> ('x, unit) hostm" where
  "fs_chmod p mode = fs_update p (\<lambda>f. f\<lparr>fl_mode := mode\<rparr>)"

definition fs_write :: "string \<Rightarrow> string \<Rightarrow> ('x, unit) hostm" where
  "fs_write p s = fs_update p (\<lambda>f. f\<lparr>fl_data := fl_data f @ s\<rparr>)"

definition fs_chown :: "string \<Rightarrow> int \<Rightarrow> int \<Rightarrow> ('x, unit) hostm" where
  "fs_chown p uid gid =
     fs_update p (\<lambda>f. f\<lparr>fl_owner :=
       (if uid < 0 then fst (fl_owner f) else uid, if gid < 0 then snd (fl_owner f) else gid)\<rparr>)"

text \<open>Calls that only report whether they worked: \<open>Sync\<close>, \<open>Close\<close>, opening a directory.\<close>

definition fs_sync :: "('x, unit) hostm" where
  "fs_sync = attempt (\<lambda>h. (Inr (), h))"

definition fs_remove :: "string \<Rightarrow> ('x, unit) hostm" where
  "fs_remove p =
     attempt (\<lambda>h. if mhas (ho_files h) p then (Inr (), h\<lparr>ho_files := mdel p (ho_files h)\<rparr>)
                  else (Inl ErrNotExist, h))"

definition fs_rename :: "string \<Rightarrow> string \<Rightarrow> ('x, unit) hostm" where
  "fs_rename old new =
     attempt (\<lambda>h. case mget (ho_files h) old of
                    None \<Rightarrow> (Inl ErrNotExist, h)
                  | Some f \<Rightarrow> (Inr (), put_file new f (h\<lparr>ho_files := mdel old (ho_files h)\<rparr>)))"

text \<open>
  A temporary file: the random part of its name is one that is not taken, here the first free run of
  \<open>x\<close>. A new file has mode 0600.
\<close>

definition temp_name :: "string \<Rightarrow> string \<Rightarrow> regfile smap \<Rightarrow> string" where
  "temp_name pre suf files =
     hd (filter (\<lambda>p. \<not> mhas files p) (map (\<lambda>n. pre @ replicate n CHR ''x'' @ suf) [0..<Suc (length files)]))"

definition fs_create_temp :: "string \<Rightarrow> string \<Rightarrow> string \<Rightarrow> ('x, string) hostm" where
  "fs_create_temp dir pre suf =
     attempt (\<lambda>h. let p = temp_name (dir @ ''/'' @ pre) suf (ho_files h)
                  in (Inr p, put_file p \<lparr>fl_data = [], fl_mode = 384, fl_owner = (0, 0)\<rparr> h))"

section \<open>Package \<open>fileutil\<close>\<close>

definition syncDir :: "string \<Rightarrow> ('x, unit) hostm" where
  "syncDir dir = hbind fs_sync (\<lambda>_. hbind (on_failure fs_sync fs_sync) (\<lambda>_. fs_sync))"

definition AtomicWriteOwned ::
    "string \<Rightarrow> string \<Rightarrow> nat \<Rightarrow> int \<Rightarrow> int \<Rightarrow> ('x, unit) hostm" where
  "AtomicWriteOwned path data perm uid gid =
     hbind (fs_create_temp (path_dir path) ''.configd-'' ''.tmp'') (\<lambda>tmpPath.
       let discard = (\<lambda>h. fs_remove tmpPath (snd (fs_sync h))) in
       hbind (on_failure (fs_write tmpPath data) discard) (\<lambda>_.
       hbind (on_failure fs_sync discard) (\<lambda>_.
       hbind (on_failure (fs_chmod tmpPath perm) discard) (\<lambda>_.
       hbind (if uid \<ge> 0 \<or> gid \<ge> 0 then on_failure (fs_chown tmpPath uid gid) discard else hreturn ()) (\<lambda>_.
       hbind (on_failure fs_sync (fs_remove tmpPath)) (\<lambda>_.
       hbind (on_failure (fs_rename tmpPath path) (fs_remove tmpPath)) (\<lambda>_.
       syncDir (path_dir path))))))))"

definition AtomicWrite :: "string \<Rightarrow> string \<Rightarrow> nat \<Rightarrow> ('x, unit) hostm" where
  "AtomicWrite path data perm = AtomicWriteOwned path data perm (- 1) (- 1)"

definition discardTemp :: "string \<Rightarrow> ('x, unit) hostm" where
  "discardTemp path h = fs_remove path (snd (fs_sync h))"

definition createExclusiveTemp :: "string \<Rightarrow> ('x, string) hostm" where
  "createExclusiveTemp dst = fs_create_temp (path_dir dst) ''.configd-copy-'' ''.tmp''"

definition CopyFile :: "string \<Rightarrow> string \<Rightarrow> ('x, unit) hostm" where
  "CopyFile src dst =
     hbind (fs_stat src) (\<lambda>source.
     hbind (createExclusiveTemp dst) (\<lambda>tmpPath.
       on_failure
         (hbind (fs_write tmpPath (fl_data source)) (\<lambda>_.
          hbind fs_sync (\<lambda>_.
          hbind fs_sync (\<lambda>_.
          hbind (fs_chmod tmpPath (fl_mode source)) (\<lambda>_.
          hbind fs_sync (\<lambda>_.
          fs_rename tmpPath dst))))))
         (discardTemp tmpPath)))"

end
