(* ===== verification/Mta_Ops.thy ===== *)
theory Mta_Ops
  imports Host_Files Daemon_State Base64 Transformer
begin

text \<open>
  Package \<open>internal/mtaops\<close>: the executor that runs postconf, writes mapped files and LDAP attributes, and
  the resolver of directive values. The external programs (postconf) and the LDAP client are parameters:
  functions on the part of the host that is theirs.
\<close>

unbundle bit_operations_syntax

section \<open>Operations\<close>

record PostconfOperation =
  po_key :: string
  po_value :: string

record MapfileOperation =
  mo_key :: string
  mo_local :: bool
  mo_base64 :: string

datatype outcome = Succeeded | Failed | Panicked

record 'x programs =
  pr_exec :: "string \<Rightarrow> string list \<Rightarrow> 'x \<Rightarrow> (bool \<times> string) \<times> 'x"
  pr_modify :: "string \<Rightarrow> string \<Rightarrow> 'x \<Rightarrow> outcome \<times> 'x"

text \<open>Running a program: whether it succeeded, and its combined output.\<close>

definition CombinedOutput ::
    "'x programs \<Rightarrow> string \<Rightarrow> string list \<Rightarrow> 'x host \<Rightarrow> (bool \<times> string) \<times> 'x host" where
  "CombinedOutput pg path args h =
     (case pr_exec pg path args (ho_ext h) of
        ((ok, output), x) \<Rightarrow>
          ((ok, output), log_effect (Ran ok (path # args)) ((tick h)\<lparr>ho_ext := x\<rparr>)))"

definition postconfPath :: "string \<Rightarrow> string" where
  "postconfPath baseDir = path_join [baseDir, ''common'', ''sbin'', ''postconf'']"

definition mappedFilePaths :: "string \<Rightarrow> string smap" where
  "mappedFilePaths baseDir = map (\<lambda>(key, relPath). (key, path_join [baseDir, relPath])) MAPPEDFILES"

section \<open>postconf\<close>

definition key_char :: "char \<Rightarrow> bool" where
  "key_char c \<longleftrightarrow>
     (CHR ''A'' \<le> c \<and> c \<le> CHR ''Z'') \<or> (CHR ''a'' \<le> c \<and> c \<le> CHR ''z'') \<or>
     (CHR ''0'' \<le> c \<and> c \<le> CHR ''9'') \<or> c = CHR ''_''"

definition postconfKeyRe :: "string \<Rightarrow> bool" where
  "postconfKeyRe key \<longleftrightarrow> key \<noteq> [] \<and> list_all key_char key"

definition NormalizePostconfValue :: "string \<Rightarrow> string" where
  "NormalizePostconfValue value =
     (if CHR 0x0A \<notin> set value then value
      else join_with '', '' (filter (\<lambda>l. l \<noteq> []) (map trim_space (split_char (CHR 0x0A) value))))"

definition postconf_arg :: "PostconfOperation \<Rightarrow> string" where
  "postconf_arg op = po_key op @ ''='' @ NormalizePostconfValue (po_value op)"

definition ExecutePostconfBatch ::
    "'x programs \<Rightarrow> string \<Rightarrow> PostconfOperation list \<Rightarrow> 'x host \<Rightarrow> outcome \<times> 'x host" where
  "ExecutePostconfBatch pg baseDir ops h =
     (if ops = [] then (Succeeded, h)
      else
        let args = map postconf_arg (filter (\<lambda>op. postconfKeyRe (po_key op)) ops) in
        if args = [] then (Succeeded, h)
        else (case CombinedOutput pg (postconfPath baseDir) (''-e'' # args) h of
                ((ok, _), h') \<Rightarrow> (if ok then Succeeded else Failed, h')))"

definition ExecutePostconf ::
    "'x programs \<Rightarrow> string \<Rightarrow> PostconfOperation \<Rightarrow> 'x host \<Rightarrow> outcome \<times> 'x host" where
  "ExecutePostconf pg baseDir op h = ExecutePostconfBatch pg baseDir [op] h"

definition ExecutePostconfdBatch ::
    "'x programs \<Rightarrow> string \<Rightarrow> string list \<Rightarrow> 'x host \<Rightarrow> outcome \<times> 'x host" where
  "ExecutePostconfdBatch pg baseDir keys h =
     (if keys = [] then (Succeeded, h)
      else (case CombinedOutput pg (postconfPath baseDir) (''-X'' # keys) h of
              ((ok, output), h') \<Rightarrow>
                (if ok \<or> contains_sub (to_lower output) ''unknown parameter'' then Succeeded else Failed, h')))"

definition ExecutePostconfd :: "'x programs \<Rightarrow> string \<Rightarrow> string \<Rightarrow> 'x host \<Rightarrow> outcome \<times> 'x host" where
  "ExecutePostconfd pg baseDir key h = ExecutePostconfdBatch pg baseDir [key] h"

section \<open>Reading postconf\<close>

definition is_blank :: "char \<Rightarrow> bool" where
  "is_blank c \<longleftrightarrow> c = CHR '' '' \<or> c = CHR 0x09"

definition unwrapPostconfValue :: "string list \<Rightarrow> string" where
  "unwrapPostconfValue lines = join_with '' '' (filter (\<lambda>l. l \<noteq> []) (map trim_space lines))"

definition continuationLines :: "string list \<Rightarrow> string list" where
  "continuationLines lines = takeWhile (\<lambda>l. l \<noteq> [] \<and> is_blank (hd l)) lines"

fun parse_entry_lines :: "string \<Rightarrow> string list \<Rightarrow> string option" where
  "parse_entry_lines key [] = None"
| "parse_entry_lines key (line # rest) =
     (case cut_prefix line key of
        (_, False) \<Rightarrow> parse_entry_lines key rest
      | (after, True) \<Rightarrow>
          (case cut_prefix (dropWhile is_blank after) ''='' of
             (_, False) \<Rightarrow> parse_entry_lines key rest
           | (value, True) \<Rightarrow>
               Some (unwrapPostconfValue (dropWhile is_blank value # continuationLines rest))))"

definition parsePostconfEntry :: "string \<Rightarrow> string \<Rightarrow> string option" where
  "parsePostconfEntry out key = parse_entry_lines key (split_char (CHR 0x0A) out)"

text \<open>\<open>Inl ()\<close> is the error; the value is there with whether the parameter is set.\<close>

definition ReadPostconf ::
    "'x programs \<Rightarrow> string \<Rightarrow> string \<Rightarrow> bool \<Rightarrow> 'x host \<Rightarrow> (unit + string \<times> bool) \<times> 'x host" where
  "ReadPostconf pg baseDir key explicitOnly h =
     (if \<not> postconfKeyRe key then (Inl (), h)
      else if \<not> explicitOnly then
        (case CombinedOutput pg (postconfPath baseDir) [''-h'', key] h of
           ((ok, out), h') \<Rightarrow>
             (if ok then Inr (unwrapPostconfValue (split_char (CHR 0x0A) out), True) else Inl (), h'))
      else
        (case CombinedOutput pg (postconfPath baseDir) [''-n'', key] h of
           ((ok, out), h') \<Rightarrow>
             (if ok then (case parsePostconfEntry out key of
                            None \<Rightarrow> Inr ([], False) | Some v \<Rightarrow> Inr (v, True))
              else Inl (), h')))"

section \<open>Mapped files\<close>

definition handleEmptyMapfileData :: "string \<Rightarrow> 'x host \<Rightarrow> outcome \<times> 'x host" where
  "handleEmptyMapfileData filePath h =
     (case fs_stat filePath h of
        (Inl e, h1) \<Rightarrow> (if e = ErrNotExist then Succeeded else Failed, h1)
      | (Inr _, h1) \<Rightarrow>
          (case fs_remove filePath h1 of
             (Inl _, h2) \<Rightarrow> (Failed, h2)
           | (Inr _, h2) \<Rightarrow> (Succeeded, h2)))"

definition executeMapLocal :: "string \<Rightarrow> 'x host \<Rightarrow> outcome \<times> 'x host" where
  "executeMapLocal filePath h =
     (case fs_stat filePath h of
        (Inl e, h1) \<Rightarrow> (if e = ErrNotExist then Succeeded else Failed, h1)
      | (Inr _, h1) \<Rightarrow> (Succeeded, h1))"

text \<open>\<open>os.FileMode(0o666) &^ umask\<close>, and the mode of an existing file.\<close>

definition writeMapfile :: "string \<Rightarrow> string \<Rightarrow> 'x host \<Rightarrow> outcome \<times> 'x host" where
  "writeMapfile path data h =
     (case fs_stat path h of (found, h1) \<Rightarrow>
       let mode = (case found of Inl _ \<Rightarrow> 438 - (438 AND ho_umask h1) | Inr f \<Rightarrow> fl_mode f)
       in (case AtomicWrite path data mode h1 of
             (Inl _, h2) \<Rightarrow> (Failed, h2)
           | (Inr _, h2) \<Rightarrow> (Succeeded, log_effect (Synced path) h2)))"

definition executeMapFile :: "string \<Rightarrow> string \<Rightarrow> 'x host \<Rightarrow> outcome \<times> 'x host" where
  "executeMapFile base64Data filePath h =
     (if base64Data = [] then handleEmptyMapfileData filePath h
      else
        (case b64_decode base64Data of
           None \<Rightarrow> (Failed, h)
         | Some data \<Rightarrow>
             (case fs_read filePath h of (existing, h1) \<Rightarrow>
               if existing = Inr data then (Succeeded, h1) else writeMapfile filePath data h1)))"

definition ExecuteMapfile :: "string \<Rightarrow> MapfileOperation \<Rightarrow> 'x host \<Rightarrow> outcome \<times> 'x host" where
  "ExecuteMapfile baseDir op h =
     (case mget (mappedFilePaths baseDir) (mo_key op) of
        None \<Rightarrow> (Failed, h)
      | Some filePath \<Rightarrow>
          if mo_local op then executeMapLocal filePath h else executeMapFile (mo_base64 op) filePath h)"

definition ExecuteLdapWrite ::
    "'x programs \<Rightarrow> string \<Rightarrow> string \<Rightarrow> 'x host \<Rightarrow> outcome \<times> 'x host" where
  "ExecuteLdapWrite pg key val h =
     (case pr_modify pg key val (ho_ext h) of
        (res, x) \<Rightarrow>
          let h' = (tick h)\<lparr>ho_ext := x\<rparr>
          in (res, if res = Succeeded then log_effect (Modified key val) h' else h'))"

section \<open>Resolving values\<close>

definition or_empty :: "string option \<Rightarrow> string" where
  "or_empty v = (case v of None \<Rightarrow> [] | Some x \<Rightarrow> x)"

definition resolveVAR :: "string \<Rightarrow> SnapshotRef \<Rightarrow> string" where
  "resolveVAR key snap =
     (let value = or_empty (Global snap key);
          value' = (if value = [] then or_empty (Server snap key) else value)
      in trim_space value')"

definition resolveLOCAL :: "string \<Rightarrow> SnapshotRef \<Rightarrow> string" where
  "resolveLOCAL key snap = trim_space (or_empty (Local snap key))"

definition resolveMAPLOCAL :: "string \<Rightarrow> string \<Rightarrow> 'x host \<Rightarrow> string option \<times> 'x host" where
  "resolveMAPLOCAL baseDir key h =
     (case mget (mappedFilePaths baseDir) key of
        None \<Rightarrow> (None, h)
      | Some filePath \<Rightarrow>
          (case fs_stat filePath h of
             (Inl e, h1) \<Rightarrow> (if e = ErrNotExist then Some [] else None, h1)
           | (Inr _, h1) \<Rightarrow> (Some filePath, h1)))"

definition ResolveValue ::
    "string \<Rightarrow> string \<Rightarrow> string \<Rightarrow> SnapshotRef \<Rightarrow> 'x host \<Rightarrow> string option \<times> 'x host" where
  "ResolveValue baseDir valueType key snap h =
     (if valueType = TypeVar then (Some (resolveVAR key snap), h)
      else if valueType = TypeLocal then (Some (resolveLOCAL key snap), h)
      else if valueType = ''MAPLOCAL'' then resolveMAPLOCAL baseDir key h
      else (Some key, h))"

end
