(* ===== verification/Plan_Execute.thy ===== *)
theory Plan_Execute
  imports Config_Cycle Mta_Ops
begin

text \<open>
  Carrying out a plan: \<open>Execute\<close> of \<open>internal/configmgr/manager_plan.go\<close> and the actions of
  \<open>manager_actions_mta.go\<close> and \<open>manager_actions_rewrite.go\<close>. An action reports whether it succeeded; what
  did not complete becomes the carry of the next cycle. The five steps of \<open>Execute\<close> run concurrently: the
  model runs them one after the other in an order that is an argument, and the properties hold for every
  order. A worker of the template rewrites recovers its own panics, which count as failures of that file;
  a panic of an LDAP write or of the proxy generator ends its whole step.
\<close>

unbundle bit_operations_syntax

record 'x run =
  rn_state :: State
  rn_host :: "'x host"

record 'x exec_env =
  ev_cfg :: Config
  ev_pg :: "'x programs"
  ev_proxygen :: "State \<Rightarrow> regfile smap \<times> 'x \<Rightarrow> outcome \<times> regfile smap \<times> 'x"
  ev_pyRange :: "int \<Rightarrow> int \<Rightarrow> int \<Rightarrow> string"
  ev_depth :: nat

text \<open>The host as the lookups see it.\<close>

definition lookup_host_of :: "'x exec_env \<Rightarrow> 'x host \<Rightarrow> lookup_host" where
  "lookup_host_of ev h =
     \<lparr>lh_read = (\<lambda>p. if ho_fate h (ho_calls h) \<noteq> Works then Inl (LookupFailed p)
                     else (case mget (ho_files h) p of None \<Rightarrow> Inl FileNotExist | Some f \<Rightarrow> Inr (fl_data f))),
      lh_stat = (\<lambda>p. if ho_fate h (ho_calls h) \<noteq> Works then Some (LookupFailed p)
                     else (case mget (ho_files h) p of None \<Rightarrow> Some FileNotExist | Some _ \<Rightarrow> None)),
      lh_pyRange = ev_pyRange ev\<rparr>"

definition run_transform :: "'x exec_env \<Rightarrow> 'x host \<Rightarrow> string \<Rightarrow> (State, string) xform" where
  "run_transform ev h =
     Transform (ev_pyRange ev) (LookUpConfig (ev_depth ev) (lookup_host_of ev h) (ev_cfg ev))"

definition on_host :: "('x host \<Rightarrow> 'a \<times> 'x host) \<Rightarrow> 'x run \<Rightarrow> 'a \<times> 'x run" where
  "on_host f r = (case f (rn_host r) of (v, h) \<Rightarrow> (v, r\<lparr>rn_host := h\<rparr>))"

section \<open>Values\<close>

definition configTypeLITERAL :: string where "configTypeLITERAL = ''LITERAL''"

definition parseValueSpec :: "string \<Rightarrow> string \<times> string" where
  "parseValueSpec valueSpec =
     (if CHR '':'' \<in> set valueSpec then
        let prefix = takeWhile (\<lambda>c. c \<noteq> CHR '':'') valueSpec;
            after = drop (Suc (length prefix)) valueSpec
        in if prefix \<in> {TypeVar, TypeLocal, TypeMapLocal} then (prefix, after)
           else (configTypeLITERAL, valueSpec)
      else if has_prefix valueSpec (TypeFile @ '' '') then
        (TypeFile, trim_prefix valueSpec (TypeFile @ '' ''))
      else (configTypeLITERAL, valueSpec))"

definition resolveValueSpec :: "'x exec_env \<Rightarrow> string \<Rightarrow> 'x run \<Rightarrow> string option \<times> 'x run" where
  "resolveValueSpec ev valueSpec r =
     (case parseValueSpec valueSpec of (valueType, valueKey) \<Rightarrow>
       if valueType = configTypeLITERAL then (Some valueKey, r)
       else if valueType = TypeFile then
         (case lookupFileKey (run_transform ev (rn_host r)) (lookup_host_of ev (rn_host r)) (ev_cfg ev)
                 valueKey (rn_state r) of
            (Inl _, s) \<Rightarrow> (None, r\<lparr>rn_state := s\<rparr>)
          | (Inr v, s) \<Rightarrow> (Some v, r\<lparr>rn_state := s\<rparr>))
       else
         on_host (ResolveValue (cfg_BaseDir (ev_cfg ev)) valueType valueKey (StateSnapshot (rn_state r))) r)"

definition normalizePostconfBool :: "string \<Rightarrow> string \<Rightarrow> string" where
  "normalizePostconfBool valueSpec resolved =
     (if fst (parseValueSpec valueSpec) = configTypeLITERAL then resolved
      else if to_upper resolved = ''TRUE'' then ''yes''
      else if to_upper resolved = ''FALSE'' then ''no''
      else resolved)"

section \<open>postconf and LDAP\<close>

text \<open>
  The first loop of \<open>doPostconf\<close>: the operations collected, the keys to retry and whether a value could
  not be resolved; \<open>None\<close> when the context is cancelled, with that last flag alone.
\<close>

fun collect_postconf ::
    "'x exec_env \<Rightarrow> Postconf list \<Rightarrow> PostconfOperation list \<Rightarrow> string list \<Rightarrow> 'x run
      \<Rightarrow> (PostconfOperation list \<times> string list) option \<times> bool \<times> 'x run" where
  "collect_postconf ev [] ops retry r = (Some (ops, retry), retry \<noteq> [], r)"
| "collect_postconf ev (e # rest) ops retry r =
     (case on_host cancelled r of
        (True, r1) \<Rightarrow> (None, retry \<noteq> [], r1)
      | (False, r1) \<Rightarrow>
          (case resolveValueSpec ev (pc_value e) r1 of
             (None, r2) \<Rightarrow> collect_postconf ev rest ops (retry @ [pc_key e]) r2
           | (Some v, r2) \<Rightarrow>
               collect_postconf ev rest
                 (ops @ [\<lparr>po_key = pc_key e, po_value = normalizePostconfBool (pc_value e) v\<rparr>]) retry r2))"

text \<open>One postconf call per key: the keys that fail.\<close>

fun postconf_per_key ::
    "'x exec_env \<Rightarrow> PostconfOperation list \<Rightarrow> 'x host \<Rightarrow> string list \<times> 'x host" where
  "postconf_per_key ev [] h = ([], h)"
| "postconf_per_key ev (op # ops) h =
     (case ExecutePostconf (ev_pg ev) (cfg_BaseDir (ev_cfg ev)) op h of
        (res, h1) \<Rightarrow>
          (case postconf_per_key ev ops h1 of
             (failed, h2) \<Rightarrow> (if res = Succeeded then failed else po_key op # failed, h2)))"

definition normalized_op :: "PostconfOperation \<Rightarrow> PostconfOperation" where
  "normalized_op op = op\<lparr>po_value := NormalizePostconfValue (po_value op)\<rparr>"

definition executePostconfOps ::
    "'x exec_env \<Rightarrow> PostconfOperation list \<Rightarrow> 'x host \<Rightarrow> string list \<times> 'x host" where
  "executePostconfOps ev ops h =
     (if ops = [] then ([], h)
      else
        (case ExecutePostconfBatch (ev_pg ev) (cfg_BaseDir (ev_cfg ev)) ops h of
           (Succeeded, h1) \<Rightarrow> ([], h1)
         | (_, h1) \<Rightarrow> postconf_per_key ev (map normalized_op ops) h1))"

definition doPostconf ::
    "'x exec_env \<Rightarrow> Postconf list \<Rightarrow> 'x run \<Rightarrow> (Postconf list \<times> bool) \<times> 'x run" where
  "doPostconf ev entries r =
     (if entries = [] then (([], False), r)
      else
        (case collect_postconf ev entries [] [] r of
           (None, err, r1) \<Rightarrow> ((entries, err), r1)
         | (Some (ops, retry), err, r1) \<Rightarrow>
             (case on_host (executePostconfOps ev ops) r1 of
                (failed, r2) \<Rightarrow>
                  ((filter (\<lambda>e. pc_key e \<in> set (retry @ failed)) entries, err \<or> failed \<noteq> []), r2))))"

text \<open>The loop of \<open>doPostconfd\<close> only polls the context.\<close>

fun poll_each :: "'e list \<Rightarrow> 'x host \<Rightarrow> bool \<times> 'x host" where
  "poll_each [] h = (False, h)"
| "poll_each (_ # rest) h = (case cancelled h of (True, h1) \<Rightarrow> (True, h1) | (False, h1) \<Rightarrow> poll_each rest h1)"

definition doPostconfd ::
    "'x exec_env \<Rightarrow> Postconfd list \<Rightarrow> 'x run \<Rightarrow> (Postconfd list \<times> bool) \<times> 'x run" where
  "doPostconfd ev entries r =
     (if entries = [] then (([], False), r)
      else
        (case on_host (poll_each entries) r of
           (True, r1) \<Rightarrow> ((entries, False), r1)
         | (False, r1) \<Rightarrow>
             (case on_host (ExecutePostconfdBatch (ev_pg ev) (cfg_BaseDir (ev_cfg ev)) (map pd_key entries)) r1 of
                (Succeeded, r2) \<Rightarrow> (([], False), r2)
              | (_, r2) \<Rightarrow> ((entries, True), r2))))"

text \<open>The loop of \<open>doLdap\<close>; \<open>None\<close> is a panic of the LDAP client.\<close>

fun doLdap ::
    "'x exec_env \<Rightarrow> Ldap list \<Rightarrow> 'x run \<Rightarrow> (Ldap list \<times> bool) option \<times> 'x run" where
  "doLdap ev [] r = (Some ([], False), r)"
| "doLdap ev (e # rest) r =
     (case on_host cancelled r of
        (True, r1) \<Rightarrow> (Some (e # rest, False), r1)
      | (False, r1) \<Rightarrow>
          (case resolveValueSpec ev (ld_value e) r1 of
             (None, r2) \<Rightarrow>
               (case doLdap ev rest r2 of
                  (None, r3) \<Rightarrow> (None, r3)
                | (Some (pending, _), r3) \<Rightarrow> (Some (e # pending, True), r3))
           | (Some v, r2) \<Rightarrow>
               (case on_host (ExecuteLdapWrite (ev_pg ev) (ld_key e) v) r2 of
                  (Panicked, r3) \<Rightarrow> (None, r3)
                | (Failed, r3) \<Rightarrow>
                    (case doLdap ev rest r3 of
                       (None, r4) \<Rightarrow> (None, r4)
                     | (Some (pending, _), r4) \<Rightarrow> (Some (e # pending, True), r4))
                | (Succeeded, r3) \<Rightarrow> doLdap ev rest r3)))"

section \<open>Mapped files\<close>

definition syncMapfile :: "'x exec_env \<Rightarrow> Mapfile \<Rightarrow> 'x run \<Rightarrow> outcome \<times> 'x run" where
  "syncMapfile ev m r =
     on_host (ExecuteMapfile (cfg_BaseDir (ev_cfg ev))
       \<lparr>mo_key = mf_key m, mo_local = mf_local m,
        mo_base64 = (if mf_local m then [] else mappedFileBase64 (mf_key m) (rn_state r))\<rparr>) r"

fun doMapfile :: "'x exec_env \<Rightarrow> Mapfile list \<Rightarrow> 'x run \<Rightarrow> bool \<times> 'x run" where
  "doMapfile ev [] r = (False, r)"
| "doMapfile ev (m # rest) r =
     (case on_host cancelled r of
        (True, r1) \<Rightarrow> (False, r1)
      | (False, r1) \<Rightarrow>
          (case syncMapfile ev m r1 of
             (res, r2) \<Rightarrow> (case doMapfile ev rest r2 of (err, r3) \<Rightarrow> (res \<noteq> Succeeded \<or> err, r3))))"

definition cmHealMapfiles :: "'x exec_env \<Rightarrow> Mapfile list \<Rightarrow> 'x run \<Rightarrow> 'x run" where
  "cmHealMapfiles ev entries r = fold (\<lambda>m. snd \<circ> syncMapfile ev m) entries r"

section \<open>Template rewrites\<close>

definition is_octal :: "char \<Rightarrow> bool" where
  "is_octal c \<longleftrightarrow> CHR ''0'' \<le> c \<and> c \<le> CHR ''7''"

definition octal_val :: "string \<Rightarrow> int" where
  "octal_val ds = foldl (\<lambda>n c. 8 * n + (of_char c - 48)) 0 ds"

text \<open>\<open>strconv.ParseInt(s, 8, 32)\<close>.\<close>

definition parse_int8 :: "string \<Rightarrow> int option" where
  "parse_int8 s =
     (let neg = has_prefix s ''-'';
          ds = (if neg \<or> has_prefix s ''+'' then drop 1 s else s)
      in if ds = [] \<or> \<not> list_all is_octal ds then None
         else let v = (if neg then - octal_val ds else octal_val ds)
              in if v < - (2 ^ 31) \<or> v \<ge> 2 ^ 31 then None else Some v)"

text \<open>The permission bits of the mode (a \<open>Chmod\<close> takes no others from a number below \<open>2 ^ 20\<close>).\<close>

definition rewriteFileMode :: "string \<Rightarrow> nat option" where
  "rewriteFileMode modeStr =
     (if modeStr = [] then Some 288
      else map_option (\<lambda>v. nat (v mod 2 ^ 32) AND 511) (parse_int8 modeStr))"

text \<open>
  \<open>bufio.ScanLines\<close>: the lines without their end; a line that does not fit in the buffer of 64 KiB is an
  error and ends the scan.
\<close>

definition max_line :: nat where "max_line = 65536"

definition drop_cr :: "string \<Rightarrow> string" where
  "drop_cr l = (if has_suffix l [CHR 0x0D] then butlast l else l)"

definition raw_lines :: "string \<Rightarrow> string list" where
  "raw_lines content =
     (let ls = split_char (CHR 0x0A) content in if last ls = [] then butlast ls else ls)"

definition scan_lines :: "string \<Rightarrow> string list \<times> bool" where
  "scan_lines content =
     (map drop_cr (takeWhile (\<lambda>l. length l < max_line) (raw_lines content)),
      list_ex (\<lambda>l. length l \<ge> max_line) (raw_lines content))"

type_synonym 'x writer = "string \<Rightarrow> ('x, unit) hostm"

text \<open>The loop over the lines; the result is the text written.\<close>

fun transform_lines :: "'x exec_env \<Rightarrow> 'x writer \<Rightarrow> string list \<Rightarrow> 'x run \<Rightarrow> string option \<times> 'x run" where
  "transform_lines ev write [] r = (Some [], r)"
| "transform_lines ev write (line # rest) r =
     (case run_transform ev (rn_host r) line (rn_state r) of
        (Inl _, s) \<Rightarrow> (None, r\<lparr>rn_state := s\<rparr>)
      | (Inr v, s) \<Rightarrow>
          let v' = (if has_suffix v [CHR 0x0A] then v else v @ [CHR 0x0A]) in
          (case on_host (write v') (r\<lparr>rn_state := s\<rparr>) of
             (Inl _, r1) \<Rightarrow> (None, r1)
           | (Inr _, r1) \<Rightarrow>
               (case transform_lines ev write rest r1 of
                  (None, r2) \<Rightarrow> (None, r2)
                | (Some out, r2) \<Rightarrow> (Some (v' @ out), r2))))"

definition rewriteTransform ::
    "'x exec_env \<Rightarrow> string \<Rightarrow> 'x writer \<Rightarrow> 'x run \<Rightarrow> string option \<times> 'x run" where
  "rewriteTransform ev srcPath write r =
     (case on_host (fs_read srcPath) r of
        (Inl _, r1) \<Rightarrow> (None, r1)
      | (Inr content, r1) \<Rightarrow>
          (case scan_lines content of (lines, too_long) \<Rightarrow>
            (case transform_lines ev write lines r1 of
               (None, r2) \<Rightarrow> (None, r2)
             | (Some out, r2) \<Rightarrow> (if too_long then None else Some out, r2))))"

definition cleanupRewriteFiles :: "string \<Rightarrow> 'x host \<Rightarrow> 'x host" where
  "cleanupRewriteFiles tmpFileName h =
     (case fs_stat tmpFileName (snd (fs_sync h)) of
        (Inl _, h1) \<Rightarrow> h1
      | (Inr _, h1) \<Rightarrow> snd (fs_remove tmpFileName h1))"

definition rewriteAtomicCommit :: "string \<Rightarrow> string \<Rightarrow> string \<Rightarrow> 'x host \<Rightarrow> bool \<times> 'x host" where
  "rewriteAtomicCommit tmpFileName destPath modeStr h =
     (case rewriteFileMode modeStr of
        None \<Rightarrow> (False, h)
      | Some fileMode \<Rightarrow>
          (case fs_chmod tmpFileName fileMode h of
             (Inl _, h1) \<Rightarrow> (False, h1)
           | (Inr _, h1) \<Rightarrow>
               (case fs_rename tmpFileName destPath h1 of
                  (Inr _, h2) \<Rightarrow> (True, h2)
                | (Inl e, h2) \<Rightarrow>
                    if e \<noteq> ErrCrossDevice then (False, h2)
                    else
                      (case CopyFile tmpFileName destPath h2 of
                         (Inl _, h3) \<Rightarrow> (False, h3)
                       | (Inr _, h3) \<Rightarrow>
                           (case fs_chmod destPath fileMode h3 of
                              (Inl _, h4) \<Rightarrow> (False, h4)
                            | (Inr _, h4) \<Rightarrow> (True, snd (fs_remove tmpFileName h4)))))))"

definition dest_path :: "Config \<Rightarrow> string \<Rightarrow> string" where
  "dest_path cfg target = cfg_BaseDir cfg @ ''/'' @ target"

definition processRewrite :: "'x exec_env \<Rightarrow> Rewrite \<Rightarrow> 'x run \<Rightarrow> bool \<times> 'x run" where
  "processRewrite ev e r =
     (let srcPath = TemplatePath (ev_cfg ev) (rw_source e);
          destPath = dest_path (ev_cfg ev) (rw_target e)
      in case on_host (fs_create_temp (path_dir destPath) ''.zmconfigd-rewrite-'' ''.tmp'') r of
           (Inl _, r1) \<Rightarrow> (False, r1)
         | (Inr tmp, r1) \<Rightarrow>
             (case rewriteTransform ev srcPath (fs_write tmp) r1 of
                (None, r2) \<Rightarrow> (False, r2\<lparr>rn_host := cleanupRewriteFiles tmp (rn_host r2)\<rparr>)
              | (Some _, r2) \<Rightarrow>
                  (case rewriteAtomicCommit tmp destPath (rw_mode e) (snd (fs_sync (rn_host r2))) of
                     (ok, h) \<Rightarrow>
                       let h' = cleanupRewriteFiles tmp h
                       in (ok, r2\<lparr>rn_host := if ok then log_effect (Placed (rw_source e) destPath) h' else h'\<rparr>))))"

text \<open>The loop of \<open>doRewrites\<close>: the sources that completed, and whether a worker failed.\<close>

fun rewrite_loop :: "'x exec_env \<Rightarrow> Rewrite list \<Rightarrow> 'x run \<Rightarrow> (string list \<times> bool) \<times> 'x run" where
  "rewrite_loop ev [] r = (([], False), r)"
| "rewrite_loop ev (e # rest) r =
     (case on_host cancelled r of
        (True, r1) \<Rightarrow> (([], False), r1)
      | (False, r1) \<Rightarrow>
          (case processRewrite ev e r1 of
             (ok, r2) \<Rightarrow>
               (case rewrite_loop ev rest r2 of
                  ((finished, err), r3) \<Rightarrow>
                    ((if ok then rw_source e # finished else finished, \<not> ok \<or> err), r3))))"

definition doRewrites ::
    "'x exec_env \<Rightarrow> Rewrite list \<Rightarrow> 'x run \<Rightarrow> (Rewrite list \<times> bool) \<times> 'x run" where
  "doRewrites ev entries r =
     (if entries = [] then (([], False), r)
      else
        (case rewrite_loop ev entries r of
           ((finished, err), r1) \<Rightarrow> ((filter (\<lambda>e. rw_source e \<notin> set finished) entries, err), r1)))"

section \<open>Execute\<close>

definition RunProxygenWithConfigs :: "'x exec_env \<Rightarrow> State \<Rightarrow> 'x host \<Rightarrow> outcome \<times> 'x host" where
  "RunProxygenWithConfigs ev s h =
     (case ev_proxygen ev s (ho_files h, ho_ext h) of
        (res, files, x) \<Rightarrow> (res, (tick h)\<lparr>ho_files := files, ho_ext := x\<rparr>))"

definition runProxygen ::
    "'x exec_env \<Rightarrow> Proxygen option \<Rightarrow> 'x run \<Rightarrow> (Proxygen option \<times> bool) option \<times> 'x run" where
  "runProxygen ev req r =
     (case req of
        None \<Rightarrow> (Some (None, False), r)
      | Some _ \<Rightarrow>
          (case on_host (RunProxygenWithConfigs ev (rn_state r)) r of
             (Succeeded, r1) \<Rightarrow> (Some (None, False), r1\<lparr>rn_host := log_effect Generated (rn_host r1)\<rparr>)
           | (Failed, r1) \<Rightarrow> (Some (req, True), r1)
           | (Panicked, r1) \<Rightarrow> (None, r1)))"

datatype step = StepProxygen | StepRewrites | StepPostconf | StepPostconfd | StepLdap

definition all_steps :: "step list" where
  "all_steps = [StepProxygen, StepRewrites, StepPostconf, StepPostconfd, StepLdap]"

type_synonym 'x exec_state = "Carry \<times> bool \<times> 'x run"

text \<open>One step: it sets its field of what is pending, unless it panics, and reports whether it failed.\<close>

definition runStep :: "'x exec_env \<Rightarrow> Plan \<Rightarrow> step \<Rightarrow> 'x exec_state \<Rightarrow> 'x exec_state" where
  "runStep ev pl st es =
     (case es of (pending, err, r) \<Rightarrow>
       (case st of
          StepProxygen \<Rightarrow>
            (case runProxygen ev (pl_Proxygen pl) r of
               (None, r1) \<Rightarrow> (pending, True, r1)
             | (Some (p, e), r1) \<Rightarrow> (pending\<lparr>c_Proxygen := p\<rparr>, err \<or> e, r1))
        | StepRewrites \<Rightarrow>
            (case doRewrites ev (pl_Rewrites pl) r of
               ((p, e), r1) \<Rightarrow> (pending\<lparr>c_Rewrites := p\<rparr>, err \<or> e, r1))
        | StepPostconf \<Rightarrow>
            (case doPostconf ev (pl_Postconf pl) r of
               ((p, e), r1) \<Rightarrow> (pending\<lparr>c_Postconf := p\<rparr>, err \<or> e, r1))
        | StepPostconfd \<Rightarrow>
            (case doPostconfd ev (pl_Postconfd pl) r of
               ((p, e), r1) \<Rightarrow> (pending\<lparr>c_Postconfd := p\<rparr>, err \<or> e, r1))
        | StepLdap \<Rightarrow>
            (case doLdap ev (pl_Ldap pl) r of
               (None, r1) \<Rightarrow> (pending, True, r1)
             | (Some (p, e), r1) \<Rightarrow> (pending\<lparr>c_Ldap := p\<rparr>, err \<or> e, r1))))"

definition Execute ::
    "'x exec_env \<Rightarrow> step list \<Rightarrow> Plan \<Rightarrow> 'm ConfigManager \<times> 'x host \<Rightarrow> bool \<times> 'm ConfigManager \<times> 'x host" where
  "Execute ev order pl cmh =
     (case cmh of (cm, h) \<Rightarrow>
       (case doMapfile ev (pl_Mapfiles pl)
               (cmHealMapfiles ev (pl_Heal pl) \<lparr>rn_state = cm_State cm, rn_host = h\<rparr>) of
          (merr, r1) \<Rightarrow>
            (case fold (runStep ev pl) order (empty_carry, merr, r1) of
               (pending, err, r2) \<Rightarrow>
                 (err,
                  cm\<lparr>cm_State := rn_state r2, cm_carry := pending\<lparr>c_Restarts := pl_Restarts pl\<rparr>\<rparr>,
                  rn_host r2))))"

end
