(* ===== verification/Execute_Frame.thy ===== *)
theory Execute_Frame
  imports Plan_Execute Lookup_Correct "HOL-Library.Sublist"
begin

text \<open>
  What the execution of a plan cannot do to the host: a relation between hosts that is a preorder and
  that every elementary step keeps (a call counted, the files or the state of the programs replaced, an
  effect logged) is kept by every action. Two such relations are used: the log only grows, and the
  cancellation of the context is not touched.
\<close>

text \<open>
  A function keeps a relation on what it finds through \<open>at\<close>: the host it works on, the host of a run or
  the state of a run.
\<close>

definition framed :: "('h \<Rightarrow> 'h \<Rightarrow> bool) \<Rightarrow> ('s \<Rightarrow> 'h) \<Rightarrow> ('s \<Rightarrow> 'a \<times> 's) \<Rightarrow> bool" where
  "framed R at f \<longleftrightarrow> (\<forall>s. R (at s) (at (snd (f s))))"

lemma framedI: "(\<And>s. R (at s) (at (snd (f s)))) \<Longrightarrow> framed R at f"
  by (simp add: framed_def)

lemma framedD: "framed R at f \<Longrightarrow> f s = (v, s') \<Longrightarrow> R (at s) (at s')"
  by (metis framed_def snd_conv)

lemma framed_snd: "framed R at f \<Longrightarrow> R (at s) (at (snd (f s)))"
  by (simp add: framed_def)

lemma framed_eq: "(\<And>s. f s = g s) \<Longrightarrow> framed R at g \<Longrightarrow> framed R at f"
  by (simp add: framed_def)

lemma framed_if: "framed R at f \<Longrightarrow> framed R at g \<Longrightarrow> framed R at (\<lambda>s. if P s then f s else g s)"
  by (simp add: framed_def)

lemma framed_sum:
  "(\<And>e. framed R at (f e)) \<Longrightarrow> (\<And>v. framed R at (g v)) \<Longrightarrow>
    framed R at (\<lambda>s. case v of Inl e \<Rightarrow> f e s | Inr w \<Rightarrow> g w s)"
  by (cases v) simp_all

lemma framed_option:
  "framed R at f \<Longrightarrow> (\<And>v. framed R at (g v)) \<Longrightarrow>
    framed R at (\<lambda>s. case v of None \<Rightarrow> f s | Some w \<Rightarrow> g w s)"
  by (cases v) simp_all

lemma framed_bool:
  "framed R at f \<Longrightarrow> framed R at g \<Longrightarrow> framed R at (\<lambda>s. case v of True \<Rightarrow> f s | False \<Rightarrow> g s)"
  by (cases v) simp_all

lemma framed_prod: "(\<And>a b. framed R at (f a b)) \<Longrightarrow> framed R at (\<lambda>s. case v of (a, b) \<Rightarrow> f a b s)"
  by (cases v) simp_all

lemma framed_outcome:
  "framed R at f \<Longrightarrow> framed R at g \<Longrightarrow> framed R at k \<Longrightarrow>
    framed R at (\<lambda>s. case v of Succeeded \<Rightarrow> f s | Failed \<Rightarrow> g s | Panicked \<Rightarrow> k s)"
  by (cases v) simp_all

lemmas framed_splits = framed_if framed_sum framed_option framed_bool framed_outcome framed_prod

locale frame =
  fixes R :: "'h \<Rightarrow> 'h \<Rightarrow> bool"
  assumes frame_refl [simp]: "R h h"
    and frame_trans: "R h h' \<Longrightarrow> R h' h'' \<Longrightarrow> R h h''"
begin

lemma framed_return: "framed R at (\<lambda>s. (v s, s))"
  by (rule framedI) simp

lemma framed_case:
  assumes "framed R at f" "\<And>v. framed R at (g v)"
  shows "framed R at (\<lambda>s. case f s of (v, s') \<Rightarrow> g v s')"
proof (rule framedI)
  fix s
  obtain v s1 where f: "f s = (v, s1)" by fastforce
  show "R (at s) (at (snd (case f s of (v, s') \<Rightarrow> g v s')))"
    using f frame_trans [OF framedD [OF assms(1) f] framed_snd [OF assms(2)]] by simp
qed

end

locale host_frame = frame R for R :: "'x host \<Rightarrow> 'x host \<Rightarrow> bool" +
  assumes frame_tick: "R h (tick h)"
    and frame_files: "R h (h\<lparr>ho_files := fs\<rparr>)"
    and frame_ext: "R h (h\<lparr>ho_ext := x\<rparr>)"
    and frame_log: "R h (log_effect e h)"
begin

lemma framed_attempt:
  assumes "framed R id f"
  shows "framed R id (attempt f)"
proof (rule framedI)
  fix h
  have "R h (snd (f (tick h)))"
    using frame_trans [OF frame_tick framed_snd [OF assms, of "tick h", simplified]] .
  then show "R (id h) (id (snd (attempt f h)))"
    by (simp add: attempt_def frame_tick split: fate.split)
qed

lemma framed_hbind: "framed R id m \<Longrightarrow> (\<And>v. framed R id (f v)) \<Longrightarrow> framed R id (hbind m f)"
  unfolding hbind_def [abs_def] by (intro framed_case framed_splits framed_return)

lemma framed_hreturn: "framed R id (hreturn v)"
  unfolding hreturn_def [abs_def] by (rule framed_return)

lemma framed_on_failure:
  assumes "framed R id m" "framed R id clean"
  shows "framed R id (on_failure m clean)"
proof -
  have "framed R id (\<lambda>h. (v, snd (clean h)))" for v :: "fs_error + 'b"
    using framed_snd [OF assms(2)] by (intro framedI) simp
  with assms(1) show ?thesis
    unfolding on_failure_def [abs_def] by (intro framed_case framed_splits framed_return)
qed

lemma framed_fs:
  "framed R id (fs_stat p)" "framed R id (fs_read p)" "framed R id (fs_update p g)" "framed R id fs_sync"
  "framed R id (fs_remove p)" "framed R id (fs_rename p q)" "framed R id (fs_create_temp p s t)"
  unfolding fs_stat_def fs_read_def fs_update_def fs_sync_def fs_remove_def fs_rename_def fs_create_temp_def
  by - (rule framed_attempt, rule framedI,
      auto simp: put_file_def frame_files Let_def split: option.split
        intro: frame_trans [OF frame_files frame_files])+

lemma framed_fs_changes: "framed R id (fs_chmod p m)" "framed R id (fs_write p s)" "framed R id (fs_chown p u g)"
  unfolding fs_chmod_def fs_write_def fs_chown_def by (simp_all add: framed_fs)

lemma framed_cancelled: "framed R id cancelled"
  by (rule framedI) (simp add: cancelled_def frame_tick)

lemma frame_snd: "framed R id f \<Longrightarrow> R h (snd (f h))"
  using framed_snd [of R id f h] by simp

lemma framed_discard: "framed R id f \<Longrightarrow> framed R id g \<Longrightarrow> framed R id (\<lambda>h. f (snd (g h)))"
  by (rule framedI) (simp add: frame_trans [OF frame_snd frame_snd])

lemma framed_discardTemp: "framed R id (\<lambda>h. fs_remove p (snd (fs_sync h)))"
  by (rule framed_discard) (rule framed_fs)+

lemmas framed_sequence =
  framed_hbind framed_on_failure framed_hreturn framed_fs framed_fs_changes framed_discardTemp

lemma framed_AtomicWrite: "framed R id (AtomicWrite path data perm)"
  unfolding AtomicWrite_def AtomicWriteOwned_def syncDir_def Let_def
  by (simp, intro framed_sequence)

lemma framed_CopyFile: "framed R id (CopyFile src dst)"
  unfolding CopyFile_def createExclusiveTemp_def discardTemp_def [abs_def]
  by (intro framed_sequence)

lemma framed_CombinedOutput: "framed R id (CombinedOutput pg path args)"
proof (rule framedI)
  fix h
  have "R h (log_effect e ((tick h)\<lparr>ho_ext := x\<rparr>))" for e x
    by (rule frame_trans [OF frame_tick frame_trans [OF frame_ext frame_log]])
  then show "R (id h) (id (snd (CombinedOutput pg path args h)))"
    by (simp add: CombinedOutput_def split: prod.split)
qed

lemma framed_ExecuteLdapWrite: "framed R id (ExecuteLdapWrite pg key val)"
proof (rule framedI)
  fix h
  have "R h ((tick h)\<lparr>ho_ext := x\<rparr>)" for x
    by (rule frame_trans [OF frame_tick frame_ext])
  then show "R (id h) (id (snd (ExecuteLdapWrite pg key val h)))"
    using frame_trans [OF _ frame_log] by (simp add: ExecuteLdapWrite_def Let_def split: prod.split)
qed

lemma framed_RunProxygen: "framed R id (RunProxygenWithConfigs ev s)"
proof (rule framedI)
  fix h
  have "R h ((tick h)\<lparr>ho_files := fs, ho_ext := x\<rparr>)" for fs x
    by (rule frame_trans [OF frame_tick frame_trans [OF frame_files frame_ext]])
  then show "R (id h) (id (snd (RunProxygenWithConfigs ev s h)))"
    by (simp add: RunProxygenWithConfigs_def split: prod.split)
qed

lemmas framed_cases = framed_case framed_if framed_sum framed_option framed_return framed_fs framed_CombinedOutput

lemma framed_ExecutePostconfBatch: "framed R id (ExecutePostconfBatch pg b ops)"
  unfolding ExecutePostconfBatch_def [abs_def] Let_def
  by (intro framed_cases framed_prod)

lemma framed_ExecutePostconfdBatch: "framed R id (ExecutePostconfdBatch pg b keys)"
  unfolding ExecutePostconfdBatch_def [abs_def]
  by (intro framed_cases framed_prod)

lemma framed_handleEmptyMapfileData: "framed R id (handleEmptyMapfileData p)"
  unfolding handleEmptyMapfileData_def [abs_def]
  by (intro framed_cases)

lemma framed_executeMapLocal: "framed R id (executeMapLocal p)"
  unfolding executeMapLocal_def [abs_def]
  by (intro framed_cases)

lemma framed_resolveMAPLOCAL: "framed R id (resolveMAPLOCAL b k)"
  unfolding resolveMAPLOCAL_def [abs_def]
  by (intro framed_cases)

lemma framed_ResolveValue: "framed R id (ResolveValue b t k snap)"
  unfolding ResolveValue_def [abs_def]
  by (intro framed_cases framed_resolveMAPLOCAL)

lemma framed_logged: "framed R id f \<Longrightarrow> framed R id (\<lambda>h. (v h, log_effect e (snd (f h))))"
  by (rule framedI) (simp add: frame_trans [OF frame_snd frame_log])

lemma framed_log: "framed R id (\<lambda>h. (v, log_effect e h))"
  by (rule framedI) (simp add: frame_log)

lemma framed_AtomicWrite_at: "framed R id (\<lambda>h. AtomicWrite path data (mode h) h)"
  by (rule framedI) (simp add: frame_snd [OF framed_AtomicWrite])

lemma framed_executeMapFile: "framed R id (executeMapFile d p)"
  unfolding executeMapFile_def [abs_def] writeMapfile_def [abs_def] Let_def
  by (intro framed_cases framed_AtomicWrite_at framed_handleEmptyMapfileData framed_log)

lemma framed_ExecuteMapfile: "framed R id (ExecuteMapfile b op)"
  unfolding ExecuteMapfile_def [abs_def]
  by (intro framed_cases framed_executeMapLocal framed_executeMapFile)

lemma framed_poll_each: "framed R id (poll_each es)"
proof (induction es)
  case Nil
  then show ?case by (simp add: framed_def)
next
  case (Cons e es)
  show ?case
    by (rule framed_eq [OF poll_each.simps(2)]) (intro framed_cases framed_bool framed_cancelled Cons)
qed

lemma framed_postconf_per_key: "framed R id (postconf_per_key ev ops)"
proof (induction ops)
  case Nil
  then show ?case by (simp add: framed_def)
next
  case (Cons op ops)
  show ?case
    by (rule framed_eq [OF postconf_per_key.simps(2)], unfold ExecutePostconf_def)
      (intro framed_cases framed_ExecutePostconfBatch Cons)
qed

lemma framed_executePostconfOps: "framed R id (executePostconfOps ev ops)"
  unfolding executePostconfOps_def [abs_def]
  by (intro framed_cases framed_outcome framed_ExecutePostconfBatch framed_postconf_per_key)

lemma framed_cleanup: "R h (cleanupRewriteFiles tmp h)"
proof -
  have "framed R id (\<lambda>h. case fs_stat tmp (snd (fs_sync h)) of
      (Inl _, h1) \<Rightarrow> (Inl ErrIO, h1) | (Inr _, h1) \<Rightarrow> fs_remove tmp h1)" (is "framed R id ?f")
    by (intro framed_case framed_sum framed_return framed_fs framed_discard)
  from framed_snd [OF this, of h] show ?thesis
    by (simp add: cleanupRewriteFiles_def split: prod.splits sum.splits)
qed

lemma framed_commit: "framed R id (rewriteAtomicCommit tmp dest mode)"
proof -
  have "framed R id (\<lambda>h. (True, snd (fs_remove tmp h)))"
    by (rule framedI) (simp add: frame_snd [OF framed_fs(5)])
  then show ?thesis
    unfolding rewriteAtomicCommit_def [abs_def]
    by (intro framed_cases framed_fs_changes framed_CopyFile)
qed

end

section \<open>The actions on a run\<close>

text \<open>Of the daemon state an action changes nothing but the file cache.\<close>

definition run_rel :: "('x host \<Rightarrow> 'x host \<Rightarrow> bool) \<Rightarrow> 'x run \<Rightarrow> 'x run \<Rightarrow> bool" where
  "run_rel R r r' \<longleftrightarrow> R (rn_host r) (rn_host r') \<and> only_cache (rn_state r) (rn_state r')"

sublocale host_frame \<subseteq> run: frame "run_rel R"
  by unfold_locales (auto simp: run_rel_def only_cache_refl intro: only_cache_trans frame_trans)

lemma run_transform_cache: "only_cache s (snd (run_transform ev h line s))"
  using manager_lookup.Transform_keeps unfolding run_transform_def keeps_def by blast

lemma lookupFileKey_run_cache:
  "only_cache s (snd (lookupFileKey (run_transform ev h) host cfg key s))"
proof (cases "lh_read host (TemplatePath cfg (''conf/'' @ key))")
  case (Inl e)
  then show ?thesis by (simp add: lookupFileKey_def only_cache_refl split: option.split)
next
  case (Inr content)
  show ?thesis
    by (rule lookupFileKey_cache [OF _ Inr])
      (simp add: run_transform_def [abs_def] manager_lookup.render_lines_keeps)
qed

context host_frame
begin

lemma run_host: "R (rn_host r) h \<Longrightarrow> run_rel R r (r\<lparr>rn_host := h\<rparr>)"
  by (simp add: run_rel_def only_cache_refl)

lemma run_state: "only_cache (rn_state r) s \<Longrightarrow> run_rel R r (r\<lparr>rn_state := s\<rparr>)"
  by (simp add: run_rel_def)

lemma framed_on_host: "framed R id f \<Longrightarrow> framed (run_rel R) id (on_host f)"
  by (rule framedI) (simp add: on_host_def run_host frame_snd split_beta)

lemma framed_on_host_at: "(\<And>s. framed R id (f s)) \<Longrightarrow> framed (run_rel R) id (\<lambda>r. on_host (f (g r)) r)"
  by (rule framedI) (simp add: on_host_def run_host frame_snd split_beta)

lemma framed_at_host: "(\<And>h. R h (f h)) \<Longrightarrow> framed (run_rel R) id (\<lambda>r. (v, r\<lparr>rn_host := f (rn_host r)\<rparr>))"
  by (rule framedI) (simp add: run_host)

lemma framed_resolveValueSpec: "framed (run_rel R) id (resolveValueSpec ev spec)"
proof -
  have file_value: "framed (run_rel R) id
    (\<lambda>r. case lookupFileKey (run_transform ev (rn_host r)) (lookup_host_of ev (rn_host r)) (ev_cfg ev) key
           (rn_state r) of
       (Inl _, s) \<Rightarrow> (None, r\<lparr>rn_state := s\<rparr>) | (Inr v, s) \<Rightarrow> (Some v, r\<lparr>rn_state := s\<rparr>))" for key
  proof (rule framedI)
    fix r :: "'x run"
    from lookupFileKey_run_cache [of "rn_state r" ev "rn_host r" "lookup_host_of ev (rn_host r)" "ev_cfg ev" key]
    show "run_rel R (id r) (id (snd (case lookupFileKey (run_transform ev (rn_host r))
        (lookup_host_of ev (rn_host r)) (ev_cfg ev) key (rn_state r) of
      (Inl _, s) \<Rightarrow> (None, r\<lparr>rn_state := s\<rparr>) | (Inr v, s) \<Rightarrow> (Some v, r\<lparr>rn_state := s\<rparr>))))"
      by (auto simp: run_state split: prod.split sum.split)
  qed
  show ?thesis
    unfolding resolveValueSpec_def [abs_def]
    by (intro framed_prod framed_if run.framed_return file_value framed_on_host_at framed_ResolveValue)
qed

lemmas run_cases =
  run.framed_case framed_if framed_sum framed_option framed_bool run.framed_return framed_prod framed_on_host

lemma framed_collect: "framed (run_rel R) id (\<lambda>r. case collect_postconf ev es ops retry r of (a, b, r') \<Rightarrow> ((a, b), r'))"
proof (induction es arbitrary: ops retry)
  case Nil
  then show ?case by (simp add: framed_def)
next
  case (Cons e es)
  have eq: "(\<lambda>r. case collect_postconf ev (e # es) ops retry r of (a, b, r') \<Rightarrow> ((a, b), r')) =
    (\<lambda>r. case on_host cancelled r of (stop, r1) \<Rightarrow>
       if stop then ((None, retry \<noteq> []), r1)
       else case resolveValueSpec ev (pc_value e) r1 of (x, r2) \<Rightarrow>
         (case x of
            None \<Rightarrow> (\<lambda>r. case collect_postconf ev es ops (retry @ [pc_key e]) r of (a, b, r') \<Rightarrow> ((a, b), r')) r2
          | Some v \<Rightarrow> (\<lambda>r. case collect_postconf ev es
                (ops @ [\<lparr>po_key = pc_key e, po_value = normalizePostconfBool (pc_value e) v\<rparr>]) retry r of
                  (a, b, r') \<Rightarrow> ((a, b), r')) r2))"
    by (rule ext) (auto split: prod.split bool.split option.split)
  show ?case
    unfolding eq by (intro run.framed_case framed_if framed_option run.framed_return framed_on_host framed_cancelled
        framed_resolveValueSpec Cons)
qed

lemma framed_doPostconf: "framed (run_rel R) id (doPostconf ev entries)"
proof -
  have eq: "doPostconf ev entries = (\<lambda>r. if entries = [] then (([], False), r)
    else case (\<lambda>r. case collect_postconf ev entries [] [] r of (a, b, r') \<Rightarrow> ((a, b), r')) r of (x, r1) \<Rightarrow>
      (case x of (y, err) \<Rightarrow>
        (case y of None \<Rightarrow> ((entries, err), r1)
         | Some z \<Rightarrow> (case z of (ops, retry) \<Rightarrow>
             (case on_host (executePostconfOps ev ops) r1 of (failed, r2) \<Rightarrow>
               ((filter (\<lambda>e. pc_key e \<in> set (retry @ failed)) entries, err \<or> failed \<noteq> []), r2))))))"
    unfolding doPostconf_def [abs_def] by (rule ext) (auto split: prod.split option.split)
  show ?thesis
    unfolding eq by (intro run.framed_case framed_if framed_option run.framed_return framed_prod framed_on_host
        framed_collect framed_executePostconfOps)
qed

lemma framed_doPostconfd: "framed (run_rel R) id (doPostconfd ev entries)"
  unfolding doPostconfd_def [abs_def]
  by (intro run_cases framed_outcome framed_poll_each framed_ExecutePostconfdBatch)

lemma framed_doLdap: "framed (run_rel R) id (doLdap ev entries)"
proof (induction entries)
  case Nil
  then show ?case by (simp add: framed_def)
next
  case (Cons e entries)
  show ?case
    by (rule framed_eq [OF doLdap.simps(2)])
      (intro run_cases framed_outcome framed_cancelled framed_resolveValueSpec framed_ExecuteLdapWrite Cons)
qed

lemma framed_syncMapfile: "framed (run_rel R) id (syncMapfile ev m)"
  unfolding syncMapfile_def [abs_def] by (rule framed_on_host_at) (rule framed_ExecuteMapfile)

lemma framed_doMapfile: "framed (run_rel R) id (doMapfile ev entries)"
proof (induction entries)
  case Nil
  then show ?case by (simp add: framed_def)
next
  case (Cons m entries)
  show ?case
    by (rule framed_eq [OF doMapfile.simps(2)])
      (intro run_cases framed_cancelled framed_syncMapfile Cons)
qed

lemma frame_healMapfiles: "run_rel R r (cmHealMapfiles ev entries r)"
  unfolding cmHealMapfiles_def
proof (induction entries arbitrary: r)
  case (Cons m entries)
  from run.frame_trans [OF framed_snd [OF framed_syncMapfile, of r ev m, simplified] Cons.IH] show ?case by simp
qed simp

lemma framed_transform_lines:
  assumes "\<And>s. framed R id (wr s)"
  shows "framed (run_rel R) id (transform_lines ev wr lines)"
proof (induction lines)
  case Nil
  then show ?case by (simp add: framed_def)
next
  case (Cons line lines)
  show ?case
  proof (rule framedI)
    fix r :: "'x run"
    obtain res s where t: "run_transform ev (rn_host r) line (rn_state r) = (res, s)" by fastforce
    have s: "run_rel R r (r\<lparr>rn_state := s\<rparr>)"
      using run_transform_cache [of "rn_state r" ev "rn_host r" line] t by (simp add: run_state)
    have "framed (run_rel R) id (\<lambda>r. case on_host (wr v) r of
        (Inl _, r1) \<Rightarrow> (None, r1)
      | (Inr _, r1) \<Rightarrow> (case transform_lines ev wr lines r1 of
            (None, r2) \<Rightarrow> (None, r2) | (Some out, r2) \<Rightarrow> (Some (v @ out), r2)))" for v
      by (intro run_cases assms Cons)
    from run.frame_trans [OF s framed_snd [OF this, simplified]] s
    show "run_rel R (id r) (id (snd (transform_lines ev wr (line # lines) r)))"
      using t by (cases res) (simp_all add: Let_def)
  qed
qed

lemma framed_rewriteTransform:
  "(\<And>s. framed R id (write s)) \<Longrightarrow> framed (run_rel R) id (rewriteTransform ev src write)"
  unfolding rewriteTransform_def [abs_def]
  by (intro run_cases framed_transform_lines framed_fs)

lemma framed_processRewrite: "framed (run_rel R) id (processRewrite ev e)"
proof -
  have commit: "framed (run_rel R) id
    (\<lambda>r. case rewriteAtomicCommit tmp dest mode (snd (fs_sync (rn_host r))) of
      (ok, h) \<Rightarrow> (ok, r\<lparr>rn_host := if ok then log_effect eff (cleanupRewriteFiles tmp h)
        else cleanupRewriteFiles tmp h\<rparr>))" for tmp dest mode eff
  proof (rule framedI)
    fix r :: "'x run"
    obtain ok h where c: "rewriteAtomicCommit tmp dest mode (snd (fs_sync (rn_host r))) = (ok, h)" by fastforce
    have "R (rn_host r) h"
      using framedD [OF framed_commit c] by (simp add: frame_trans [OF frame_snd [OF framed_fs(4)]])
    then have "R (rn_host r) (cleanupRewriteFiles tmp h)" by (rule frame_trans [OF _ framed_cleanup])
    then show "run_rel R (id r) (id (snd (case rewriteAtomicCommit tmp dest mode (snd (fs_sync (rn_host r))) of
      (ok, h) \<Rightarrow> (ok, r\<lparr>rn_host := if ok then log_effect eff (cleanupRewriteFiles tmp h)
        else cleanupRewriteFiles tmp h\<rparr>))))"
      using c by (simp add: run_host frame_trans [OF _ frame_log])
  qed
  show ?thesis
    unfolding processRewrite_def [abs_def] Let_def
    by (intro run_cases framed_at_host framed_cleanup commit
        framed_rewriteTransform framed_fs framed_fs_changes)
qed

lemma framed_rewrite_loop: "framed (run_rel R) id (rewrite_loop ev entries)"
proof (induction entries)
  case Nil
  then show ?case by (simp add: framed_def)
next
  case (Cons e entries)
  show ?case
    by (rule framed_eq [OF rewrite_loop.simps(2)])
      (intro run_cases framed_cancelled framed_processRewrite Cons)
qed

lemma framed_doRewrites: "framed (run_rel R) id (doRewrites ev entries)"
  unfolding doRewrites_def [abs_def] by (intro run_cases framed_rewrite_loop)

lemma framed_runProxygen: "framed (run_rel R) id (runProxygen ev req)"
  unfolding runProxygen_def [abs_def]
  by (intro run.framed_case framed_option run.framed_return framed_outcome framed_on_host_at framed_RunProxygen
      framed_at_host frame_log)

lemmas framed_steps =
  framed_runProxygen framed_doRewrites framed_doPostconf framed_doPostconfd framed_doLdap framed_doMapfile

end

section \<open>The frames used\<close>

definition log_grows :: "'x host \<Rightarrow> 'x host \<Rightarrow> bool" where
  "log_grows h h' \<longleftrightarrow> prefix (ho_log h) (ho_log h')"

definition same_cancel :: "'x host \<Rightarrow> 'x host \<Rightarrow> bool" where
  "same_cancel h h' \<longleftrightarrow> ho_cancel h' = ho_cancel h"

interpretation growing: host_frame log_grows
  by unfold_locales
    (auto simp: log_grows_def tick_def log_effect_def intro: prefix_order.trans)

interpretation uncancelled: host_frame same_cancel
  by unfold_locales (auto simp: same_cancel_def tick_def log_effect_def)

end
