(* ===== verification/Execute_Correct.thy ===== *)
theory Execute_Correct
  imports Execute_Frame Cycle_Correct
begin

text \<open>
  What the execution of a plan leaves behind: every action either was carried out on the host or is in
  the carry of the next cycle; template rewrites are atomic; mapped files get the configured content.
\<close>

section \<open>Effects\<close>

lemma log_grows_mem: "log_grows h h' \<Longrightarrow> e \<in> set (ho_log h) \<Longrightarrow> e \<in> set (ho_log h')"
  by (auto simp: log_grows_def dest: set_mono_prefix)

lemma CombinedOutput_log:
  "CombinedOutput pg path args h = ((ok, out), h') \<Longrightarrow> Ran ok (path # args) \<in> set (ho_log h')"
  by (auto simp: CombinedOutput_def log_effect_def split: prod.splits)

text \<open>The value of a specification that no file takes part in.\<close>

definition fixed_value :: "SnapshotRef \<Rightarrow> string \<Rightarrow> string option" where
  "fixed_value snap spec =
     (case parseValueSpec spec of (t, k) \<Rightarrow>
       if t = configTypeLITERAL then Some k
       else if t = TypeVar then Some (resolveVAR k snap)
       else if t = TypeLocal then Some (resolveLOCAL k snap)
       else None)"

lemma resolve_fixed:
  assumes "fixed_value (StateSnapshot (rn_state r)) spec = Some v"
  shows "fst (resolveValueSpec ev spec r) = Some v"
proof -
  obtain t k where spec: "parseValueSpec spec = (t, k)" by fastforce
  with assms show ?thesis
    by (simp add: fixed_value_def resolveValueSpec_def on_host_def ResolveValue_def configTypeLITERAL_def
        split: if_splits)
qed

lemma only_cache_snapshot: "only_cache s s' \<Longrightarrow> StateSnapshot s' = StateSnapshot s"
  unfolding only_cache_def StateSnapshot_def by (metis State.select_convs(1) State.surjective State.update_convs(5))

section \<open>postconf\<close>

lemma join_with_set: "set (join_with sep xs) \<subseteq> \<Union> (set ` set xs) \<union> set sep"
  by (induction sep xs rule: join_with.induct) auto

lemma cut_char_parts:
  "cut_char c s = (a, rest) \<Longrightarrow> c \<notin> set a \<and> (\<forall>t. rest = Some t \<longrightarrow> length t < length s)"
proof -
  assume "cut_char c s = (a, rest)"
  moreover have "length (dropWhile (\<lambda>x. x \<noteq> c) s) \<le> length s" by (rule length_dropWhile_le)
  ultimately show ?thesis
    by (auto simp: cut_char_def dest: set_takeWhileD split: list.splits)
qed

lemma splitN_notin: "length s \<le> n \<Longrightarrow> l \<in> set (splitN n c s) \<Longrightarrow> c \<notin> set l"
proof (induction n arbitrary: s l)
  case (Suc n)
  obtain a rest where cut: "cut_char c s = (a, rest)" by fastforce
  show ?case
  proof (cases rest)
    case None
    with Suc.prems cut cut_char_parts [OF cut] show ?thesis by simp
  next
    case (Some t)
    with Suc.prems cut cut_char_parts [OF cut] Suc.IH [of t l] show ?thesis by auto
  qed
qed simp

lemma split_char_notin: "l \<in> set (split_char c s) \<Longrightarrow> c \<notin> set l"
  unfolding split_char_def using splitN_notin by blast

lemma set_trim_space: "x \<in> set (trim_space s) \<Longrightarrow> x \<in> set s"
  by (auto simp: trim_space_def dest!: set_dropWhileD)

lemma normalized_no_newline: "CHR 0x0A \<notin> set (NormalizePostconfValue v)"
proof (cases "CHR 0x0A \<in> set v")
  case True
  let ?ls = "filter (\<lambda>l. l \<noteq> []) (map trim_space (split_char (CHR 0x0A) v))"
  have "CHR 0x0A \<notin> set l" if "l \<in> set ?ls" for l
    using that split_char_notin set_trim_space by fastforce
  then have "CHR 0x0A \<notin> set (join_with '', '' ?ls)"
    using join_with_set [of "'', ''" ?ls] by auto
  with True show ?thesis by (simp add: NormalizePostconfValue_def)
qed (simp add: NormalizePostconfValue_def)

lemma normalize_idem [simp]: "NormalizePostconfValue (NormalizePostconfValue v) = NormalizePostconfValue v"
  using normalized_no_newline [of v] by (simp add: NormalizePostconfValue_def)

lemma postconf_arg_normalized [simp]: "postconf_arg (normalized_op op) = postconf_arg op"
  by (simp add: postconf_arg_def normalized_op_def)

definition was_set :: "string \<Rightarrow> string \<Rightarrow> 'x host \<Rightarrow> bool" where
  "was_set baseDir arg h \<longleftrightarrow>
     (\<exists>args. Ran True (postconfPath baseDir # ''-e'' # args) \<in> set (ho_log h) \<and> arg \<in> set args)"

lemma was_set_grows: "log_grows h h' \<Longrightarrow> was_set b arg h \<Longrightarrow> was_set b arg h'"
  unfolding was_set_def using log_grows_mem by blast

lemma batch_sets:
  assumes "ExecutePostconfBatch pg b ops h = (Succeeded, h')" "op \<in> set ops" "postconfKeyRe (po_key op)"
  shows "was_set b (postconf_arg op) h'"
proof -
  let ?args = "map postconf_arg (filter (\<lambda>op. postconfKeyRe (po_key op)) ops)"
  from assms(2,3) have arg: "postconf_arg op \<in> set ?args" by auto
  then have "ops \<noteq> []" "?args \<noteq> []" by (metis assms(2) empty_iff empty_set, metis empty_iff empty_set)
  with assms(1) obtain out where "CombinedOutput pg (postconfPath b) (''-e'' # ?args) h = ((True, out), h')"
    by (auto simp: ExecutePostconfBatch_def Let_def split: prod.splits if_splits)
  from CombinedOutput_log [OF this] arg show ?thesis unfolding was_set_def by blast
qed

lemma per_key_sets:
  assumes "postconf_per_key ev ops h = (failed, h')" "op \<in> set ops" "postconfKeyRe (po_key op)"
  shows "po_key op \<in> set failed \<or> was_set (cfg_BaseDir (ev_cfg ev)) (postconf_arg op) h'"
  using assms
proof (induction ops arbitrary: h failed)
  case (Cons op' ops)
  obtain res h1 where one: "ExecutePostconf (ev_pg ev) (cfg_BaseDir (ev_cfg ev)) op' h = (res, h1)" by fastforce
  obtain rest h2 where more: "postconf_per_key ev ops h1 = (rest, h2)" by fastforce
  from Cons.prems(1) one more have f: "failed = (if res = Succeeded then rest else po_key op' # rest)" "h' = h2"
    by (auto split: if_splits)
  show ?case
  proof (cases "op \<in> set ops")
    case True
    from Cons.IH [OF more [folded f(2)] this Cons.prems(3)] f show ?thesis by auto
  next
    case False
    with Cons.prems(2) have "op = op'" by simp
    moreover have "was_set (cfg_BaseDir (ev_cfg ev)) (postconf_arg op') h'" if "res = Succeeded" "op = op'"
    proof (rule was_set_grows)
      show "log_grows h1 h'" using framedD [OF growing.framed_postconf_per_key more] f(2) by simp
      show "was_set (cfg_BaseDir (ev_cfg ev)) (postconf_arg op') h1"
        using one that Cons.prems(3) by (intro batch_sets [of "ev_pg ev" _ "[op']" h]) (auto simp: ExecutePostconf_def)
    qed
    ultimately show ?thesis using f by auto
  qed
qed simp

lemma executePostconfOps_sets:
  assumes "executePostconfOps ev ops h = (failed, h')" "op \<in> set ops" "postconfKeyRe (po_key op)"
  shows "po_key op \<in> set failed \<or> was_set (cfg_BaseDir (ev_cfg ev)) (postconf_arg op) h'"
proof -
  from assms(2) have "ops \<noteq> []" by auto
  obtain res h1 where batch: "ExecutePostconfBatch (ev_pg ev) (cfg_BaseDir (ev_cfg ev)) ops h = (res, h1)"
    by fastforce
  show ?thesis
  proof (cases "res = Succeeded")
    case True
    with batch assms \<open>ops \<noteq> []\<close> show ?thesis by (auto simp: executePostconfOps_def intro: batch_sets)
  next
    case False
    with batch assms(1) \<open>ops \<noteq> []\<close> have "postconf_per_key ev (map normalized_op ops) h1 = (failed, h')"
      by (cases res) (simp_all add: executePostconfOps_def)
    from per_key_sets [OF this, of "normalized_op op"] assms(2,3)
    show ?thesis by (simp add: normalized_op_def [of op, THEN arg_cong, of po_key])
  qed
qed

text \<open>An operation stands for an entry: its key, and the value of the entry in the snapshot.\<close>

definition op_of :: "SnapshotRef \<Rightarrow> Postconf \<Rightarrow> PostconfOperation \<Rightarrow> bool" where
  "op_of snap e op \<longleftrightarrow>
     po_key op = pc_key e \<and>
     (\<exists>val. po_value op = normalizePostconfBool (pc_value e) val \<and>
       (\<forall>v. fixed_value snap (pc_value e) = Some v \<longrightarrow> val = v))"

lemma collect_postconf_collects:
  assumes "collect_postconf ev es ops retry r = (Some (ops', retry'), err, r')"
    "StateSnapshot (rn_state r) = snap"
  shows "set ops \<subseteq> set ops' \<and> set retry \<subseteq> set retry' \<and> err = (retry' \<noteq> []) \<and>
    (\<forall>e \<in> set es. pc_key e \<in> set retry' \<or> (\<exists>op \<in> set ops'. op_of snap e op))"
  using assms
proof (induction es arbitrary: ops retry r)
  case (Cons e es)
  obtain stop r1 where poll: "on_host cancelled r = (stop, r1)" by fastforce
  obtain x r2 where res: "resolveValueSpec ev (pc_value e) r1 = (x, r2)" by fastforce
  have s1: "StateSnapshot (rn_state r1) = snap"
    using poll Cons.prems(2) by (auto simp: on_host_def split: prod.splits)
  have "only_cache (rn_state r1) (rn_state r2)"
    using framedD [OF growing.framed_resolveValueSpec res] by (simp add: run_rel_def)
  then have s2: "StateSnapshot (rn_state r2) = snap" using s1 only_cache_snapshot by metis
  have stop: "\<not> stop" using Cons.prems(1) poll by (auto split: bool.splits)
  show ?case
  proof (cases x)
    case None
    with Cons.prems(1) poll stop res
    have "collect_postconf ev es ops (retry @ [pc_key e]) r2 = (Some (ops', retry'), err, r')" by simp
    from Cons.IH [OF this s2] show ?thesis by auto
  next
    case (Some v)
    let ?op = "\<lparr>po_key = pc_key e, po_value = normalizePostconfBool (pc_value e) v\<rparr>"
    have "v = w" if "fixed_value snap (pc_value e) = Some w" for w
      using resolve_fixed [of r1 "pc_value e" w ev] s1 res Some that by simp
    then have "op_of snap e ?op" by (auto simp: op_of_def)
    moreover from Cons.prems(1) poll stop res Some
    have "collect_postconf ev es (ops @ [?op]) retry r2 = (Some (ops', retry'), err, r')" by simp
    note Cons.IH [OF this s2]
    ultimately show ?thesis by auto
  qed
qed simp

text \<open>A setting of the plan was made: postconf ran with its key and value.\<close>

definition postconf_done :: "string \<Rightarrow> SnapshotRef \<Rightarrow> Postconf \<Rightarrow> 'x host \<Rightarrow> bool" where
  "postconf_done baseDir snap e h \<longleftrightarrow>
     (\<exists>val. was_set baseDir
         (pc_key e @ ''='' @ NormalizePostconfValue (normalizePostconfBool (pc_value e) val)) h \<and>
       (\<forall>v. fixed_value snap (pc_value e) = Some v \<longrightarrow> val = v))"

lemma op_of_done:
  "op_of snap e op \<Longrightarrow> was_set b (postconf_arg op) h \<Longrightarrow> postconf_done b snap e h"
  by (auto simp: op_of_def postconf_done_def postconf_arg_def)

lemma collect_uncancelled:
  assumes "\<And>n. \<not> ho_cancel (rn_host r) n"
  shows "fst (collect_postconf ev es ops retry r) \<noteq> None"
  using assms
proof (induction es arbitrary: ops retry r)
  case (Cons e es)
  obtain stop r1 where poll: "on_host cancelled r = (stop, r1)" by fastforce
  obtain x r2 where res: "resolveValueSpec ev (pc_value e) r1 = (x, r2)" by fastforce
  have "ho_cancel (rn_host r1) = ho_cancel (rn_host r)" "\<not> stop"
    using poll Cons.prems by (auto simp: on_host_def cancelled_def tick_def)
  moreover have "ho_cancel (rn_host r2) = ho_cancel (rn_host r1)"
    using framedD [OF uncancelled.framed_resolveValueSpec res] by (simp add: run_rel_def same_cancel_def)
  ultimately show ?case using Cons.IH [of r2] Cons.prems poll res by (simp split: option.split)
qed simp

lemma doPostconf_settles:
  assumes "doPostconf ev es r = ((pending, err), r')"
  shows "set pending \<subseteq> set es \<and>
    (\<forall>e \<in> set es. postconfKeyRe (pc_key e) \<longrightarrow>
      e \<in> set pending \<or> postconf_done (cfg_BaseDir (ev_cfg ev)) (StateSnapshot (rn_state r)) e (rn_host r')) \<and>
    ((\<forall>n. \<not> ho_cancel (rn_host r) n) \<longrightarrow> \<not> err \<longrightarrow> pending = [])"
proof -
  obtain x cerr r1 where coll: "collect_postconf ev es [] [] r = (x, cerr, r1)" by (metis prod_cases3)
  show ?thesis
  proof (cases "es = []"; cases x)
    assume "es \<noteq> []" "x = None"
    with assms coll have "pending = es" by (simp add: doPostconf_def)
    moreover have "\<exists>n. ho_cancel (rn_host r) n"
      using collect_uncancelled [of r ev es "[]" "[]"] coll \<open>x = None\<close> by auto
    ultimately show ?thesis by auto
  next
    fix y
    assume False: "es \<noteq> []" and "x = Some y"
    then obtain ops retry where x: "x = Some (ops, retry)" by (cases y) auto
    obtain failed h where exec: "executePostconfOps ev ops (rn_host r1) = (failed, h)" by fastforce
    from assms coll x exec False
    have p: "pending = filter (\<lambda>e. pc_key e \<in> set (retry @ failed)) es" "err = (cerr \<or> failed \<noteq> [])"
      "rn_host r' = h" by (auto simp: doPostconf_def on_host_def)
    note c = collect_postconf_collects [OF coll [unfolded x] refl]
    have "e \<in> set pending \<or> postconf_done (cfg_BaseDir (ev_cfg ev)) (StateSnapshot (rn_state r)) e h"
      if "e \<in> set es" "postconfKeyRe (pc_key e)" for e
    proof (cases "pc_key e \<in> set retry")
      case False
      with c that obtain op where op: "op \<in> set ops" "op_of (StateSnapshot (rn_state r)) e op" by blast
      then have "po_key op = pc_key e" by (simp add: op_of_def)
      with executePostconfOps_sets [OF exec op(1)] that p(1) op_of_done [OF op(2)] show ?thesis by auto
    qed (use that p(1) in simp)
    with p c show ?thesis by auto
  qed (use assms in \<open>simp_all add: doPostconf_def\<close>)
qed

section \<open>The other steps\<close>

lemma poll_uncancelled: "(\<And>n. \<not> ho_cancel h n) \<Longrightarrow> \<not> fst (poll_each es h)"
  by (induction es arbitrary: h) (simp_all add: cancelled_def tick_def)

definition postconfd_done :: "string \<Rightarrow> Postconfd \<Rightarrow> 'x host \<Rightarrow> bool" where
  "postconfd_done baseDir e h \<longleftrightarrow>
     (\<exists>ok args. Ran ok (postconfPath baseDir # ''-X'' # args) \<in> set (ho_log h) \<and> pd_key e \<in> set args)"

lemma doPostconfd_settles:
  assumes "doPostconfd ev es r = ((pending, err), r')"
  shows "set pending \<subseteq> set es \<and>
    (\<forall>e \<in> set es. e \<in> set pending \<or> postconfd_done (cfg_BaseDir (ev_cfg ev)) e (rn_host r')) \<and>
    ((\<forall>n. \<not> ho_cancel (rn_host r) n) \<longrightarrow> \<not> err \<longrightarrow> pending = [])"
proof -
  let ?run = "ExecutePostconfdBatch (ev_pg ev) (cfg_BaseDir (ev_cfg ev)) (map pd_key es)"
  obtain stop r1 where poll: "on_host (poll_each es) r = (stop, r1)" by fastforce
  obtain res r2 where batch: "on_host ?run r1 = (res, r2)" by fastforce
  show ?thesis
  proof (cases "es = []"; cases stop)
    assume "es \<noteq> []" stop
    moreover have "\<exists>n. ho_cancel (rn_host r) n"
      using poll \<open>stop\<close> poll_uncancelled [of "rn_host r" es]
      by (auto simp: on_host_def split_beta)
    ultimately show ?thesis using assms poll by (simp add: doPostconfd_def)
  next
    assume es: "es \<noteq> []" and go: "\<not> stop"
    then obtain ok out h2 where
      ran: "CombinedOutput (ev_pg ev) (postconfPath (cfg_BaseDir (ev_cfg ev))) (''-X'' # map pd_key es) (rn_host r1)
        = ((ok, out), h2)" by (metis prod.collapse)
    with batch es have "rn_host r2 = h2" by (auto simp: on_host_def ExecutePostconfdBatch_def)
    with CombinedOutput_log [OF ran]
    have "postconfd_done (cfg_BaseDir (ev_cfg ev)) e (rn_host r2)" if "e \<in> set es" for e
      using that unfolding postconfd_done_def by force
    with assms poll batch es go show ?thesis by (cases res) (auto simp: doPostconfd_def)
  qed (use assms in \<open>simp_all add: doPostconfd_def\<close>)
qed

text \<open>An attribute was written with the value of the entry.\<close>

definition ldap_done :: "SnapshotRef \<Rightarrow> Ldap \<Rightarrow> 'x host \<Rightarrow> bool" where
  "ldap_done snap e h \<longleftrightarrow>
     (\<exists>val. Modified (ld_key e) val \<in> set (ho_log h) \<and> (\<forall>v. fixed_value snap (ld_value e) = Some v \<longrightarrow> val = v))"

lemma ldap_done_grows: "log_grows h h' \<Longrightarrow> ldap_done snap e h \<Longrightarrow> ldap_done snap e h'"
  unfolding ldap_done_def using log_grows_mem by blast

definition no_panics :: "'x exec_env \<Rightarrow> bool" where
  "no_panics ev \<longleftrightarrow>
     (\<forall>k v x. fst (pr_modify (ev_pg ev) k v x) \<noteq> Panicked) \<and> (\<forall>s fx. fst (ev_proxygen ev s fx) \<noteq> Panicked)"

lemma ExecuteLdapWrite_result:
  "ExecuteLdapWrite pg key val h = (res, h') \<Longrightarrow>
    res = fst (pr_modify pg key val (ho_ext h)) \<and> (res = Succeeded \<longrightarrow> Modified key val \<in> set (ho_log h'))"
  by (auto simp: ExecuteLdapWrite_def Let_def log_effect_def split: prod.splits if_splits)

lemma doLdap_settles:
  assumes "no_panics ev" "StateSnapshot (rn_state r) = snap"
  shows "\<exists>pending err r'. doLdap ev es r = (Some (pending, err), r') \<and> set pending \<subseteq> set es \<and>
    (\<forall>e \<in> set es. e \<in> set pending \<or> ldap_done snap e (rn_host r')) \<and>
    ((\<forall>n. \<not> ho_cancel (rn_host r) n) \<longrightarrow> \<not> err \<longrightarrow> pending = [])"
  using assms(2)
proof (induction es arbitrary: r)
  case (Cons e es)
  obtain stop r1 where poll: "on_host cancelled r = (stop, r1)" by fastforce
  have r1: "rn_state r1 = rn_state r" "ho_cancel (rn_host r1) = ho_cancel (rn_host r)"
    "stop \<Longrightarrow> \<exists>n. ho_cancel (rn_host r) n"
    using poll by (auto simp: on_host_def cancelled_def tick_def)
  obtain x r2 where res: "resolveValueSpec ev (ld_value e) r1 = (x, r2)" by fastforce
  have r2: "StateSnapshot (rn_state r2) = snap" "ho_cancel (rn_host r2) = ho_cancel (rn_host r)"
    using framedD [OF uncancelled.framed_resolveValueSpec res] r1 Cons.prems
      only_cache_snapshot [of "rn_state r1" "rn_state r2"] by (simp_all add: run_rel_def same_cancel_def)
  show ?case
  proof (cases stop)
    case True
    with poll r1(3) show ?thesis by auto
  next
    case go: False
    show ?thesis
    proof (cases x)
      case None
      from Cons.IH [OF r2(1)] obtain pending err r' where
        ih: "doLdap ev es r2 = (Some (pending, err), r')" "set pending \<subseteq> set es"
          "\<forall>e \<in> set es. e \<in> set pending \<or> ldap_done snap e (rn_host r')" by blast
      with None poll go res show ?thesis by auto
    next
      case (Some v)
      obtain out r3 where wr: "on_host (ExecuteLdapWrite (ev_pg ev) (ld_key e) v) r2 = (out, r3)" by fastforce
      then obtain h3 where h3: "ExecuteLdapWrite (ev_pg ev) (ld_key e) v (rn_host r2) = (out, h3)"
        "r3 = r2\<lparr>rn_host := h3\<rparr>" by (auto simp: on_host_def split: prod.splits)
      have r3: "StateSnapshot (rn_state r3) = snap" "ho_cancel (rn_host r3) = ho_cancel (rn_host r)"
        using r2 h3 framedD [OF uncancelled.framed_ExecuteLdapWrite h3(1)] by (simp_all add: same_cancel_def)
      from Cons.IH [OF r3(1)] obtain pending err r' where
        ih: "doLdap ev es r3 = (Some (pending, err), r')" "set pending \<subseteq> set es"
          "\<forall>e \<in> set es. e \<in> set pending \<or> ldap_done snap e (rn_host r')"
          "(\<forall>n. \<not> ho_cancel (rn_host r3) n) \<longrightarrow> \<not> err \<longrightarrow> pending = []" by blast
      have "out \<noteq> Panicked"
        using ExecuteLdapWrite_result [OF h3(1)] assms(1) by (simp add: no_panics_def)
      have "v = w" if "fixed_value snap (ld_value e) = Some w" for w
        using resolve_fixed [of r1 "ld_value e" w ev] r1(1) Cons.prems res Some that by simp
      moreover have "log_grows (rn_host r3) (rn_host r')"
        using framedD [OF growing.framed_doLdap ih(1)] by (simp add: run_rel_def)
      ultimately have written: "ldap_done snap e (rn_host r')" if "out = Succeeded"
        using ExecuteLdapWrite_result [OF h3(1)] that h3(2) ldap_done_grows unfolding ldap_done_def by fastforce
      show ?thesis
        using Some poll go res wr ih written r3(2) \<open>out \<noteq> Panicked\<close> by (cases out) auto
    qed
  qed
qed (simp, blast)

definition rewrite_done :: "Config \<Rightarrow> Rewrite \<Rightarrow> 'x host \<Rightarrow> bool" where
  "rewrite_done cfg e h \<longleftrightarrow> Placed (rw_source e) (dest_path cfg (rw_target e)) \<in> set (ho_log h)"

lemma processRewrite_placed:
  assumes "processRewrite ev e r = (True, r')"
  shows "rewrite_done (ev_cfg ev) e (rn_host r')"
  using assms
  by (auto simp: processRewrite_def rewrite_done_def Let_def log_effect_def split: prod.splits sum.splits option.splits)

lemma rewrite_loop_settles:
  assumes "rewrite_loop ev es r = ((finished, err), r')"
  shows "(\<forall>src \<in> set finished. \<exists>e \<in> set es. rw_source e = src \<and> rewrite_done (ev_cfg ev) e (rn_host r')) \<and>
    ((\<forall>n. \<not> ho_cancel (rn_host r) n) \<longrightarrow> \<not> err \<longrightarrow> (\<forall>e \<in> set es. rw_source e \<in> set finished))"
  using assms
proof (induction es arbitrary: r finished err)
  case (Cons e es)
  obtain stop r1 where poll: "on_host cancelled r = (stop, r1)" by fastforce
  have r1: "ho_cancel (rn_host r1) = ho_cancel (rn_host r)" "stop \<Longrightarrow> \<exists>n. ho_cancel (rn_host r) n"
    using poll by (auto simp: on_host_def cancelled_def tick_def)
  obtain ok r2 where one: "processRewrite ev e r1 = (ok, r2)" by fastforce
  have r2: "ho_cancel (rn_host r2) = ho_cancel (rn_host r1)"
    using framedD [OF uncancelled.framed_processRewrite one] by (simp add: run_rel_def same_cancel_def)
  show ?case
  proof (cases stop)
    case True
    with Cons.prems poll r1(2) show ?thesis by auto
  next
    case False
    obtain f2 e2 r3 where more: "rewrite_loop ev es r2 = ((f2, e2), r3)" by (metis prod_cases3 prod.collapse)
    with Cons.prems poll one False have f: "finished = (if ok then rw_source e # f2 else f2)" "err = (\<not> ok \<or> e2)" "r' = r3"
      by auto
    have "rewrite_done (ev_cfg ev) e (rn_host r3)" if ok
      using processRewrite_placed [of ev e r1 r2] one that log_grows_mem
        framedD [OF growing.framed_rewrite_loop more] unfolding run_rel_def rewrite_done_def by auto
    with Cons.IH [OF more [folded f(3)]] f r1 r2 show ?thesis by auto
  qed
qed simp

lemma doRewrites_settles:
  assumes "doRewrites ev es r = ((pending, err), r')" "distinct (map rw_source es)"
  shows "set pending \<subseteq> set es \<and>
    (\<forall>e \<in> set es. e \<in> set pending \<or> rewrite_done (ev_cfg ev) e (rn_host r')) \<and>
    ((\<forall>n. \<not> ho_cancel (rn_host r) n) \<longrightarrow> \<not> err \<longrightarrow> pending = [])"
proof (cases "es = []")
  case False
  obtain finished lerr r1 where loop: "rewrite_loop ev es r = ((finished, lerr), r1)" by (metis prod_cases3 prod.collapse)
  with assms(1) False have p: "pending = filter (\<lambda>e. rw_source e \<notin> set finished) es" "err = lerr" "r' = r1"
    by (auto simp: doRewrites_def)
  have "rewrite_done (ev_cfg ev) e (rn_host r')" if e: "e \<in> set es" "rw_source e \<in> set finished" for e
  proof -
    from rewrite_loop_settles [OF loop] e(2) obtain e' where
      "e' \<in> set es" "rw_source e' = rw_source e" "rewrite_done (ev_cfg ev) e' (rn_host r1)" by blast
    with assms(2) e(1) p(3) show ?thesis by (metis distinct_map inj_on_eq_iff)
  qed
  with rewrite_loop_settles [OF loop] p show ?thesis by (auto simp: filter_empty_conv)
qed (use assms in \<open>simp add: doRewrites_def\<close>)

lemma runProxygen_settles:
  assumes "no_panics ev"
  shows "\<exists>pending err r'. runProxygen ev req r = (Some (pending, err), r') \<and>
    (req = None \<and> pending = None \<or> pending = req \<and> err \<or> pending = None \<and> Generated \<in> set (ho_log (rn_host r')))"
proof (cases req)
  case (Some q)
  obtain res r1 where run: "on_host (RunProxygenWithConfigs ev (rn_state r)) r = (res, r1)" by fastforce
  then have "res \<noteq> Panicked"
    using assms by (auto simp: on_host_def RunProxygenWithConfigs_def no_panics_def split: prod.splits)
      (metis fst_conv)
  with run Some show ?thesis by (cases res) (auto simp: runProxygen_def log_effect_def)
qed (simp add: runProxygen_def, blast)

section \<open>All of it\<close>

fun step_settled ::
    "'x exec_env \<Rightarrow> Plan \<Rightarrow> SnapshotRef \<Rightarrow> step \<Rightarrow> Carry \<Rightarrow> bool \<Rightarrow> 'x host \<Rightarrow> bool" where
  "step_settled ev pl snap StepRewrites c quiet h =
     (set (c_Rewrites c) \<subseteq> set (pl_Rewrites pl) \<and> (quiet \<longrightarrow> c_Rewrites c = []) \<and>
      (\<forall>e \<in> set (pl_Rewrites pl). e \<in> set (c_Rewrites c) \<or> rewrite_done (ev_cfg ev) e h))"
| "step_settled ev pl snap StepPostconf c quiet h =
     (set (c_Postconf c) \<subseteq> set (pl_Postconf pl) \<and> (quiet \<longrightarrow> c_Postconf c = []) \<and>
      (\<forall>e \<in> set (pl_Postconf pl). postconfKeyRe (pc_key e) \<longrightarrow>
         e \<in> set (c_Postconf c) \<or> postconf_done (cfg_BaseDir (ev_cfg ev)) snap e h))"
| "step_settled ev pl snap StepPostconfd c quiet h =
     (set (c_Postconfd c) \<subseteq> set (pl_Postconfd pl) \<and> (quiet \<longrightarrow> c_Postconfd c = []) \<and>
      (\<forall>e \<in> set (pl_Postconfd pl). e \<in> set (c_Postconfd c) \<or> postconfd_done (cfg_BaseDir (ev_cfg ev)) e h))"
| "step_settled ev pl snap StepLdap c quiet h =
     (set (c_Ldap c) \<subseteq> set (pl_Ldap pl) \<and> (quiet \<longrightarrow> c_Ldap c = []) \<and>
      (\<forall>e \<in> set (pl_Ldap pl). e \<in> set (c_Ldap c) \<or> ldap_done snap e h))"
| "step_settled ev pl snap StepProxygen c quiet h =
     ((c_Proxygen c = None \<or> c_Proxygen c = pl_Proxygen pl) \<and> (quiet \<longrightarrow> c_Proxygen c = None) \<and>
      (pl_Proxygen pl = None \<or> c_Proxygen c = pl_Proxygen pl \<or> Generated \<in> set (ho_log h)))"

lemma runStep_settles:
  assumes "no_panics ev" "distinct (map rw_source (pl_Rewrites pl))"
    and "runStep ev pl st (c, err, r) = (c', err', r')"
  shows "step_settled ev pl (StateSnapshot (rn_state r)) st c'
    ((\<forall>n. \<not> ho_cancel (rn_host r) n) \<and> \<not> err') (rn_host r')"
proof (cases st)
  case StepProxygen
  from runProxygen_settles [OF assms(1), of "pl_Proxygen pl" r] obtain pending e r1 where
    p: "runProxygen ev (pl_Proxygen pl) r = (Some (pending, e), r1)"
      "pl_Proxygen pl = None \<and> pending = None \<or> pending = pl_Proxygen pl \<and> e \<or>
       pending = None \<and> Generated \<in> set (ho_log (rn_host r1))" by blast
  with assms(3) StepProxygen show ?thesis by (auto simp: runStep_def)
next
  case StepRewrites
  obtain p e r1 where x: "doRewrites ev (pl_Rewrites pl) r = ((p, e), r1)" by (metis prod_cases3 prod.collapse)
  from doRewrites_settles [OF x assms(2)] assms(3) x StepRewrites show ?thesis by (auto simp: runStep_def)
next
  case StepPostconf
  obtain p e r1 where x: "doPostconf ev (pl_Postconf pl) r = ((p, e), r1)" by (metis prod_cases3 prod.collapse)
  from doPostconf_settles [OF x] assms(3) x StepPostconf show ?thesis by (auto simp: runStep_def)
next
  case StepPostconfd
  obtain p e r1 where x: "doPostconfd ev (pl_Postconfd pl) r = ((p, e), r1)" by (metis prod_cases3 prod.collapse)
  from doPostconfd_settles [OF x] assms(3) x StepPostconfd show ?thesis by (auto simp: runStep_def)
next
  case StepLdap
  from doLdap_settles [of ev r "StateSnapshot (rn_state r)" "pl_Ldap pl", OF assms(1) refl] obtain p e r1 where
    x: "doLdap ev (pl_Ldap pl) r = (Some (p, e), r1)" "set p \<subseteq> set (pl_Ldap pl)"
      "\<forall>e \<in> set (pl_Ldap pl). e \<in> set p \<or> ldap_done (StateSnapshot (rn_state r)) e (rn_host r1)"
      "(\<forall>n. \<not> ho_cancel (rn_host r) n) \<longrightarrow> \<not> e \<longrightarrow> p = []" by blast
  with assms(3) StepLdap show ?thesis by (auto simp: runStep_def)
qed

lemma runStep_frame:
  assumes "runStep ev pl st (c, err, r) = (c', err', r')"
  shows "run_rel log_grows r r' \<and> run_rel same_cancel r r' \<and> (err \<longrightarrow> err')"
proof (cases st)
  case StepProxygen
  with assms show ?thesis
    using framed_snd [OF growing.framed_runProxygen, of r ev "pl_Proxygen pl"]
      framed_snd [OF uncancelled.framed_runProxygen, of r ev "pl_Proxygen pl"]
    by (auto simp: runStep_def split: prod.splits option.splits)
next
  case StepRewrites
  with assms show ?thesis
    using framed_snd [OF growing.framed_doRewrites, of r ev "pl_Rewrites pl"]
      framed_snd [OF uncancelled.framed_doRewrites, of r ev "pl_Rewrites pl"]
    by (auto simp: runStep_def split: prod.splits)
next
  case StepPostconf
  with assms show ?thesis
    using framed_snd [OF growing.framed_doPostconf, of r ev "pl_Postconf pl"]
      framed_snd [OF uncancelled.framed_doPostconf, of r ev "pl_Postconf pl"]
    by (auto simp: runStep_def split: prod.splits)
next
  case StepPostconfd
  with assms show ?thesis
    using framed_snd [OF growing.framed_doPostconfd, of r ev "pl_Postconfd pl"]
      framed_snd [OF uncancelled.framed_doPostconfd, of r ev "pl_Postconfd pl"]
    by (auto simp: runStep_def split: prod.splits)
next
  case StepLdap
  with assms show ?thesis
    using framed_snd [OF growing.framed_doLdap, of r ev "pl_Ldap pl"]
      framed_snd [OF uncancelled.framed_doLdap, of r ev "pl_Ldap pl"]
    by (auto simp: runStep_def split: prod.splits option.splits)
qed

lemma postconf_done_grows: "log_grows h h' \<Longrightarrow> postconf_done b snap e h \<Longrightarrow> postconf_done b snap e h'"
  unfolding postconf_done_def using was_set_grows by blast

lemma postconfd_done_grows: "log_grows h h' \<Longrightarrow> postconfd_done b e h \<Longrightarrow> postconfd_done b e h'"
  unfolding postconfd_done_def using log_grows_mem by blast

lemma rewrite_done_grows: "log_grows h h' \<Longrightarrow> rewrite_done cfg e h \<Longrightarrow> rewrite_done cfg e h'"
  unfolding rewrite_done_def by (rule log_grows_mem)

lemma step_settled_grows:
  assumes "step_settled ev pl snap st c quiet h" "log_grows h h'" "quiet' \<Longrightarrow> quiet"
  shows "step_settled ev pl snap st c quiet' h'"
  using assms postconf_done_grows [OF assms(2)] postconfd_done_grows [OF assms(2)]
    rewrite_done_grows [OF assms(2)] ldap_done_grows [OF assms(2)] log_grows_mem [OF assms(2)]
  by (cases st) (simp_all; blast)+

lemma runStep_fields:
  assumes "runStep ev pl st (c, err, r) = (c', err', r')"
  shows "st \<noteq> StepRewrites \<Longrightarrow> c_Rewrites c' = c_Rewrites c"
    "st \<noteq> StepPostconf \<Longrightarrow> c_Postconf c' = c_Postconf c"
    "st \<noteq> StepPostconfd \<Longrightarrow> c_Postconfd c' = c_Postconfd c"
    "st \<noteq> StepLdap \<Longrightarrow> c_Ldap c' = c_Ldap c"
    "st \<noteq> StepProxygen \<Longrightarrow> c_Proxygen c' = c_Proxygen c"
  using assms by (cases st; auto simp: runStep_def split: prod.splits option.splits)+

lemma runStep_other:
  assumes "runStep ev pl st' (c, err, r) = (c', err', r')" "st \<noteq> st'" "step_settled ev pl snap st c quiet h"
  shows "step_settled ev pl snap st c' quiet h"
  using assms(2,3) runStep_fields [OF assms(1)] by (cases st) simp_all

lemma steps_settle:
  assumes "no_panics ev" "distinct (map rw_source (pl_Rewrites pl))" "distinct order"
    and "fold (runStep ev pl) order (c, err, r) = (c', err', r')"
  shows "run_rel log_grows r r' \<and> run_rel same_cancel r r' \<and> (err \<longrightarrow> err') \<and>
    (\<forall>st \<in> set order. step_settled ev pl (StateSnapshot (rn_state r)) st c'
      ((\<forall>n. \<not> ho_cancel (rn_host r) n) \<and> \<not> err') (rn_host r'))"
  using assms(3,4)
proof (induction order arbitrary: c' err' r' rule: rev_induct)
  case Nil
  then show ?case by simp
next
  case (snoc st order)
  obtain c1 err1 r1 where first: "fold (runStep ev pl) order (c, err, r) = (c1, err1, r1)" by (metis prod_cases3)
  with snoc.prems have last: "runStep ev pl st (c1, err1, r1) = (c', err', r')" by simp
  have dist: "distinct order" "st \<notin> set order" using snoc.prems(1) by auto
  note ih = snoc.IH [OF dist(1) first]
  note fr = runStep_frame [OF last]
  have r1: "run_rel log_grows r r1" "run_rel same_cancel r r1" using ih by blast+
  have snap: "StateSnapshot (rn_state r1) = StateSnapshot (rn_state r)"
    "ho_cancel (rn_host r1) = ho_cancel (rn_host r)"
    using r1 only_cache_snapshot [of "rn_state r" "rn_state r1"] by (simp_all add: run_rel_def same_cancel_def)
  have "step_settled ev pl (StateSnapshot (rn_state r)) st' c'
      ((\<forall>n. \<not> ho_cancel (rn_host r) n) \<and> \<not> err') (rn_host r')" if st': "st' \<in> set order" for st'
  proof (rule step_settled_grows)
    have "step_settled ev pl (StateSnapshot (rn_state r)) st' c1
      ((\<forall>n. \<not> ho_cancel (rn_host r) n) \<and> \<not> err1) (rn_host r1)" using ih st' by blast
    then show "step_settled ev pl (StateSnapshot (rn_state r)) st' c'
      ((\<forall>n. \<not> ho_cancel (rn_host r) n) \<and> \<not> err1) (rn_host r1)"
      by (rule runStep_other [OF last, rotated]) (use st' dist(2) in auto)
    show "log_grows (rn_host r1) (rn_host r')" using fr by (simp add: run_rel_def)
    show "(\<forall>n. \<not> ho_cancel (rn_host r) n) \<and> \<not> err1" if "(\<forall>n. \<not> ho_cancel (rn_host r) n) \<and> \<not> err'"
      using that fr by blast
  qed
  moreover have "step_settled ev pl (StateSnapshot (rn_state r)) st c'
      ((\<forall>n. \<not> ho_cancel (rn_host r) n) \<and> \<not> err') (rn_host r')"
    using runStep_settles [OF assms(1,2) last] snap by simp
  moreover have "run_rel log_grows r r'" "run_rel same_cancel r r'" "err \<longrightarrow> err'"
    using growing.run.frame_trans [OF r1(1)] uncancelled.run.frame_trans [OF r1(2)] fr ih by blast+
  ultimately show ?case by simp
qed

lemma Execute_parts:
  assumes "Execute ev order pl (cm, h) = (err, cm', h')"
  obtains merr r1 c r2 where
    "run_rel log_grows \<lparr>rn_state = cm_State cm, rn_host = h\<rparr> r1"
    "run_rel same_cancel \<lparr>rn_state = cm_State cm, rn_host = h\<rparr> r1"
    "fold (runStep ev pl) order (empty_carry, merr, r1) = (c, err, r2)"
    "h' = rn_host r2" "cm_carry cm' = c\<lparr>c_Restarts := pl_Restarts pl\<rparr>"
proof -
  let ?r = "\<lparr>rn_state = cm_State cm, rn_host = h\<rparr>"
  let ?rh = "cmHealMapfiles ev (pl_Heal pl) ?r"
  obtain merr r1 where maps: "doMapfile ev (pl_Mapfiles pl) ?rh = (merr, r1)" by fastforce
  obtain c e r2 where steps: "fold (runStep ev pl) order (empty_carry, merr, r1) = (c, e, r2)" by (metis prod_cases3)
  have grows: "run_rel log_grows ?r r1"
    by (rule growing.run.frame_trans [OF growing.frame_healMapfiles
          framedD [OF growing.framed_doMapfile maps, simplified]])
  have cancel: "run_rel same_cancel ?r r1"
    by (rule uncancelled.run.frame_trans [OF uncancelled.frame_healMapfiles
          framedD [OF uncancelled.framed_doMapfile maps, simplified]])
  have "e = err" "h' = rn_host r2" "cm_carry cm' = c\<lparr>c_Restarts := pl_Restarts pl\<rparr>"
    using assms maps steps by (auto simp: Execute_def)
  with that [OF grows cancel] steps show ?thesis by simp
qed

section \<open>Properties\<close>


definition idle_env :: "unit exec_env" where
  "idle_env =
     \<lparr>ev_cfg = NewConfig ''host'',
      ev_pg = \<lparr>pr_exec = (\<lambda>_ _ x. ((True, []), x)), pr_modify = (\<lambda>_ _ x. (Failed, x))\<rparr>,
      ev_proxygen = (\<lambda>_ fx. (Succeeded, fx)), ev_pyRange = (\<lambda>_ _ _. []), ev_depth = 0\<rparr>"

definition quiet_host :: "unit host" where
  "quiet_host =
     \<lparr>ho_files = [], ho_umask = 0, ho_fate = (\<lambda>_. Works), ho_cancel = (\<lambda>_. False), ho_calls = 0,
      ho_ext = (), ho_log = []\<rparr>"

definition ldap_entry :: Ldap where
  "ldap_entry = \<lparr>ld_key = ''size'', ld_value = ''9'', ld_sections = [], ld_reasons = []\<rparr>"

definition proxy_request :: Proxygen where
  "proxy_request = \<lparr>pg_sections = [''proxy''], pg_reasons = []\<rparr>"

definition work_plan :: Plan where
  "work_plan =
     \<lparr>pl_FirstRun = False, pl_Sections = [], pl_Heal = [], pl_Mapfiles = [], pl_Rewrites = [],
      pl_Postconf = [\<lparr>pc_key = ''banner'', pc_value = ''hello'', pc_sections = [], pc_reasons = []\<rparr>],
      pl_Postconfd = [], pl_Ldap = [ldap_entry], pl_Proxygen = Some proxy_request, pl_Restarts = [],
      pl_Deferred = [], pl_Tracked = [], pl_Enabled = []\<rparr>"


lemma proxygen_step_panics:
  assumes "\<And>s fx. fst (ev_proxygen ev s fx) = Panicked" "pl_Proxygen pl = Some q"
    and "runStep ev pl StepProxygen (c, err, r) = (c', err', r')"
  shows "c' = c \<and> err'"
proof -
  obtain res r1 where run: "on_host (RunProxygenWithConfigs ev (rn_state r)) r = (res, r1)" by fastforce
  then have "res = Panicked"
    using assms(1) by (auto simp: on_host_def RunProxygenWithConfigs_def split: prod.splits) (metis fst_conv)
  with run assms(2,3) show ?thesis by (auto simp: runStep_def runProxygen_def)
qed

lemma panicking_steps:
  assumes "\<And>s fx. fst (ev_proxygen ev s fx) = Panicked" "pl_Proxygen pl = Some q"
    and "fold (runStep ev pl) order (c, err, r) = (c', err', r')" "StepProxygen \<in> set order \<or> err" "c_Proxygen c = None"
  shows "c_Proxygen c' = None \<and> err'"
  using assms(3-)
proof (induction order arbitrary: c err r)
  case (Cons st order)
  obtain c1 err1 r1 where one: "runStep ev pl st (c, err, r) = (c1, err1, r1)" by (metis prod_cases3)
  with Cons.prems(1) have rest: "fold (runStep ev pl) order (c1, err1, r1) = (c', err', r')" by simp
  have "c_Proxygen c1 = None \<and> (StepProxygen \<in> set order \<or> err1)"
  proof (cases "st = StepProxygen")
    case True
    with proxygen_step_panics [OF assms(1,2)] one Cons.prems(3) show ?thesis by blast
  next
    case False
    with runStep_fields(5) [OF one] runStep_frame [OF one] Cons.prems(2,3) show ?thesis by auto
  qed
  then show ?case using Cons.IH [OF rest] by blast
qed simp

text \<open>C36: A panic in a step loses its work. When the proxy generator panics, \<open>Execute\<close> reports an error
  but the request is not in the carry, so the next cycle does not repeat it although it was never done.\<close>
theorem panicking_step_forgets_work:
  assumes "\<forall>s fx. fst (ev_proxygen ev s fx) = Panicked" "pl_Proxygen pl = Some q" "set order = UNIV"
    and "Execute ev order pl (cm, h) = (err, cm', h')"
  shows "err \<and> c_Proxygen (cm_carry cm') = None"
proof -
  obtain merr r1 c r2 where
    steps: "fold (runStep ev pl) order (empty_carry, merr, r1) = (c, err, r2)"
    and res: "cm_carry cm' = c\<lparr>c_Restarts := pl_Restarts pl\<rparr>"
    by (rule Execute_parts [OF assms(4)])
  have "c_Proxygen c = None \<and> err"
    by (rule panicking_steps [OF assms(1) [rule_format] assms(2) steps])
      (use assms(3) in \<open>simp_all add: empty_carry_def\<close>)
  with res show ?thesis by simp
qed

theorem panicking_step_forgets_work_witness:
  "\<exists>cm' h'. Execute (idle_env\<lparr>ev_proxygen := (\<lambda>_ fx. (Panicked, fx))\<rparr>) all_steps work_plan
      (ex_cm NewState, quiet_host) = (True, cm', h') \<and> c_Proxygen (cm_carry cm') = None"
proof -
  let ?ev = "idle_env\<lparr>ev_proxygen := (\<lambda>_ fx. (Panicked, fx))\<rparr>"
  obtain err cm' h' where run: "Execute ?ev all_steps work_plan (ex_cm NewState, quiet_host) = (err, cm', h')"
    by (metis prod_cases3)
  have "set all_steps = UNIV" using step.exhaust by (auto simp: all_steps_def)
  moreover have "pl_Proxygen work_plan = Some proxy_request" by (simp add: work_plan_def)
  moreover have "\<forall>s fx. fst (ev_proxygen ?ev s fx) = Panicked" by simp
  ultimately have "err \<and> c_Proxygen (cm_carry cm') = None"
    using panicking_step_forgets_work [OF _ _ _ run] by blast
  then have "err = True" "c_Proxygen (cm_carry cm') = None" by simp_all
  with run have "Execute ?ev all_steps work_plan (ex_cm NewState, quiet_host) = (True, cm', h')" by (simp only:)
  with \<open>c_Proxygen (cm_carry cm') = None\<close> show ?thesis by blast
qed

end
