(* ===== verification/File_Correct.thy ===== *)
theory File_Correct
  imports Plan_Execute
begin

text \<open>
  What the file operations leave in the file system: a template rewrite replaces its target with the
  whole rendered text or leaves it alone, and a mapped file gets the configured value.
\<close>

section \<open>Elementary operations\<close>

abbreviation files :: "'x host \<Rightarrow> string \<Rightarrow> regfile option" where
  "files h \<equiv> mget (ho_files h)"

lemma attempt_cases:
  assumes "attempt f h = (res, h')"
  obtains "f (tick h) = (res, h')" | e where "res = Inl e" "e \<noteq> ErrNotExist" "h' = tick h"
  using assms by (auto simp: attempt_def split: fate.splits)

lemma files_tick [simp]: "ho_files (tick h) = ho_files h"
  by (simp add: tick_def)

lemma files_log [simp]: "ho_files (log_effect e h) = ho_files h"
  by (simp add: log_effect_def)

lemma fs_stat_files: "fs_stat p h = (res, h') \<Longrightarrow>
    ho_files h' = ho_files h \<and> (\<forall>f. res = Inr f \<longrightarrow> files h p = Some f) \<and> (res = Inl ErrNotExist \<longrightarrow> files h p = None)"
  unfolding fs_stat_def by (erule attempt_cases) (auto simp: attempt_def split: option.splits)

lemma fs_read_files: "fs_read p h = (res, h') \<Longrightarrow>
    ho_files h' = ho_files h \<and> (\<forall>s. res = Inr s \<longrightarrow> (\<exists>f. files h p = Some f \<and> fl_data f = s))"
  unfolding fs_read_def by (erule attempt_cases) (auto split: option.splits)

lemma fs_sync_files: "fs_sync h = (res, h') \<Longrightarrow> ho_files h' = ho_files h"
  unfolding fs_sync_def by (erule attempt_cases) auto

lemma fs_sync_snd [simp]: "ho_files (snd (fs_sync h)) = ho_files h"
  using fs_sync_files by (metis prod.collapse)

lemma fs_update_files: "fs_update p g h = (res, h') \<Longrightarrow>
    (case res of Inl _ \<Rightarrow> files h' = files h | Inr _ \<Rightarrow> (\<exists>f. files h p = Some f \<and> files h' = (files h)(p \<mapsto> g f)))"
  unfolding fs_update_def by (erule attempt_cases) (auto simp: put_file_def split: option.splits)

lemma fs_remove_files: "fs_remove p h = (res, h') \<Longrightarrow>
    (case res of Inl _ \<Rightarrow> files h' = files h | Inr _ \<Rightarrow> files h' = (files h)(p := None))"
  unfolding fs_remove_def by (erule attempt_cases) (auto split: if_splits)

lemma fs_rename_files: "fs_rename p q h = (res, h') \<Longrightarrow>
    (case res of Inl _ \<Rightarrow> files h' = files h
      | Inr _ \<Rightarrow> (\<exists>f. files h p = Some f \<and> files h' = (files h)(p := None, q \<mapsto> f)))"
  unfolding fs_rename_def by (erule attempt_cases) (auto simp: put_file_def split: option.splits)

section \<open>Temporary files\<close>

lemma temp_name_free:
  "(\<exists>n. temp_name pre suf fs = pre @ replicate n CHR ''x'' @ suf) \<and> \<not> mhas fs (temp_name pre suf fs)"
proof -
  let ?name = "\<lambda>n. pre @ replicate n CHR ''x'' @ suf"
  let ?names = "map ?name [0..<Suc (length fs)]"
  have "inj ?name" by (rule injI) (metis append_same_eq length_replicate same_append_eq)
  then have "distinct ?names"
    by (simp only: distinct_map distinct_upt inj_on_subset [OF _ subset_UNIV] simp_thms)
  then have "card (set ?names) = Suc (length fs)" by (simp only: distinct_card length_map length_upt diff_zero)
  moreover have "card (set (mkeys fs)) \<le> length fs" by (metis card_length length_map)
  ultimately have "\<not> set ?names \<subseteq> set (mkeys fs)"
    using card_mono [OF List.finite_set [of "mkeys fs"], of "set ?names"] by linarith
  then have "\<exists>p \<in> set ?names. \<not> mhas fs p" by auto
  then have "filter (\<lambda>p. \<not> mhas fs p) ?names \<noteq> []" unfolding filter_empty_conv by blast
  then have "temp_name pre suf fs \<in> set (filter (\<lambda>p. \<not> mhas fs p) ?names)"
    unfolding temp_name_def by (rule hd_in_set)
  then show ?thesis unfolding set_filter set_map by blast
qed

lemma temp_name_fresh: "mget fs (temp_name pre suf fs) = None"
  using temp_name_free [of pre suf fs] by (simp add: map_of_eq_None_iff)

lemma has_suffix_append [simp]: "has_suffix (a @ suf) suf"
  by (simp add: has_suffix_def has_prefix_def)

lemma temp_name_suffix: "has_suffix (temp_name pre suf fs) suf"
proof -
  obtain n where "temp_name pre suf fs = pre @ replicate n CHR ''x'' @ suf" using temp_name_free [of pre suf fs] by blast
  then show ?thesis using has_suffix_append [of "pre @ replicate n CHR ''x''" suf] by simp
qed

definition empty_temp :: regfile where
  "empty_temp = \<lparr>fl_data = [], fl_mode = 384, fl_owner = (0, 0)\<rparr>"

lemma fs_create_temp_files: "fs_create_temp dir pre suf h = (res, h') \<Longrightarrow>
    (case res of Inl _ \<Rightarrow> files h' = files h
      | Inr t \<Rightarrow> files h t = None \<and> has_suffix t suf \<and> files h' = (files h)(t \<mapsto> empty_temp))"
  unfolding fs_create_temp_def
  by (erule attempt_cases) (auto simp: put_file_def Let_def temp_name_fresh temp_name_suffix empty_temp_def)

section \<open>Triples\<close>

text \<open>From a host with \<open>P\<close>, a call that succeeds ends with \<open>Q\<close> and one that fails with \<open>E\<close>.\<close>

definition hoare ::
    "('x host \<Rightarrow> bool) \<Rightarrow> ('x, 'a) hostm \<Rightarrow> ('a \<Rightarrow> 'x host \<Rightarrow> bool) \<Rightarrow> ('x host \<Rightarrow> bool) \<Rightarrow> bool" where
  "hoare P m Q E \<longleftrightarrow> (\<forall>h. P h \<longrightarrow> (case m h of (Inl _, h') \<Rightarrow> E h' | (Inr v, h') \<Rightarrow> Q v h'))"

lemma hoareI:
  "(\<And>h res h'. P h \<Longrightarrow> m h = (res, h') \<Longrightarrow> (case res of Inl _ \<Rightarrow> E h' | Inr v \<Rightarrow> Q v h')) \<Longrightarrow> hoare P m Q E"
  unfolding hoare_def by (auto split: prod.split sum.split)

lemma hoareD: "hoare P m Q E \<Longrightarrow> P h \<Longrightarrow> m h = (Inr v, h') \<Longrightarrow> Q v h'"
  by (force simp: hoare_def)

lemma hoareD_fail: "hoare P m Q E \<Longrightarrow> P h \<Longrightarrow> m h = (Inl e, h') \<Longrightarrow> E h'"
  by (force simp: hoare_def)

lemma hoare_bind:
  assumes "hoare P m Q E" "\<And>v. hoare (Q v) (f v) R E"
  shows "hoare P (hbind m f) R E"
proof (rule hoareI)
  fix h res h'
  assume "P h" "hbind m f h = (res, h')"
  moreover obtain x h1 where "m h = (x, h1)" by fastforce
  ultimately show "case res of Inl _ \<Rightarrow> E h' | Inr v \<Rightarrow> R v h'"
    using hoareD [OF assms(1)] hoareD_fail [OF assms(1)] hoareD [OF assms(2)] hoareD_fail [OF assms(2)]
    by (cases x; cases res; simp add: hbind_def; blast)
qed

lemma hoare_on_failure:
  assumes "hoare P m Q E'" "\<And>h. E' h \<Longrightarrow> E (snd (clean h))"
  shows "hoare P (on_failure m clean) Q E"
proof (rule hoareI)
  fix h res h'
  assume "P h" "on_failure m clean h = (res, h')"
  moreover obtain x h1 where "m h = (x, h1)" by fastforce
  ultimately show "case res of Inl _ \<Rightarrow> E h' | Inr v \<Rightarrow> Q v h'"
    using hoareD [OF assms(1)] hoareD_fail [OF assms(1)] assms(2)
    by (cases x; cases res) (auto simp: on_failure_def)
qed

lemma hoare_weaken: "hoare P m Q E \<Longrightarrow> (\<And>h. E h \<Longrightarrow> E' h) \<Longrightarrow> hoare P m Q E'"
  unfolding hoare_def by (force split: prod.splits sum.splits)

section \<open>Temporary files and files put in place\<close>

definition temp_path :: "string \<Rightarrow> bool" where
  "temp_path p \<longleftrightarrow> has_suffix p ''.tmp''"

definition same_but_temps :: "(string \<Rightarrow> regfile option) \<Rightarrow> 'x host \<Rightarrow> bool" where
  "same_but_temps F h \<longleftrightarrow> (\<forall>p. \<not> temp_path p \<longrightarrow> files h p = F p)"

definition holds :: "string \<Rightarrow> string \<Rightarrow> nat \<Rightarrow> 'x host \<Rightarrow> bool" where
  "holds p data mode h \<longleftrightarrow> (\<exists>f. files h p = Some f \<and> fl_data f = data \<and> fl_mode f = mode)"

definition temp_at :: "(string \<Rightarrow> regfile option) \<Rightarrow> string \<Rightarrow> string \<Rightarrow> nat \<Rightarrow> 'x host \<Rightarrow> bool" where
  "temp_at F t data mode h \<longleftrightarrow> temp_path t \<and> holds t data mode h \<and> same_but_temps F h"

definition placed :: "(string \<Rightarrow> regfile option) \<Rightarrow> string \<Rightarrow> string \<Rightarrow> nat \<Rightarrow> 'x host \<Rightarrow> bool" where
  "placed F dst data mode h \<longleftrightarrow>
     holds dst data mode h \<and> (\<forall>p. p \<noteq> dst \<longrightarrow> \<not> temp_path p \<longrightarrow> files h p = F p)"

lemmas file_defs = temp_at_def placed_def holds_def same_but_temps_def

lemma temp_at_same: "temp_at F t d m h \<Longrightarrow> same_but_temps F h"
  by (simp add: temp_at_def)

lemma create_temp_triple:
  "hoare (same_but_temps F) (fs_create_temp dir pre ''.tmp'') (\<lambda>t. temp_at F t [] 384) (same_but_temps F)"
  by (rule hoareI, drule fs_create_temp_files)
    (auto simp: file_defs temp_path_def empty_temp_def split: sum.splits)

lemma write_triple: "hoare (temp_at F t d m) (fs_write t s) (\<lambda>_. temp_at F t (d @ s) m) (temp_at F t d m)"
  unfolding fs_write_def
  by (rule hoareI, drule fs_update_files) (auto simp: file_defs split: sum.splits)

lemma chmod_triple: "hoare (temp_at F t d m) (fs_chmod t m') (\<lambda>_. temp_at F t d m') (temp_at F t d m)"
  unfolding fs_chmod_def
  by (rule hoareI, drule fs_update_files) (auto simp: file_defs split: sum.splits)

lemma chmod_placed: "hoare (placed F p d m) (fs_chmod p m') (\<lambda>_. placed F p d m') (placed F p d m)"
  unfolding fs_chmod_def
  by (rule hoareI, drule fs_update_files) (auto simp: file_defs split: sum.splits)

lemma sync_triple: "(\<And>h h'. ho_files h' = ho_files h \<Longrightarrow> P h \<Longrightarrow> P h') \<Longrightarrow> hoare P fs_sync (\<lambda>_. P) P"
  by (rule hoareI, drule fs_sync_files) (auto split: sum.splits)

lemma sync_files [intro]:
  "hoare (temp_at F t d m) fs_sync (\<lambda>_. temp_at F t d m) (temp_at F t d m)"
  "hoare (placed F p d m) fs_sync (\<lambda>_. placed F p d m) (placed F p d m)"
  by (rule sync_triple; simp add: file_defs)+

lemma rename_triple: "hoare (temp_at F t d m) (fs_rename t dst) (\<lambda>_. placed F dst d m) (temp_at F t d m)"
  by (rule hoareI, drule fs_rename_files) (auto simp: file_defs split: sum.splits)

lemma remove_same:
  assumes "temp_path t" "same_but_temps F h"
  shows "same_but_temps F (snd (fs_remove t h))"
proof -
  obtain res h' where r: "fs_remove t h = (res, h')" by fastforce
  from fs_remove_files [OF this] assms r show ?thesis by (auto simp: file_defs split: sum.splits)
qed

lemma remove_placed:
  assumes "temp_path t" "t \<noteq> dst" "placed F dst d m h"
  shows "placed F dst d m (snd (fs_remove t h))"
proof -
  obtain res h' where r: "fs_remove t h = (res, h')" by fastforce
  from fs_remove_files [OF this] assms r show ?thesis by (auto simp: file_defs split: sum.splits)
qed

lemma same_sync: "same_but_temps F (snd (fs_sync h)) \<longleftrightarrow> same_but_temps F h"
  by (simp add: same_but_temps_def)

lemma discard_same: "temp_at F t d m h \<Longrightarrow> same_but_temps F (snd (fs_remove t (snd (fs_sync h))))"
  by (rule remove_same) (simp_all add: temp_at_def same_sync)

lemma discard_same': "temp_at F t d m h \<Longrightarrow> same_but_temps F (snd (fs_remove t h))"
  by (rule remove_same) (simp_all add: temp_at_def)

lemma return_triple: "hoare P (hreturn v) (\<lambda>_. P) E"
  by (simp add: hoare_def hreturn_def)

lemma syncDir_triple: "hoare (placed F p d m) (syncDir dir) (\<lambda>_. placed F p d m) (placed F p d m)"
  unfolding syncDir_def
  by (rule hoare_bind [OF sync_files(2)], rule hoare_bind [OF hoare_on_failure [OF sync_files(2)]])
    (auto simp: file_defs)

lemma AtomicWrite_triple:
  "hoare (same_but_temps F) (AtomicWrite path data perm) (\<lambda>_. placed F path data perm)
    (\<lambda>h. same_but_temps F h \<or> placed F path data perm h)"
  unfolding AtomicWrite_def AtomicWriteOwned_def Let_def
  by (simp, rule hoare_bind [OF hoare_weaken [OF create_temp_triple]], simp,
      rule hoare_bind [OF hoare_on_failure [OF write_triple]], simp add: discard_same,
      rule hoare_bind [OF hoare_on_failure [OF sync_files(1)]], simp add: discard_same,
      rule hoare_bind [OF hoare_on_failure [OF chmod_triple]], simp add: discard_same,
      rule hoare_bind [OF return_triple],
      rule hoare_bind [OF hoare_on_failure [OF sync_files(1)]], simp add: discard_same',
      rule hoare_bind [OF hoare_on_failure [OF rename_triple]], simp add: discard_same',
      rule hoare_weaken, simp, rule syncDir_triple, simp)

section \<open>Template rewrites\<close>

lemma stat_triple:
  "hoare (temp_at F t d m) (fs_stat t)
    (\<lambda>f h. temp_at F t d m h \<and> fl_data f = d \<and> fl_mode f = m) (temp_at F t d m)"
  by (rule hoareI, drule fs_stat_files) (auto simp: file_defs split: sum.splits)

lemma hoare_assume: "(c \<Longrightarrow> hoare P m Q E) \<Longrightarrow> hoare (\<lambda>h. P h \<and> c) m Q E"
  by (auto simp: hoare_def)

lemma hoare_pre: "hoare P m Q E \<Longrightarrow> (\<And>h. P' h \<Longrightarrow> P h) \<Longrightarrow> hoare P' m Q E"
  by (auto simp: hoare_def)

lemma CopyFile_triple:
  "hoare (temp_at F src d m) (CopyFile src dst) (\<lambda>_. placed F dst d m) (same_but_temps F)"
proof -
  have copy: "hoare (temp_at F t [] 384)
      (on_failure
         (hbind (fs_write t d) (\<lambda>_. hbind fs_sync (\<lambda>_. hbind fs_sync (\<lambda>_.
          hbind (fs_chmod t m) (\<lambda>_. hbind fs_sync (\<lambda>_. fs_rename t dst))))))
         (discardTemp t)) (\<lambda>_. placed F dst d m) (same_but_temps F)" for t
  proof (rule hoare_on_failure)
    let ?E = "\<lambda>h. \<exists>d m. temp_at F t d m h"
    show "hoare (temp_at F t [] 384)
         (hbind (fs_write t d) (\<lambda>_. hbind fs_sync (\<lambda>_. hbind fs_sync (\<lambda>_.
          hbind (fs_chmod t m) (\<lambda>_. hbind fs_sync (\<lambda>_. fs_rename t dst)))))) (\<lambda>_. placed F dst d m) ?E"
      by (rule hoare_bind [OF hoare_weaken [OF write_triple]], blast,
          rule hoare_bind [OF hoare_weaken [OF sync_files(1)]], blast,
          rule hoare_bind [OF hoare_weaken [OF sync_files(1)]], blast,
          rule hoare_bind [OF hoare_weaken [OF chmod_triple]], blast,
          rule hoare_bind [OF hoare_weaken [OF sync_files(1)]], blast,
          rule hoare_weaken, simp, rule rename_triple, blast)
    show "same_but_temps F (snd (discardTemp t h))" if "?E h" for h
      using that discard_same by (auto simp: discardTemp_def)
  qed
  show ?thesis
    unfolding CopyFile_def createExclusiveTemp_def
  proof (rule hoare_bind)
    show "hoare (temp_at F src d m) (fs_stat src)
      (\<lambda>f h. temp_at F src d m h \<and> fl_data f = d \<and> fl_mode f = m) (same_but_temps F)"
      by (rule hoare_weaken [OF stat_triple]) (rule temp_at_same)
    show "hoare (\<lambda>h. temp_at F src d m h \<and> fl_data f = d \<and> fl_mode f = m)
        (hbind (fs_create_temp (path_dir dst) ''.configd-copy-'' ''.tmp'') (\<lambda>tmpPath. on_failure
         (hbind (fs_write tmpPath (fl_data f)) (\<lambda>_. hbind fs_sync (\<lambda>_. hbind fs_sync (\<lambda>_.
          hbind (fs_chmod tmpPath (fl_mode f)) (\<lambda>_. hbind fs_sync (\<lambda>_. fs_rename tmpPath dst))))))
         (discardTemp tmpPath))) (\<lambda>_. placed F dst d m) (same_but_temps F)" for f
      by (rule hoare_assume, rule hoare_pre [OF hoare_bind [OF create_temp_triple]])
        (auto simp: copy temp_at_same)
  qed
qed

lemma commit_outcome:
  assumes "temp_at F t d m0 h" "rewriteAtomicCommit t dst modeStr h = (ok, h')" "t \<noteq> dst"
  shows "(ok \<longrightarrow> rewriteFileMode modeStr \<noteq> None \<and> placed F dst d (the (rewriteFileMode modeStr)) h') \<and>
    (\<not> ok \<longrightarrow> same_but_temps F h' \<or>
      rewriteFileMode modeStr \<noteq> None \<and> placed F dst d (the (rewriteFileMode modeStr)) h')"
proof (cases "rewriteFileMode modeStr")
  case None
  with assms show ?thesis by (simp add: rewriteAtomicCommit_def temp_at_same)
next
  case (Some mode)
  obtain x1 h1 where c: "fs_chmod t mode h = (x1, h1)" by fastforce
  obtain x2 h2 where rn: "fs_rename t dst h1 = (x2, h2)" by fastforce
  obtain x3 h3 where cp: "CopyFile t dst h2 = (x3, h3)" by fastforce
  obtain x4 h4 where ch: "fs_chmod dst mode h3 = (x4, h4)" by fastforce
  note run = assms(2) [unfolded rewriteAtomicCommit_def]
  have f1: "same_but_temps F h1" if "x1 = Inl e" for e
    using hoareD_fail [OF chmod_triple assms(1)] c that temp_at_same by blast
  have s1: "temp_at F t d mode h1" if "x1 = Inr u" for u
    using hoareD [OF chmod_triple assms(1)] c that by blast
  have s2: "placed F dst d mode h2" if "x1 = Inr u" "x2 = Inr w" for u w
    using hoareD [OF rename_triple s1] rn that by blast
  have f2: "temp_at F t d mode h2" if "x1 = Inr u" "x2 = Inl e" for u e
    using hoareD_fail [OF rename_triple s1] rn that by blast
  have f3: "same_but_temps F h3" if "x1 = Inr u" "x2 = Inl e" "x3 = Inl e'" for u e e'
    using hoareD_fail [OF CopyFile_triple f2] cp that by blast
  have s3: "placed F dst d mode h3" if "x1 = Inr u" "x2 = Inl e" "x3 = Inr w" for u e w
    using hoareD [OF CopyFile_triple f2] cp that by blast
  have f4: "placed F dst d mode h4" if "x1 = Inr u" "x2 = Inl e" "x3 = Inr w" "x4 = Inl e'" for u e w e'
    using hoareD_fail [OF chmod_placed s3] ch that by blast
  have s4: "placed F dst d mode (snd (fs_remove t h4))"
    if "x1 = Inr u" "x2 = Inl e" "x3 = Inr w" "x4 = Inr w'" for u e w w'
    using hoareD [OF chmod_placed s3] ch that remove_placed [of t dst F d mode h4] assms(1,3) by (auto simp: temp_at_def)
  show ?thesis
    using run Some c rn cp ch f1 s2 f2 f3 f4 s4 temp_at_same [OF f2]
    by (cases x1; cases x2; cases x3; cases x4) (auto split: if_splits)
qed

lemma cleanup_same:
  assumes "temp_path t" "same_but_temps F h"
  shows "same_but_temps F (cleanupRewriteFiles t h)"
proof -
  obtain res h1 where st: "fs_stat t (snd (fs_sync h)) = (res, h1)" by fastforce
  with assms(2) have "same_but_temps F h1" using fs_stat_files [OF st] by (simp add: same_but_temps_def)
  with st show ?thesis by (cases res) (simp_all add: cleanupRewriteFiles_def remove_same assms(1))
qed

lemma cleanup_placed:
  assumes "temp_path t" "t \<noteq> dst" "placed F dst d m h"
  shows "placed F dst d m (cleanupRewriteFiles t h)"
proof -
  obtain res h1 where st: "fs_stat t (snd (fs_sync h)) = (res, h1)" by fastforce
  with assms(3) have "placed F dst d m h1" using fs_stat_files [OF st] by (simp add: file_defs)
  with st show ?thesis by (cases res) (simp_all add: cleanupRewriteFiles_def remove_placed assms(1,2))
qed

lemma transform_lines_writes:
  assumes "temp_at F t d m (rn_host r)" "transform_lines ev (fs_write t) lines r = (out, r')"
  shows "case out of None \<Rightarrow> (\<exists>d'. temp_at F t d' m (rn_host r')) | Some text \<Rightarrow> temp_at F t (d @ text) m (rn_host r')"
  using assms
proof (induction lines arbitrary: d r out r')
  case (Cons line lines)
  obtain x s where tr: "run_transform ev (rn_host r) line (rn_state r) = (x, s)" by fastforce
  show ?case
  proof (cases x)
    case (Inl e)
    with Cons.prems tr show ?thesis by auto
  next
    case (Inr v)
    let ?v = "if has_suffix v [CHR 0x0A] then v else v @ [CHR 0x0A]"
    obtain y h1 where w: "fs_write t ?v (rn_host r) = (y, h1)" by fastforce
    show ?thesis
    proof (cases y)
      case (Inl e)
      with w have "temp_at F t d m h1" using hoareD_fail [OF write_triple Cons.prems(1), of _ e h1] by blast
      with Cons.prems tr Inr w Inl show ?thesis by (auto simp: on_host_def Let_def)
    next
      case y: (Inr u)
      obtain out2 r2 where rest: "transform_lines ev (fs_write t) lines (r\<lparr>rn_state := s, rn_host := h1\<rparr>) = (out2, r2)"
        by fastforce
      have "temp_at F t (d @ ?v) m h1" using hoareD [OF write_triple Cons.prems(1), of _ u h1] w y by blast
      then have "case out2 of None \<Rightarrow> (\<exists>d'. temp_at F t d' m (rn_host r2))
          | Some text \<Rightarrow> temp_at F t ((d @ ?v) @ text) m (rn_host r2)"
        using rest by (intro Cons.IH) simp_all
      with Cons.prems(2) tr Inr w y rest show ?thesis
        by (cases out2) (auto simp: on_host_def Let_def)
    qed
  qed
qed auto

text \<open>The text the template of an entry renders to in a run, line by line into its temporary file.\<close>

definition rendered :: "'x exec_env \<Rightarrow> Rewrite \<Rightarrow> 'x run \<Rightarrow> string \<Rightarrow> bool" where
  "rendered ev e r out \<longleftrightarrow>
     (\<exists>tmp h. fs_create_temp (path_dir (dest_path (ev_cfg ev) (rw_target e))) ''.zmconfigd-rewrite-'' ''.tmp''
         (rn_host r) = (Inr tmp, h) \<and>
       fst (rewriteTransform ev (TemplatePath (ev_cfg ev) (rw_source e)) (fs_write tmp) (r\<lparr>rn_host := h\<rparr>)) = Some out)"

lemma rewriteTransform_writes:
  assumes "temp_at F t [] m (rn_host r)" "rewriteTransform ev src (fs_write t) r = (out, r')"
  shows "case out of None \<Rightarrow> same_but_temps F (rn_host r') | Some text \<Rightarrow> temp_at F t text m (rn_host r')"
proof -
  obtain x h1 where rd: "fs_read src (rn_host r) = (x, h1)" by fastforce
  have t1: "temp_at F t [] m h1" using assms(1) fs_read_files [OF rd] by (simp add: file_defs)
  show ?thesis
  proof (cases x)
    case (Inl e)
    with assms rd t1 show ?thesis by (auto simp: rewriteTransform_def on_host_def temp_at_same)
  next
    case (Inr content)
    obtain lines long where sc: "scan_lines content = (lines, long)" by fastforce
    obtain out2 r2 where tl: "transform_lines ev (fs_write t) lines (r\<lparr>rn_host := h1\<rparr>) = (out2, r2)" by fastforce
    from transform_lines_writes [of F t "[]" m "r\<lparr>rn_host := h1\<rparr>", OF _ tl] t1
    have "case out2 of None \<Rightarrow> (\<exists>d'. temp_at F t d' m (rn_host r2)) | Some text \<Rightarrow> temp_at F t text m (rn_host r2)"
      by (simp split: option.splits)
    with assms(2) rd Inr sc tl show ?thesis
      by (cases out2) (auto simp: rewriteTransform_def on_host_def temp_at_same)
  qed
qed

lemma processRewrite_outcome:
  assumes "processRewrite ev e r = (ok, r')" "\<not> temp_path (dest_path (ev_cfg ev) (rw_target e))"
  shows "(\<exists>text mode. rendered ev e r text \<and> rewriteFileMode (rw_mode e) = Some mode \<and>
      placed (files (rn_host r)) (dest_path (ev_cfg ev) (rw_target e)) text mode (rn_host r')) \<or>
    \<not> ok \<and> same_but_temps (files (rn_host r)) (rn_host r')"
proof -
  let ?F = "files (rn_host r)" and ?src = "TemplatePath (ev_cfg ev) (rw_source e)"
    and ?dst = "dest_path (ev_cfg ev) (rw_target e)"
  note run = assms(1) [unfolded processRewrite_def Let_def]
  obtain x h1 where ct: "fs_create_temp (path_dir ?dst) ''.zmconfigd-rewrite-'' ''.tmp'' (rn_host r) = (x, h1)" by fastforce
  have same: "same_but_temps ?F (rn_host r)" by (simp add: same_but_temps_def)
  show ?thesis
  proof (cases x)
    case (Inl err)
    with hoareD_fail [OF create_temp_triple same] ct run show ?thesis by (auto simp: on_host_def)
  next
    case (Inr tmp)
    with hoareD [OF create_temp_triple same] ct have t1: "temp_at ?F tmp [] 384 h1" by blast
    obtain out r2 where tr: "rewriteTransform ev ?src (fs_write tmp) (r\<lparr>rn_host := h1\<rparr>) = (out, r2)" by fastforce
    note wr = rewriteTransform_writes [OF _ tr, of ?F 384, simplified, OF t1]
    have tmp: "temp_path tmp" "tmp \<noteq> ?dst" using t1 assms(2) by (auto simp: temp_at_def)
    show ?thesis
    proof (cases out)
      case None
      with wr run ct Inr tr cleanup_same [OF tmp(1), of ?F "rn_host r2"] show ?thesis by (auto simp: on_host_def)
    next
      case (Some txt0)
      have rnd: "rendered ev e r txt0"
        unfolding rendered_def using tr Some ct Inr by (intro exI [of _ tmp] exI [of _ h1]) simp
      obtain ok' h3 where cm: "rewriteAtomicCommit tmp ?dst (rw_mode e) (snd (fs_sync (rn_host r2))) = (ok', h3)" by fastforce
      have "temp_at ?F tmp txt0 384 (snd (fs_sync (rn_host r2)))" using wr Some by (simp add: file_defs)
      note out = commit_outcome [OF this cm tmp(2)]
      have res: "ok = ok'" "ho_files (rn_host r') = ho_files (cleanupRewriteFiles tmp h3)"
        using run ct Inr tr Some cm by (auto simp: on_host_def)
      have same': "same_but_temps ?F (rn_host r')" if "same_but_temps ?F h3"
        using cleanup_same [OF tmp(1) that] res(2) by (simp add: same_but_temps_def)
      have placed': "placed ?F ?dst txt0 m (rn_host r')" if "placed ?F ?dst txt0 m h3" for m
        using cleanup_placed [OF tmp that] res(2) by (simp add: file_defs)
      show ?thesis using out rnd res(1) same' placed' by (cases "rewriteFileMode (rw_mode e)") auto
    qed
  qed
qed

section \<open>Mapped files\<close>

text \<open>The bytes a configured value stands for: its decoding when it is base64, itself otherwise.\<close>

definition mapped_bytes :: "string \<Rightarrow> string" where
  "mapped_bytes v = (case b64_decode v of Some d \<Rightarrow> d | None \<Rightarrow> v)"

lemma mappedFileBase64_decodes:
  assumes "Var (StateSnapshot s) key = Some v" "v \<noteq> []"
  shows "mappedFileBase64 key s \<noteq> [] \<and> b64_decode (mappedFileBase64 key s) = Some (mapped_bytes v)"
  using assms by (auto simp: mappedFileBase64_def mapped_bytes_def split: option.split)

lemma executeMapFile_content:
  assumes "b64 \<noteq> []" "b64_decode b64 = Some d" "executeMapFile b64 p h = (Succeeded, h')"
  shows "\<exists>f. files h' p = Some f \<and> fl_data f = d"
proof -
  obtain ex h1 where rd: "fs_read p h = (ex, h1)" by fastforce
  note r = fs_read_files [OF rd]
  show ?thesis
  proof (cases "ex = Inr d")
    case True
    with assms rd r show ?thesis by (auto simp: executeMapFile_def)
  next
    case False
    obtain st h2 where stat: "fs_stat p h1 = (st, h2)" by fastforce
    obtain mode x h3 where wr: "AtomicWrite p d mode h2 = (x, h3)" "x = Inr ()" "ho_files h' = ho_files h3"
      using assms rd False stat
      by (auto simp: executeMapFile_def writeMapfile_def Let_def split: prod.splits sum.splits if_splits)
    have "same_but_temps (files h2) h2" by (simp add: same_but_temps_def)
    from hoareD [OF AtomicWrite_triple this] wr have "placed (files h2) p d mode h3" by blast
    with wr(3) show ?thesis by (auto simp: file_defs)
  qed
qed

lemma handleEmpty_removes:
  assumes "handleEmptyMapfileData p h = (Succeeded, h')"
  shows "files h' p = None"
proof -
  obtain st h1 where stat: "fs_stat p h = (st, h1)" by fastforce
  obtain x h2 where rm: "fs_remove p h1 = (x, h2)" by fastforce
  from assms stat rm fs_stat_files [OF stat] fs_remove_files [OF rm] show ?thesis
    by (cases st; cases x) (auto simp: handleEmptyMapfileData_def split: if_splits)
qed

lemma mappedFilePaths_get:
  "mget (mappedFilePaths baseDir) key = map_option (\<lambda>rel. path_join [baseDir, rel]) (mget MAPPEDFILES key)"
  by (simp add: mappedFilePaths_def map_of_map)

section \<open>Properties\<close>

text \<open>C3: A template rewrite is atomic. Whatever call fails, the target afterwards is the file it was or
  holds the whole text the template renders to, with the mode of the directive; when the rewrite reports
  success it is the latter; and no other file is touched, temporary ones (which end in .tmp) aside.\<close>
theorem rewrite_is_atomic:
  assumes "processRewrite ev e r = (ok, r')" and "\<not> has_suffix (dest_path (ev_cfg ev) (rw_target e)) ''.tmp''"
  shows "((\<exists>text mode f. rendered ev e r text \<and>
        rewriteFileMode (rw_mode e) = Some mode \<and>
        mget (ho_files (rn_host r')) (dest_path (ev_cfg ev) (rw_target e)) = Some f \<and>
        fl_data f = text \<and> fl_mode f = mode) \<or>
      \<not> ok \<and> mget (ho_files (rn_host r')) (dest_path (ev_cfg ev) (rw_target e)) =
        mget (ho_files (rn_host r)) (dest_path (ev_cfg ev) (rw_target e))) \<and>
    (\<forall>p. p \<noteq> dest_path (ev_cfg ev) (rw_target e) \<longrightarrow> \<not> has_suffix p ''.tmp'' \<longrightarrow>
      mget (ho_files (rn_host r')) p = mget (ho_files (rn_host r)) p)"
  using processRewrite_outcome [OF assms(1)] assms(2)
  unfolding file_defs temp_path_def by blast

definition plain_rewrite :: Rewrite where
  "plain_rewrite = \<lparr>rw_source = ''conf/a.in'', rw_target = ''conf/a'', rw_mode = ''640'', rw_sections = [], rw_reasons = []\<rparr>"

definition plain_env :: "unit exec_env" where
  "plain_env =
     \<lparr>ev_cfg = NewConfig ''h'', ev_pg = \<lparr>pr_exec = (\<lambda>_ _ x. ((True, []), x)), pr_modify = (\<lambda>_ _ x. (Succeeded, x))\<rparr>,
      ev_proxygen = (\<lambda>_ fx. (Succeeded, fx)), ev_pyRange = (\<lambda>_ _ _. []), ev_depth = 0\<rparr>"

definition plain_run :: "unit run" where
  "plain_run =
     \<lparr>rn_state = NewState,
      rn_host = \<lparr>ho_files = [(''h/conf/a.in'', \<lparr>fl_data = ''a'', fl_mode = 420, fl_owner = (0, 0)\<rparr>)],
        ho_umask = 23, ho_fate = (\<lambda>_. Works), ho_cancel = (\<lambda>_. False), ho_calls = 0, ho_ext = (), ho_log = []\<rparr>\<rparr>"

lemma plain_transform: "run_transform plain_env h ''a'' st = (Inr ''a'', st)"
  by (simp add: run_transform_def Transform_def xreturn_def count_char_def)

lemma plain_paths:
  "TemplatePath (ev_cfg plain_env) (rw_source plain_rewrite) = ''h/conf/a.in''"
  "dest_path (ev_cfg plain_env) (rw_target plain_rewrite) = ''h/conf/a''"
  "path_dir ''h/conf/a'' = ''h/conf''"
  "temp_name ''h/conf/.zmconfigd-rewrite-'' ''.tmp'' (ho_files (rn_host plain_run)) = ''h/conf/.zmconfigd-rewrite-.tmp''"
  "rewriteFileMode ''640'' = Some 416"
  by code_simp+

lemma plain_scan: "scan_lines ''a'' = ([''a''], False)"
proof -
  have "raw_lines ''a'' = [''a'']" by code_simp
  then show ?thesis by (simp add: scan_lines_def max_line_def drop_cr_def has_suffix_def has_prefix_def)
qed

lemma plain_order:
  "''h/conf/.zmconfigd-rewrite-.tmp'' < ''h/conf/a.in''" "''h/conf/a'' < ''h/conf/a.in''"
  "\<not> ''h/conf/a'' < ''h/conf/.zmconfigd-rewrite-.tmp''"
  by code_simp+

lemma plain_rewrite_works: "fst (processRewrite plain_env plain_rewrite plain_run)"
  using plain_paths plain_scan plain_order
  by (simp add: processRewrite_def Let_def plain_run_def on_host_def fs_create_temp_def attempt_def tick_def put_file_def
      rewriteTransform_def fs_read_def plain_transform has_suffix_def has_prefix_def fs_write_def fs_update_def
      rewriteAtomicCommit_def fs_sync_def fs_chmod_def fs_rename_def plain_rewrite_def)

theorem rewrite_is_atomic_witness:
  "\<exists>r' f. processRewrite plain_env plain_rewrite plain_run = (True, r') \<and>
    mget (ho_files (rn_host r')) (dest_path (NewConfig ''h'') ''conf/a'') = Some f \<and> fl_mode f = 416"
proof -
  obtain r' where run: "processRewrite plain_env plain_rewrite plain_run = (True, r')"
    using plain_rewrite_works by (metis prod.collapse)
  have "\<not> has_suffix (dest_path (ev_cfg plain_env) (rw_target plain_rewrite)) ''.tmp''" by code_simp
  moreover have "rewriteFileMode (rw_mode plain_rewrite) = Some 416" by code_simp
  ultimately show ?thesis
    using rewrite_is_atomic [OF run] run by (simp add: plain_env_def plain_rewrite_def) blast
qed

text \<open>C29: A mapped file round-trips. After a successful sync the file of the key holds the bytes that were
  configured: the bytes whose base64 encoding the value is (as zmprov prints binary attributes), or the
  value itself when it is not base64 (as the LDAP client returns it); without a value there is no file.\<close>
theorem mapped_file_roundtrip:
  assumes "mget MAPPEDFILES (mf_key m) = Some rel" "\<not> mf_local m" "syncMapfile ev m r = (Succeeded, r')"
  shows "case Var (StateSnapshot (rn_state r)) (mf_key m) of
      None \<Rightarrow> mget (ho_files (rn_host r')) (path_join [cfg_BaseDir (ev_cfg ev), rel]) = None
    | Some v \<Rightarrow>
        if v = [] then mget (ho_files (rn_host r')) (path_join [cfg_BaseDir (ev_cfg ev), rel]) = None
        else \<exists>f. mget (ho_files (rn_host r')) (path_join [cfg_BaseDir (ev_cfg ev), rel]) = Some f \<and>
          (\<forall>bytes. v = b64_encode bytes \<longrightarrow> fl_data f = bytes) \<and> (b64_decode v = None \<longrightarrow> fl_data f = v)"
proof -
  let ?p = "path_join [cfg_BaseDir (ev_cfg ev), rel]" and ?b = "mappedFileBase64 (mf_key m) (rn_state r)"
  have run: "executeMapFile ?b ?p (rn_host r) = (Succeeded, rn_host r')"
    using assms by (auto simp: syncMapfile_def on_host_def ExecuteMapfile_def mappedFilePaths_get split: prod.splits)
  show ?thesis
  proof (cases "\<exists>v. Var (StateSnapshot (rn_state r)) (mf_key m) = Some v \<and> v \<noteq> []")
    case True
    then obtain v where v: "Var (StateSnapshot (rn_state r)) (mf_key m) = Some v" "v \<noteq> []" by blast
    from executeMapFile_content [OF conjunct1 [OF mappedFileBase64_decodes [OF v]]
        conjunct2 [OF mappedFileBase64_decodes [OF v]] run] v
    show ?thesis by (auto simp: mapped_bytes_def)
  next
    case False
    then have "?b = []" by (auto simp: mappedFileBase64_def split: option.splits)
    with run have "files (rn_host r') ?p = None" by (simp add: executeMapFile_def handleEmpty_removes)
    with False show ?thesis by (auto split: option.split)
  qed
qed

definition dh_run :: "unit run" where
  "dh_run =
     \<lparr>rn_state = NewState\<lparr>ds_snap := NewSnapshot (empty_parts\<lparr>p_global := [(''zimbraSSLDHParam'', ''--pem'')]\<rparr>)\<rparr>,
      rn_host = \<lparr>ho_files = [(''h/conf/dhparam.pem'', \<lparr>fl_data = ''old'', fl_mode = 416, fl_owner = (0, 0)\<rparr>)],
        ho_umask = 23, ho_fate = (\<lambda>_. Works), ho_cancel = (\<lambda>_. False), ho_calls = 0, ho_ext = (), ho_log = []\<rparr>\<rparr>"

definition dh_map :: Mapfile where
  "dh_map = \<lparr>mf_key = ''zimbraSSLDHParam'', mf_local = False, mf_sections = [], mf_reasons = []\<rparr>"

lemma dh_facts:
  "mget MAPPEDFILES ''zimbraSSLDHParam'' = Some ''conf/dhparam.pem''"
  "path_join [cfg_BaseDir (ev_cfg plain_env), ''conf/dhparam.pem''] = ''h/conf/dhparam.pem''"
  "Var (StateSnapshot (rn_state dh_run)) ''zimbraSSLDHParam'' = Some ''--pem''"
  "b64_decode ''--pem'' = None"
  "path_dir ''h/conf/dhparam.pem'' = ''h/conf''"
  "temp_name ''h/conf/.configd-'' ''.tmp'' (ho_files (rn_host dh_run)) = ''h/conf/.configd-.tmp''"
  "''h/conf/.configd-.tmp'' < ''h/conf/dhparam.pem''"
  by code_simp+

lemma dh_write_works:
  assumes "b64 \<noteq> []" "b64_decode b64 = Some ''--pem''"
  shows "fst (executeMapFile b64 ''h/conf/dhparam.pem'' (rn_host dh_run)) = Succeeded"
  using assms dh_facts
  by (simp add: executeMapFile_def
      dh_run_def fs_read_def attempt_def tick_def writeMapfile_def fs_stat_def Let_def AtomicWrite_def
      AtomicWriteOwned_def hbind_def fs_create_temp_def put_file_def on_failure_def fs_write_def fs_update_def
      fs_sync_def fs_chmod_def hreturn_def fs_rename_def syncDir_def)

lemma dh_sync_works: "fst (syncMapfile plain_env dh_map dh_run) = Succeeded"
proof -
  have b: "mappedFileBase64 ''zimbraSSLDHParam'' (rn_state dh_run) \<noteq> []"
    "b64_decode (mappedFileBase64 ''zimbraSSLDHParam'' (rn_state dh_run)) = Some ''--pem''"
    using mappedFileBase64_decodes [OF dh_facts(3)] dh_facts(4) by (simp_all add: mapped_bytes_def)
  show ?thesis
    using dh_write_works [OF b] dh_facts
    by (simp add: syncMapfile_def dh_map_def on_host_def ExecuteMapfile_def mappedFilePaths_get split_beta)
qed

theorem mapped_file_roundtrip_witness:
  "\<exists>r' f. syncMapfile plain_env dh_map dh_run = (Succeeded, r') \<and>
    mget (ho_files (rn_host r')) ''h/conf/dhparam.pem'' = Some f \<and> fl_data f = ''--pem''"
proof -
  obtain r' where run: "syncMapfile plain_env dh_map dh_run = (Succeeded, r')"
    using dh_sync_works by (metis prod.collapse)
  from mapped_file_roundtrip [OF _ _ run, of "''conf/dhparam.pem''"] run dh_facts show ?thesis
    by (auto simp: dh_map_def)
qed

end
