(* ===== verification/Cf_Lexer.thy ===== *)
theory Cf_Lexer
  imports Transformer
begin

text \<open>
  \<open>internal/parser/lexer.go\<close>: the tokens of \<open>zmconfigd.cf\<close>. The lexer works on a string in memory, so it
  never meets a read error; the part of the input it has not passed yet starts with the current
  character and is empty at the end of the input. The model covers ASCII files: the letters and digits
  of Unicode beyond them are not told apart from other bytes.
\<close>

section \<open>Tokens\<close>

datatype TokenType =
    TokenEOF | TokenError | TokenSection | TokenRewrite | TokenVar | TokenLocal | TokenService
  | TokenPostconf | TokenPostconfd | TokenRestart | TokenDepends | TokenMapfile | TokenMaplocal
  | TokenMode | TokenFile | TokenIf | TokenFi | TokenProxygen | TokenIdentifier | TokenString
  | TokenNewline

record Token =
  tk_Type :: TokenType
  tk_Literal :: string
  tk_Line :: nat
  tk_Column :: nat

text \<open>The one lexical error, with the text \<open>fmt.Errorf\<close> gives it; \<open>%q\<close> quotes the character.\<close>

datatype lex_error = UnexpectedChar char nat nat

definition hex_digit :: "nat \<Rightarrow> char" where
  "hex_digit n = (if n < 10 then char_of (48 + n) else char_of (87 + n))"

definition quote_rune :: "char \<Rightarrow> string" where
  "quote_rune c =
     (let n = of_char c :: nat;
          body = (if n = 39 \<or> n = 92 then [CHR 0x5C, c]
                  else if 32 \<le> n \<and> n < 127 then [c]
                  else (case map_of [(7, CHR ''a''), (8, CHR ''b''), (12, CHR ''f''), (10, CHR ''n''),
                                     (13, CHR ''r''), (9, CHR ''t''), (11, CHR ''v'')] n of
                          Some e \<Rightarrow> [CHR 0x5C, e]
                        | None \<Rightarrow> [CHR 0x5C, CHR ''x'', hex_digit (n div 16), hex_digit (n mod 16)]))
      in [CHR 0x27] @ body @ [CHR 0x27])"

primrec lex_error_text :: "lex_error \<Rightarrow> string" where
  "lex_error_text (UnexpectedChar c line col) =
     ''unexpected character: '' @ quote_rune c @ '' at line '' @ itoa (int line) @ '', column '' @ itoa (int col)"

section \<open>The lexer\<close>

record lexer =
  lx_in :: string
  lx_line :: nat
  lx_column :: nat
  lx_peeked :: "Token option"

text \<open>The position after the character that becomes the current one.\<close>

definition at_char :: "lexer \<Rightarrow> lexer" where
  "at_char l =
     (case lx_in l of
        [] \<Rightarrow> l
      | c # _ \<Rightarrow> if c = CHR 0x0A then l\<lparr>lx_line := Suc (lx_line l), lx_column := 0\<rparr>
                 else l\<lparr>lx_column := Suc (lx_column l)\<rparr>)"

definition NewLexer :: "string \<Rightarrow> lexer" where
  "NewLexer content = at_char \<lparr>lx_in = content, lx_line = 1, lx_column = 0, lx_peeked = None\<rparr>"

definition readChar :: "lexer \<Rightarrow> lexer" where
  "readChar l = (case lx_in l of [] \<Rightarrow> l | _ # rest \<Rightarrow> at_char (l\<lparr>lx_in := rest\<rparr>))"

lemma at_char_in [simp]: "lx_in (at_char l) = lx_in l" "lx_peeked (at_char l) = lx_peeked l"
  by (simp_all add: at_char_def split: list.split)

lemma readChar_in [simp]: "lx_in (readChar l) = tl (lx_in l)" "lx_peeked (readChar l) = lx_peeked l"
  by (simp_all add: readChar_def split: list.split)

text \<open>Read while the current character satisfies a condition.\<close>

function read_while :: "(char \<Rightarrow> bool) \<Rightarrow> lexer \<Rightarrow> string \<times> lexer" where
  "read_while P l =
     (if lx_in l \<noteq> [] \<and> P (hd (lx_in l)) then
        (case read_while P (readChar l) of (s, l') \<Rightarrow> (hd (lx_in l) # s, l'))
      else ([], l))"
  by pat_completeness auto
termination
  by (relation "measure (\<lambda>(_, l). length (lx_in l))") auto

declare read_while.simps [simp del]

lemma read_while_takes:
  "fst (read_while P l) = takeWhile P (lx_in l) \<and> lx_in (snd (read_while P l)) = dropWhile P (lx_in l) \<and>
    lx_peeked (snd (read_while P l)) = lx_peeked l"
proof (induction P l rule: read_while.induct)
  case (1 P l)
  show ?case
  proof (cases "lx_in l \<noteq> [] \<and> P (hd (lx_in l))")
    case True
    with 1 show ?thesis
      by (subst (1 2 3) read_while.simps) (auto simp: neq_Nil_conv split: prod.splits)
  next
    case False
    then show ?thesis by (subst (1 2 3) read_while.simps) (cases "lx_in l"; auto)
  qed
qed

lemmas read_while_parts [simp] =
  conjunct1 [OF read_while_takes] conjunct1 [OF conjunct2 [OF read_while_takes]]
  conjunct2 [OF conjunct2 [OF read_while_takes]]

lemma read_whileD:
  "read_while P l = (s, l') \<Longrightarrow>
     s = takeWhile P (lx_in l) \<and> lx_in l' = dropWhile P (lx_in l) \<and> lx_peeked l' = lx_peeked l"
  using read_while_takes [of P l] by simp

definition skipWhitespace :: "lexer \<Rightarrow> lexer" where
  "skipWhitespace l = snd (read_while (\<lambda>c. c = CHR '' '' \<or> c = CHR 0x09) l)"

definition skipComment :: "lexer \<Rightarrow> lexer" where
  "skipComment l = snd (read_while (\<lambda>c. c \<noteq> CHR 0x0A) l)"

definition is_letter :: "char \<Rightarrow> bool" where
  "is_letter c \<longleftrightarrow> (CHR ''A'' \<le> c \<and> c \<le> CHR ''Z'') \<or> (CHR ''a'' \<le> c \<and> c \<le> CHR ''z'')"

definition is_digit :: "char \<Rightarrow> bool" where
  "is_digit c \<longleftrightarrow> CHR ''0'' \<le> c \<and> c \<le> CHR ''9''"

definition isIdentifierStart :: "char \<Rightarrow> bool" where
  "isIdentifierStart c \<longleftrightarrow> is_letter c \<or> c = CHR ''_''"

definition isIdentifierChar :: "char \<Rightarrow> bool" where
  "isIdentifierChar c \<longleftrightarrow> is_letter c \<or> is_digit c \<or> c = CHR ''_'' \<or> c = CHR ''-'' \<or> c = CHR '',''"

definition readIdentifier :: "lexer \<Rightarrow> string \<times> lexer" where
  "readIdentifier l = read_while isIdentifierChar l"

abbreviation quote :: char where "quote \<equiv> CHR 0x22"

definition current :: "lexer \<Rightarrow> char" where
  "current l = (case lx_in l of [] \<Rightarrow> CHR 0x00 | c # _ \<Rightarrow> c)"

definition readString :: "lexer \<Rightarrow> string \<times> lexer" where
  "readString l =
     (if current l = quote then
        (case read_while (\<lambda>c. c \<noteq> quote \<and> c \<noteq> CHR 0x0A) (readChar l) of
           (s, l1) \<Rightarrow> (s, if current l1 = quote then readChar l1 else l1))
      else read_while (\<lambda>c. \<not> is_space c) l)"

definition keyword_tokens :: "TokenType smap" where
  "keyword_tokens =
     [(''DEPENDS'', TokenDepends), (''FI'', TokenFi), (''FILE'', TokenFile), (''IF'', TokenIf),
      (''LOCAL'', TokenLocal), (''MAPFILE'', TokenMapfile), (''MAPLOCAL'', TokenMaplocal),
      (''MODE'', TokenMode), (''POSTCONF'', TokenPostconf), (''POSTCONFD'', TokenPostconfd),
      (''PROXYGEN'', TokenProxygen), (''RESTART'', TokenRestart), (''REWRITE'', TokenRewrite),
      (''SECTION'', TokenSection), (''SERVICE'', TokenService), (''VAR'', TokenVar)]"

definition lookupKeyword :: "string \<Rightarrow> TokenType" where
  "lookupKeyword ident = (case mget keyword_tokens (to_upper ident) of Some tt \<Rightarrow> tt | None \<Rightarrow> TokenIdentifier)"

lemma skips_in [simp]:
  "lx_in (skipWhitespace l) = dropWhile (\<lambda>c. c = CHR '' '' \<or> c = CHR 0x09) (lx_in l)"
  "lx_in (skipComment l) = dropWhile (\<lambda>c. c \<noteq> CHR 0x0A) (lx_in l)"
  "lx_peeked (skipWhitespace l) = lx_peeked l" "lx_peeked (skipComment l) = lx_peeked l"
  by (simp_all add: skipWhitespace_def skipComment_def)

text \<open>An identifier, with the negation operator in front of it when there is one.\<close>

definition read_word :: "lexer \<Rightarrow> string \<times> lexer" where
  "read_word l =
     (if current l = CHR ''!'' then
        (case readIdentifier (readChar l) of (ident, l1) \<Rightarrow> (CHR ''!'' # ident, l1))
      else readIdentifier l)"

function scan_token :: "lexer \<Rightarrow> (lex_error + Token) \<times> lexer" where
  "scan_token l0 =
     (let l = skipWhitespace l0;
          tok = (\<lambda>tt s. \<lparr>tk_Type = tt, tk_Literal = s, tk_Line = lx_line l, tk_Column = lx_column l\<rparr>)
      in if lx_in l = [] then (Inr (tok TokenEOF []), l)
         else if current l = CHR 0x0A then (Inr (tok TokenNewline [CHR 0x0A]), readChar l)
         else if current l = CHR ''#'' then scan_token (skipComment l)
         else if isIdentifierStart (current l) \<or> current l = CHR ''!'' then
           (case read_word l of (ident, l1) \<Rightarrow> (Inr (tok (lookupKeyword ident) ident), l1))
         else if current l = CHR ''/'' \<or> current l = quote \<or> is_digit (current l) \<or> current l = CHR ''.'' then
           (case readString l of (s, l1) \<Rightarrow> (Inr (tok TokenString s), l1))
         else (Inl (UnexpectedChar (current l) (lx_line l) (lx_column l)), readChar l))"
  by pat_completeness auto
termination
proof (relation "measure (\<lambda>l. length (lx_in l))", simp)
  fix l0 l :: lexer
  assume l: "l = skipWhitespace l0" "lx_in l \<noteq> []" "current l = CHR ''#''"
  then obtain rest where rest: "lx_in l = CHR ''#'' # rest" by (cases "lx_in l") (auto simp: current_def)
  have "length (lx_in (skipComment l)) \<le> length rest" using rest length_dropWhile_le by simp
  also have "length rest < length (lx_in l)" using rest by simp
  also have "length (lx_in l) \<le> length (lx_in l0)" using l(1) length_dropWhile_le by simp
  finally show "(skipComment l, l0) \<in> measure (\<lambda>l. length (lx_in l))" by simp
qed

declare scan_token.simps [simp del]

definition NextToken :: "lexer \<Rightarrow> (lex_error + Token) \<times> lexer" where
  "NextToken l =
     (case lx_peeked l of
        Some tok \<Rightarrow> (Inr tok, l\<lparr>lx_peeked := None\<rparr>)
      | None \<Rightarrow> scan_token l)"

definition Peek :: "lexer \<Rightarrow> (lex_error + Token) \<times> lexer" where
  "Peek l =
     (case lx_peeked l of
        Some tok \<Rightarrow> (Inr tok, l)
      | None \<Rightarrow>
          (case NextToken l of
             (Inl e, l1) \<Rightarrow> (Inl e, l1)
           | (Inr tok, l1) \<Rightarrow> (Inr tok, l1\<lparr>lx_peeked := Some tok\<rparr>)))"

definition HasMore :: "lexer \<Rightarrow> bool" where
  "HasMore l = (case lx_peeked l of Some tok \<Rightarrow> tk_Type tok \<noteq> TokenEOF | None \<Rightarrow> lx_in l \<noteq> [])"

section \<open>Progress\<close>

text \<open>What is left: the input, and a token that was read ahead.\<close>

definition lsize :: "lexer \<Rightarrow> nat" where
  "lsize l = length (lx_in l) + (if lx_peeked l = None then 0 else 1)"

lemma read_word_progress:
  assumes "lx_in l \<noteq> []" "isIdentifierStart (current l) \<or> current l = CHR ''!''"
  shows "length (lx_in (snd (read_word l))) < length (lx_in l)" "lx_peeked (snd (read_word l)) = lx_peeked l"
proof -
  obtain c rest where l: "lx_in l = c # rest" using assms(1) by (cases "lx_in l") auto
  have "length (dropWhile isIdentifierChar rest) \<le> length rest" by (rule length_dropWhile_le)
  then show "length (lx_in (snd (read_word l))) < length (lx_in l)"
    using assms(2) l
    by (auto simp: read_word_def readIdentifier_def current_def isIdentifierStart_def isIdentifierChar_def
        split: prod.split) (metis le_imp_less_Suc list.sel(3) read_while_parts(2) readChar_in(1) snd_conv)+
  show "lx_peeked (snd (read_word l)) = lx_peeked l"
    by (auto simp: read_word_def readIdentifier_def split: prod.split)
      (metis read_while_parts(3) readChar_in(2) snd_conv)
qed

lemma current_Cons [simp]: "lx_in l = c # rest \<Longrightarrow> current l = c"
  by (simp add: current_def)

lemma readString_progress:
  assumes "lx_in l \<noteq> []" "\<not> is_space (current l)"
  shows "length (lx_in (snd (readString l))) < length (lx_in l)" "lx_peeked (snd (readString l)) = lx_peeked l"
proof -
  obtain c rest where l: "lx_in l = c # rest" using assms(1) by (cases "lx_in l") auto
  let ?q = "\<lambda>c. c \<noteq> quote \<and> c \<noteq> CHR 0x0A"
  have "length (dropWhile ?q rest) \<le> length rest" "length (dropWhile (\<lambda>c. \<not> is_space c) rest) \<le> length rest"
    by (rule length_dropWhile_le)+
  then show "length (lx_in (snd (readString l))) < length (lx_in l)"
    using l assms(2) by (auto simp: readString_def split: prod.split dest!: read_whileD)
  show "lx_peeked (snd (readString l)) = lx_peeked l"
    by (auto simp: readString_def split: prod.splits dest!: read_whileD)
qed

text \<open>
  A token other than the end of the input consumes some of it; a lexical error does as well. The error
  token type is never returned as a token, and every token but those of the input's end, of strings and
  of line ends is a word whose type is its keyword's.
\<close>

definition is_word :: "string \<Rightarrow> bool" where
  "is_word w \<longleftrightarrow> (case w of [] \<Rightarrow> False | c # cs \<Rightarrow> (isIdentifierChar c \<or> c = CHR ''!'') \<and> list_all isIdentifierChar cs)"

definition tok_ok :: "Token \<Rightarrow> bool" where
  "tok_ok tok \<longleftrightarrow> tk_Type tok \<in> {TokenEOF, TokenError, TokenString, TokenNewline} \<or>
     (is_word (tk_Literal tok) \<and> tk_Type tok = lookupKeyword (tk_Literal tok))"

definition lexed :: "nat \<Rightarrow> (lex_error + Token) \<times> lexer \<Rightarrow> bool" where
  "lexed n r \<longleftrightarrow>
     (case r of
        (Inl _, l) \<Rightarrow> length (lx_in l) < n
      | (Inr tok, l) \<Rightarrow> tk_Type tok \<noteq> TokenError \<and> tok_ok tok \<and>
          (if tk_Type tok = TokenEOF then lx_in l = [] else length (lx_in l) < n))"

lemma lexed_mono: "lexed m r \<Longrightarrow> m \<le> n \<Longrightarrow> lexed n r"
  by (auto simp: lexed_def split: prod.splits sum.splits if_splits)

lemma lookupKeyword_kind:
  "lookupKeyword ident \<notin> {TokenEOF, TokenError, TokenString, TokenNewline}"
proof (cases "mget keyword_tokens (to_upper ident)")
  case (Some tt)
  then have "tt \<in> snd ` set keyword_tokens" by (force dest: map_of_SomeD)
  then show ?thesis using Some by (auto simp: lookupKeyword_def keyword_tokens_def)
qed (simp add: lookupKeyword_def)

lemma read_word_is_word:
  assumes "lx_in l \<noteq> []" "isIdentifierStart (current l) \<or> current l = CHR ''!''"
  shows "is_word (fst (read_word l))"
proof -
  obtain c rest where l: "lx_in l = c # rest" using assms(1) by (cases "lx_in l") auto
  have "list_all isIdentifierChar (takeWhile isIdentifierChar rest)"
    by (auto simp: list_all_iff dest: set_takeWhileD)
  then show ?thesis using assms(2) l
    by (auto simp: read_word_def readIdentifier_def is_word_def isIdentifierStart_def isIdentifierChar_def
        split: prod.split dest!: read_whileD)
qed

lemma scan_token_progress:
  "lexed (length (lx_in l)) (scan_token l) \<and> lx_peeked (snd (scan_token l)) = lx_peeked l"
proof (induction l rule: scan_token.induct)
  case (1 l0)
  define l where "l = skipWhitespace l0"
  have le: "length (lx_in l) \<le> length (lx_in l0)" and pk: "lx_peeked l = lx_peeked l0"
    by (simp_all add: l_def length_dropWhile_le)
  show ?case
  proof (cases "lx_in l")
    case Nil
    then show ?thesis using pk by (subst (1 2) scan_token.simps) (simp add: l_def [symmetric] lexed_def tok_ok_def)
  next
    case (Cons c rest)
    consider "c = CHR 0x0A" | "c = CHR ''#''"
      | "c \<noteq> CHR 0x0A" "c \<noteq> CHR ''#''" "isIdentifierStart c \<or> c = CHR ''!''"
      | "c \<noteq> CHR 0x0A" "c \<noteq> CHR ''#''" "\<not> (isIdentifierStart c \<or> c = CHR ''!'')"
          "c = CHR ''/'' \<or> c = quote \<or> is_digit c \<or> c = CHR ''.''"
      | "c \<noteq> CHR 0x0A" "c \<noteq> CHR ''#''" "\<not> (isIdentifierStart c \<or> c = CHR ''!'')"
          "\<not> (c = CHR ''/'' \<or> c = quote \<or> is_digit c \<or> c = CHR ''.'')"
      by blast
    then show ?thesis
    proof cases
      case 1
      then show ?thesis using Cons le pk
        by (subst (1 2) scan_token.simps) (simp add: l_def [symmetric] lexed_def tok_ok_def)
    next
      case 2
      have rest: "length (lx_in (skipComment l)) \<le> length (lx_in l0)"
        using le length_dropWhile_le [of "\<lambda>c. c \<noteq> CHR 0x0A" "lx_in l"] by simp
      have "lexed (length (lx_in (skipComment l))) (scan_token (skipComment l)) \<and>
          lx_peeked (snd (scan_token (skipComment l))) = lx_peeked (skipComment l)"
        using 2 Cons by (intro "1.IH" [OF l_def refl]) simp_all
      moreover have "scan_token l0 = scan_token (skipComment l)"
        using 2 Cons by (subst scan_token.simps) (simp add: l_def [symmetric])
      ultimately show ?thesis using pk by (auto intro: lexed_mono [OF _ rest])
    next
      case 3
      then show ?thesis using Cons le pk read_word_progress [of l] read_word_is_word [of l] lookupKeyword_kind
        by (subst (1 2) scan_token.simps) (auto simp: l_def [symmetric] lexed_def tok_ok_def split: prod.split)
    next
      case 4
      have "\<not> is_space c" using 4(4) by (auto simp: is_space_def is_digit_def less_eq_char_def)
      then show ?thesis using 4 Cons le pk readString_progress [of l]
        by (subst (1 2) scan_token.simps) (auto simp: l_def [symmetric] lexed_def tok_ok_def split: prod.split)
    next
      case 5
      then show ?thesis using Cons le pk
        by (subst (1 2) scan_token.simps) (simp add: l_def [symmetric] lexed_def tok_ok_def)
    qed
  qed
qed

lemma NextToken_progress:
  assumes "NextToken l = (r, l')"
  shows "lx_peeked l' = None"
    "r = Inl e \<Longrightarrow> lsize l' < lsize l"
    "r = Inr tok \<Longrightarrow> tk_Type tok \<noteq> TokenEOF \<Longrightarrow> lsize l' < lsize l"
    "r = Inr tok \<Longrightarrow> lx_peeked l = None \<Longrightarrow> tk_Type tok = TokenEOF \<Longrightarrow> lx_in l' = []"
    "r = Inr tok \<Longrightarrow> lx_peeked l = None \<Longrightarrow> tk_Type tok \<noteq> TokenError"
    "r = Inr tok \<Longrightarrow> lx_peeked l = None \<Longrightarrow> tok_ok tok"
  using assms scan_token_progress [of l]
  by (auto simp: NextToken_def lsize_def lexed_def split: option.splits if_splits)

text \<open>\<open>Peek\<close> returns the token the next call of \<open>NextToken\<close> returns, and returns it again until then.\<close>

lemma Peek_is_next:
  assumes "Peek l = (Inr tok, l1)"
  shows "fst (NextToken l1) = Inr tok" "Peek l1 = (Inr tok, l1)" "fst (NextToken l) = Inr tok"
  using assms by (auto simp: Peek_def NextToken_def split: option.splits prod.splits sum.splits)

end
