(* ===== verification/Cf_Parser.thy ===== *)
theory Cf_Parser
  imports Cf_Lexer Config_Types
begin

text \<open>
  \<open>internal/parser/parser.go\<close> and \<open>conditionals.go\<close>: the recursive descent parser of \<open>zmconfigd.cf\<close>. An
  operation takes the parser and returns its result and the parser after it; an operation that may fail
  returns an error on the left of a sum. A section or a conditional under construction is threaded through
  the operations that fill it. Log messages are not modelled.
\<close>

section \<open>State and errors\<close>

datatype parse_error =
    LexError lex_error
  | ExpectedSection nat TokenType
  | ExpectedSectionName nat
  | ExpectedHeaderNewline nat
  | UnknownDirective string nat
  | UnexpectedToken TokenType nat
  | ExpectedSource nat
  | ExpectedDestination nat
  | ExpectedModeValue nat
  | ExpectedVarName string nat
  | ExpectedParameter string nat
  | ExpectedKeyAfter string string nat
  | ExpectedLdapKey nat
  | UnterminatedIf string string nat
  | ExpectedConditionType nat TokenType
  | ExpectedConditionKey nat
  | ExpectedVarAfter string nat

record parser =
  ps_lexer :: lexer
  ps_current :: Token
  ps_errors :: "parse_error list"

abbreviation ctype :: "parser \<Rightarrow> TokenType" where "ctype p \<equiv> tk_Type (ps_current p)"
abbreviation lit :: "parser \<Rightarrow> string" where "lit p \<equiv> tk_Literal (ps_current p)"
abbreviation line_of :: "parser \<Rightarrow> nat" where "line_of p \<equiv> tk_Line (ps_current p)"

definition advance :: "parser \<Rightarrow> parser" where
  "advance p =
     (case NextToken (ps_lexer p) of
        (Inl e, l) \<Rightarrow>
          p\<lparr>ps_lexer := l, ps_errors := ps_errors p @ [LexError e],
            ps_current := \<lparr>tk_Type = TokenError, tk_Literal = lex_error_text e, tk_Line = 0, tk_Column = 0\<rparr>\<rparr>
      | (Inr tok, l) \<Rightarrow> p\<lparr>ps_lexer := l, ps_current := tok\<rparr>)"

definition NewParser :: "lexer \<Rightarrow> parser" where
  "NewParser l =
     advance \<lparr>ps_lexer = l,
       ps_current = \<lparr>tk_Type = TokenEOF, tk_Literal = [], tk_Line = 0, tk_Column = 0\<rparr>, ps_errors = []\<rparr>"

definition isAtEnd :: "parser \<Rightarrow> bool" where
  "isAtEnd p \<longleftrightarrow> ctype p = TokenEOF \<or> ctype p = TokenError"

definition isAtNewline :: "parser \<Rightarrow> bool" where
  "isAtNewline p \<longleftrightarrow> ctype p = TokenNewline"

definition isNextSection :: "parser \<Rightarrow> bool" where
  "isNextSection p \<longleftrightarrow> ctype p = TokenSection"

text \<open>What the parser has still to read.\<close>

definition psize :: "parser \<Rightarrow> nat" where
  "psize p = (if isAtEnd p then 0 else Suc (lsize (ps_lexer p)))"

lemma psize_advance [simp]: "\<not> isAtEnd p \<Longrightarrow> psize (advance p) < psize p"
proof (cases "NextToken (ps_lexer p)")
  case (Pair r l)
  assume more: "\<not> isAtEnd p"
  note next_token = NextToken_progress [OF Pair]
  show ?thesis
  proof (cases r)
    case (Inl e)
    with Pair more show ?thesis by (simp add: psize_def advance_def isAtEnd_def)
  next
    case (Inr tok)
    with Pair more next_token(3) [OF Inr] show ?thesis by (auto simp: psize_def advance_def isAtEnd_def)
  qed
qed

lemma psize_le [simp]: "\<not> isAtEnd p \<Longrightarrow> psize (advance p) \<le> psize p"
  by (rule less_imp_le) (rule psize_advance)

lemma error_size [simp]: "isAtEnd (p\<lparr>ps_errors := es\<rparr>) = isAtEnd p" "psize (p\<lparr>ps_errors := es\<rparr>) = psize p"
  by (simp_all add: isAtEnd_def psize_def)

lemma psize_after: "\<not> isAtEnd p \<Longrightarrow> psize q \<le> psize (advance p) \<Longrightarrow> psize q < psize p"
  by (rule le_less_trans) (auto intro: psize_advance)

text \<open>
  The parser is settled when no token is read ahead, an error token has left an error behind and the end
  of the file is the end of the input. The current token is one the lexer makes.
\<close>

definition settled :: "parser \<Rightarrow> bool" where
  "settled p \<longleftrightarrow> lx_peeked (ps_lexer p) = None \<and> (ctype p = TokenError \<longrightarrow> ps_errors p \<noteq> []) \<and>
     (ctype p = TokenEOF \<longrightarrow> lx_in (ps_lexer p) = []) \<and> tok_ok (ps_current p)"

definition keeps_errors :: "parser \<Rightarrow> parser \<Rightarrow> bool" where
  "keeps_errors p p' \<longleftrightarrow> (\<exists>es. ps_errors p' = ps_errors p @ es) \<and> (settled p \<longrightarrow> settled p')"

section \<open>What reading keeps\<close>

text \<open>
  A relation between the parser before and after an operation. It holds of every operation when it
  holds of one step over a token that is neither the end of the file nor an error: no operation
  reads past one of those.
\<close>

locale parser_frame =
  fixes R :: "parser \<Rightarrow> parser \<Rightarrow> bool"
  assumes R_refl: "R p p"
    and R_trans: "R p q \<Longrightarrow> R q r \<Longrightarrow> R p r"
    and R_advance: "\<not> isAtEnd p \<Longrightarrow> R p (advance p)"
    and R_error: "R p (p\<lparr>ps_errors := ps_errors p @ [e]\<rparr>)"
begin

lemma R_type: "ctype p \<notin> {TokenEOF, TokenError} \<Longrightarrow> R p (advance p)"
  by (rule R_advance) (simp add: isAtEnd_def)

lemma R_after: "\<not> isAtEnd p \<Longrightarrow> R (advance p) q \<Longrightarrow> R p q"
  by (rule R_trans [OF R_advance])

end

interpretation shrink: parser_frame "\<lambda>p p'. psize p' \<le> psize p"
  by unfold_locales auto

lemma settled_advance_fresh:
  assumes "lx_peeked (ps_lexer p) = None"
  shows "settled (advance p)"
proof (cases "NextToken (ps_lexer p)")
  case (Pair r l)
  note next_token = NextToken_progress [OF Pair]
  show ?thesis
  proof (cases r)
    case (Inl e)
    with Pair next_token(1) show ?thesis by (simp add: settled_def advance_def tok_ok_def)
  next
    case (Inr tok)
    with Pair assms next_token(1) next_token(4,5,6) [OF Inr] show ?thesis
      by (simp add: settled_def advance_def)
  qed
qed

lemma settled_advance: "settled p \<Longrightarrow> settled (advance p)"
  by (rule settled_advance_fresh) (simp add: settled_def)

interpretation errs: parser_frame keeps_errors
proof
  show "keeps_errors p (advance p)" for p
    unfolding keeps_errors_def using settled_advance [of p]
    by (auto simp: advance_def split: prod.split sum.split)
qed (auto simp: keeps_errors_def settled_def)

section \<open>Skipping\<close>

function skip_until :: "(parser \<Rightarrow> bool) \<Rightarrow> parser \<Rightarrow> parser" where
  "skip_until stop p = (if \<not> stop p \<and> \<not> isAtEnd p then skip_until stop (advance p) else p)"
  by pat_completeness auto
termination
  by (relation "measure (\<lambda>(_, p). psize p)") auto

declare skip_until.simps [simp del]

definition skipToNewline :: "parser \<Rightarrow> parser" where
  "skipToNewline p = skip_until isAtNewline p"

definition skipToNextSection :: "parser \<Rightarrow> parser" where
  "skipToNextSection p = skip_until isNextSection p"

context parser_frame
begin

lemma R_skip_until: "R p (skip_until stop p)"
proof (induction stop p rule: skip_until.induct)
  case (1 stop p)
  show ?case
  proof (cases "\<not> stop p \<and> \<not> isAtEnd p")
    case True
    have "R p (skip_until stop (advance p))" by (rule R_after) (use True "1.IH" in blast)+
    with True show ?thesis by (subst skip_until.simps) simp
  next
    case False
    then have "skip_until stop p = p" by (subst skip_until.simps) (simp only: if_False)
    then show ?thesis by (simp add: R_refl)
  qed
qed

lemma R_skips [intro!, simp]: "R p (skipToNewline p)" "R p (skipToNextSection p)"
  by (simp_all add: skipToNewline_def skipToNextSection_def R_skip_until)

end

section \<open>Paths, names and values\<close>

definition at_slash :: "parser \<Rightarrow> bool" where
  "at_slash p \<longleftrightarrow> ctype p = TokenString \<and> lit p \<noteq> [] \<and> hd (lit p) = CHR ''/''"

definition readPath :: "parser \<Rightarrow> string \<times> parser" where
  "readPath p =
     (if isAtNewline p \<or> isAtEnd p then ([], p)
      else if at_slash p then (lit p, advance p)
      else if ctype p = TokenIdentifier then
        (let part1 = lit p; p1 = advance p in
         if \<not> isAtNewline p1 \<and> \<not> isAtEnd p1 \<and> at_slash p1 then (part1 @ lit p1, advance p1)
         else (part1, p1))
      else if ctype p = TokenString then (lit p, advance p)
      else ([], p))"

text \<open>The loop over the names of a \<open>DEPENDS\<close> clause and of a \<open>RESTART\<close> directive.\<close>

function read_names :: "bool smap \<Rightarrow> parser \<Rightarrow> bool smap \<times> parser" where
  "read_names m p =
     (if ctype p = TokenIdentifier then read_names (mput (lit p) True m) (advance p) else (m, p))"
  by pat_completeness auto
termination
  by (relation "measure (\<lambda>(_, p). psize p)") (auto simp: isAtEnd_def)

declare read_names.simps [simp del]

definition keyword_part :: "string \<Rightarrow> parser \<Rightarrow> string list \<times> parser" where
  "keyword_part pre p =
     (let p1 = advance p in
      if ctype p1 = TokenIdentifier then ([pre @ lit p1], advance p1) else ([], p1))"

text \<open>One round of the loop of \<open>parseValue\<close>; \<open>None\<close> leaves it.\<close>

definition value_part :: "parser \<Rightarrow> (string list \<times> parser) option" where
  "value_part p =
     (case ctype p of
        TokenVar \<Rightarrow> Some (keyword_part ''VAR:'' p)
      | TokenLocal \<Rightarrow> Some (keyword_part ''LOCAL:'' p)
      | TokenFile \<Rightarrow> (case readPath (advance p) of (path, p1) \<Rightarrow> Some ([''FILE '' @ path], p1))
      | TokenMaplocal \<Rightarrow> Some (keyword_part ''MAPLOCAL:'' p)
      | TokenIdentifier \<Rightarrow> Some ([lit p], advance p)
      | TokenString \<Rightarrow> Some ([lit p], advance p)
      | _ \<Rightarrow> None)"

context parser_frame
begin

lemma R_readPath: "R p (snd (readPath p))"
  by (auto simp: readPath_def Let_def at_slash_def isAtEnd_def isAtNewline_def intro!: R_refl R_type
      intro: R_trans [OF R_type R_type])

lemma R_read_names: "R p (snd (read_names m p))"
proof (induction m p rule: read_names.induct)
  case (1 m p)
  show ?case
  proof (cases "ctype p = TokenIdentifier")
    case True
    then have "R (advance p) (snd (read_names (mput (lit p) True m) (advance p)))" by (rule "1.IH")
    with True show ?thesis
      by (subst read_names.simps) (simp add: R_trans [OF R_type [of p]])
  next
    case False
    then show ?thesis by (subst read_names.simps) (simp add: R_refl)
  qed
qed

lemma R_keyword_part: "keyword_part pre p = (parts, p') \<Longrightarrow> R (advance p) p'"
  by (auto simp: keyword_part_def Let_def intro!: R_refl R_type split: if_splits)

lemma R_value_part:
  assumes "value_part p = Some (parts, p')"
  shows "R (advance p) p'" "\<not> isAtEnd p"
  using assms R_readPath [of "advance p"] R_refl [of "advance p"]
  by (auto simp: value_part_def isAtEnd_def split: TokenType.splits prod.splits dest: R_keyword_part)

end

function value_parts :: "string list \<Rightarrow> parser \<Rightarrow> string list \<times> parser" where
  "value_parts parts p =
     (if \<not> isAtNewline p \<and> \<not> isAtEnd p then
        (case value_part p of
           Some (new, p1) \<Rightarrow> value_parts (parts @ new) p1
         | None \<Rightarrow> (parts, p))
      else (parts, p))"
  by pat_completeness auto
termination
proof (relation "measure (\<lambda>(_, p). psize p)", simp)
  fix parts p x new p1
  assume "value_part p = Some x" "(new, p1) = x"
  then show "((parts @ new, p1), parts, p) \<in> measure (\<lambda>(_, p). psize p)"
    using shrink.R_value_part [of p new p1] psize_after [of p p1] by auto
qed

declare value_parts.simps [simp del]

definition parseValue :: "parser \<Rightarrow> string \<times> parser" where
  "parseValue p = (case value_parts [] p of (parts, p1) \<Rightarrow> (join_with '' '' parts, p1))"

context parser_frame
begin

lemma R_value_parts: "R p (snd (value_parts parts p))"
proof (induction parts p rule: value_parts.induct)
  case (1 parts p)
  show ?case
  proof (cases "\<not> isAtNewline p \<and> \<not> isAtEnd p \<and> value_part p \<noteq> None")
    case True
    then obtain new p1 where vp: "value_part p = Some (new, p1)" by auto
    have "R p (snd (value_parts (parts @ new) p1))"
      using R_trans [OF R_after [OF _ R_value_part(1) [OF vp]] "1.IH" [OF _ vp refl]] True by simp
    with True vp show ?thesis by (subst value_parts.simps) simp
  next
    case False
    then show ?thesis by (subst value_parts.simps) (auto simp: R_refl split: option.split)
  qed
qed

lemma R_parseValue: "R p (snd (parseValue p))"
  using R_value_parts [of p "[]"] by (simp add: parseValue_def case_prod_unfold)

end

section \<open>Directives\<close>

type_synonym 'a parsed = "(parse_error + 'a) \<times> parser"

definition parseRewrite :: "MtaConfigSection \<Rightarrow> parser \<Rightarrow> MtaConfigSection parsed" where
  "parseRewrite section p0 =
     (case readPath (advance p0) of (source, p1) \<Rightarrow>
      if source = [] then (Inl (ExpectedSource (line_of p1)), p1)
      else (case readPath p1 of (dest, p2) \<Rightarrow>
        if dest = [] then (Inl (ExpectedDestination (line_of p2)), p2)
        else
          let p3 = (if ctype p2 = TokenMode then advance p2 else p2) in
          if ctype p2 = TokenMode \<and> ctype p3 \<noteq> TokenString \<and> ctype p3 \<noteq> TokenIdentifier
          then (Inl (ExpectedModeValue (line_of p3)), p3)
          else
            let mode = (if ctype p2 = TokenMode then lit p3 else []);
                p4 = (if ctype p2 = TokenMode then advance p3 else p3) in
            (Inr (section\<lparr>sec_rewrites :=
                    mput source \<lparr>rwe_value = dest, rwe_mode = mode\<rparr> (sec_rewrites section)\<rparr>),
             skipToNewline p4)))"

definition parseRequiredVarDirective :: "string \<Rightarrow> string \<Rightarrow> MtaConfigSection \<Rightarrow> parser \<Rightarrow> MtaConfigSection parsed" where
  "parseRequiredVarDirective configType what section p0 =
     (let p1 = advance p0 in
      if ctype p1 \<noteq> TokenIdentifier then (Inl (ExpectedVarName what (line_of p1)), p1)
      else (Inr (section\<lparr>sec_required := mput (lit p1) configType (sec_required section)\<rparr>),
            skipToNewline (advance p1)))"

definition parseVar :: "MtaConfigSection \<Rightarrow> parser \<Rightarrow> MtaConfigSection parsed" where
  "parseVar = parseRequiredVarDirective ''VAR'' ''variable name''"

definition parseLocal :: "MtaConfigSection \<Rightarrow> parser \<Rightarrow> MtaConfigSection parsed" where
  "parseLocal = parseRequiredVarDirective ''LOCAL'' ''local variable name''"

definition parseMapfile :: "MtaConfigSection \<Rightarrow> parser \<Rightarrow> MtaConfigSection parsed" where
  "parseMapfile = parseRequiredVarDirective ''MAPFILE'' ''variable name''"

definition parseMaplocal :: "MtaConfigSection \<Rightarrow> parser \<Rightarrow> MtaConfigSection parsed" where
  "parseMaplocal = parseRequiredVarDirective ''MAPLOCAL'' ''variable name''"

text \<open>The key a value refers to; an empty name is no lookup.\<close>

record cf_lookup =
  lk_name :: string
  lk_typ :: string

definition no_lookup :: cf_lookup where
  "no_lookup = \<lparr>lk_name = [], lk_typ = []\<rparr>"

definition register :: "cf_lookup \<Rightarrow> string smap \<Rightarrow> string smap" where
  "register lk vars = (if lk_name lk \<noteq> [] then mput (lk_name lk) (lk_typ lk) vars else vars)"

definition lookupType :: "bool \<Rightarrow> parser \<Rightarrow> string \<times> bool" where
  "lookupType allowMapLocal p =
     (let types = [''VAR'', ''LOCAL'', ''FILE''] @ (if allowMapLocal then [''MAPLOCAL''] else []) in
      case ctype p of
        TokenVar \<Rightarrow> (''VAR'', True)
      | TokenLocal \<Rightarrow> (''LOCAL'', True)
      | TokenFile \<Rightarrow> (''FILE'', True)
      | TokenMaplocal \<Rightarrow> (''MAPLOCAL'', allowMapLocal)
      | TokenIdentifier \<Rightarrow> if list_ex (has_prefix (lit p)) types then (lit p, True) else ([], False)
      | TokenString \<Rightarrow> if list_ex (has_prefix (lit p)) types then (lit p, True) else ([], False)
      | _ \<Rightarrow> ([], False))"

definition readLookupKey :: "string \<Rightarrow> bool \<Rightarrow> parser \<Rightarrow> string \<times> parser" where
  "readLookupKey cfgType exact p =
     (if exact \<and> cfgType = ''FILE'' then readPath p
      else if ctype p \<noteq> TokenIdentifier \<and> ctype p \<noteq> TokenString then ([], p)
      else (lit p, advance p))"

definition formatLookup :: "string \<Rightarrow> string \<Rightarrow> bool \<Rightarrow> string" where
  "formatLookup cfgType name exact =
     (if exact \<and> cfgType = ''FILE'' then ''FILE'' @ '' '' @ name else cfgType @ '':'' @ name)"

definition parseLiteralValue :: "bool \<Rightarrow> parser \<Rightarrow> string \<times> parser" where
  "parseLiteralValue allowMapLocal p =
     (if ctype p \<noteq> TokenMaplocal \<or> allowMapLocal then parseValue p
      else (case parseValue (advance p) of (rest, p1) \<Rightarrow>
        (if rest \<noteq> [] then lit p @ '' '' @ rest else lit p, p1)))"

definition parsePostconfLine :: "string \<Rightarrow> bool \<Rightarrow> parser \<Rightarrow> (string \<times> string \<times> cf_lookup) parsed" where
  "parsePostconfLine directive allowMapLocal p0 =
     (let p1 = advance p0 in
      if ctype p1 \<noteq> TokenIdentifier then (Inl (ExpectedParameter directive (line_of p1)), p1)
      else
        let key = lit p1; p2 = advance p1 in
        if isAtNewline p2 \<or> isAtEnd p2 then (Inr (key, [], no_lookup), p2)
        else (case lookupType allowMapLocal p2 of (cfgType, ok) \<Rightarrow>
          if \<not> ok then
            (case parseLiteralValue allowMapLocal p2 of (v, p3) \<Rightarrow> (Inr (key, v, no_lookup), p3))
          else
            let exact = (ctype p2 \<noteq> TokenIdentifier \<and> ctype p2 \<noteq> TokenString) in
            (case readLookupKey cfgType exact (advance p2) of (name, p3) \<Rightarrow>
              if name = [] then (Inl (ExpectedKeyAfter cfgType directive (line_of p2)), p3)
              else (Inr (key, formatLookup cfgType name exact, \<lparr>lk_name = name, lk_typ = cfgType\<rparr>), p3))))"

definition parsePostconf :: "MtaConfigSection \<Rightarrow> parser \<Rightarrow> MtaConfigSection parsed" where
  "parsePostconf section p0 =
     (case parsePostconfLine ''POSTCONF'' True p0 of
        (Inl e, p1) \<Rightarrow> (Inl e, p1)
      | (Inr (key, v, lk), p1) \<Rightarrow>
          (Inr (section\<lparr>sec_postconf := mput key v (sec_postconf section),
                        sec_required := register lk (sec_required section)\<rparr>),
           skipToNewline p1))"

definition parsePostconfd :: "MtaConfigSection \<Rightarrow> parser \<Rightarrow> MtaConfigSection parsed" where
  "parsePostconfd section p0 =
     (case parsePostconfLine ''POSTCONFD'' False p0 of
        (Inl e, p1) \<Rightarrow> (Inl e, p1)
      | (Inr (key, _, lk), p1) \<Rightarrow>
          (Inr (section\<lparr>sec_postconfd := mput key [] (sec_postconfd section),
                        sec_required := register lk (sec_required section)\<rparr>),
           skipToNewline p1))"

definition parseRestart :: "MtaConfigSection \<Rightarrow> parser \<Rightarrow> MtaConfigSection parsed" where
  "parseRestart section p0 =
     (case read_names (sec_restarts section) (advance p0) of
        (names, p1) \<Rightarrow> (Inr (section\<lparr>sec_restarts := names\<rparr>), skipToNewline p1))"

definition isLdapLocalValue :: "string \<Rightarrow> bool" where
  "isLdapLocalValue v \<longleftrightarrow> has_prefix v ''LOCAL:'' \<or> has_prefix v ''MAPLOCAL:''"

definition parseLdapDirective :: "parser \<Rightarrow> (string \<times> string \<times> bool) parsed" where
  "parseLdapDirective p0 =
     (let p1 = advance p0 in
      if ctype p1 \<noteq> TokenIdentifier then (Inl (ExpectedLdapKey (line_of p1)), p1)
      else (case parseValue (advance p1) of (v, p2) \<Rightarrow>
        (Inr (lit p1, v, isLdapLocalValue v), skipToNewline p2)))"

definition parseLdap :: "MtaConfigSection \<Rightarrow> parser \<Rightarrow> MtaConfigSection parsed" where
  "parseLdap section p0 =
     (case parseLdapDirective p0 of
        (Inl e, p1) \<Rightarrow> (Inl e, p1)
      | (Inr (key, v, ok), p1) \<Rightarrow>
          (Inr (if ok then section\<lparr>sec_ldap := mput key v (sec_ldap section)\<rparr> else section), p1))"

definition parseProxygen :: "MtaConfigSection \<Rightarrow> parser \<Rightarrow> MtaConfigSection parsed" where
  "parseProxygen section p0 = (Inr (section\<lparr>sec_proxygen := True\<rparr>), skipToNewline (advance p0))"

context parser_frame
begin

lemma R_step:
  "R p q \<Longrightarrow> R p (skipToNewline q)" "R p q \<Longrightarrow> R p (skipToNextSection q)"
  "R p q \<Longrightarrow> R p (snd (readPath q))" "R p q \<Longrightarrow> R p (snd (read_names m q))"
  "R p q \<Longrightarrow> R p (snd (parseValue q))" "R p q \<Longrightarrow> R p (q\<lparr>ps_errors := ps_errors q @ [e]\<rparr>)"
  using R_trans R_skips R_readPath R_read_names R_parseValue R_error by blast+

lemma R_next: "R p q \<Longrightarrow> \<not> isAtEnd q \<Longrightarrow> R p (advance q)"
  using R_trans R_advance by blast

lemma R_next2: "R p q \<Longrightarrow> \<not> isAtEnd q \<Longrightarrow> \<not> isAtEnd (advance q) \<Longrightarrow> R p (advance (advance q))"
  by (intro R_next)

lemma R_skip_strict: "\<not> stop p \<Longrightarrow> \<not> isAtEnd p \<Longrightarrow> R (advance p) (skip_until stop p)"
  using R_skip_until [of "advance p" stop] by (subst skip_until.simps) simp

lemma R_parseRewrite: "R (advance p) (snd (parseRewrite sec p))"
  by (auto simp: parseRewrite_def Let_def case_prod_unfold isAtEnd_def intro!: R_step intro: R_refl R_next R_next2)

lemma R_parseRequiredVarDirective: "R (advance p) (snd (parseRequiredVarDirective ct what sec p))"
  by (auto simp: parseRequiredVarDirective_def Let_def isAtEnd_def intro!: R_step intro: R_refl R_next)

lemma R_readLookupKey: "R p q \<Longrightarrow> R p (snd (readLookupKey ct exact q))"
  by (auto simp: readLookupKey_def isAtEnd_def intro!: R_step intro: R_next)

lemma R_parseLiteralValue: "R p q \<Longrightarrow> R p (snd (parseLiteralValue allow q))"
  by (auto simp: parseLiteralValue_def case_prod_unfold isAtEnd_def intro!: R_step intro: R_next)

lemma R_parsePostconfLine: "R (advance p) (snd (parsePostconfLine d allow p))"
proof -
  have "R (advance p) (advance (advance p))" if "ctype (advance p) = TokenIdentifier"
    using that by (simp add: R_type)
  then show ?thesis
    by (auto simp: parsePostconfLine_def Let_def case_prod_unfold R_refl
        intro!: R_readLookupKey R_parseLiteralValue intro: R_next)
qed

lemma R_postconf_directives:
  "R (advance p) (snd (parsePostconf sec p))" "R (advance p) (snd (parsePostconfd sec p))"
  using R_parsePostconfLine [of p "''POSTCONF''" True] R_parsePostconfLine [of p "''POSTCONFD''" False]
  by (auto simp: parsePostconf_def parsePostconfd_def split: prod.split sum.split intro!: R_step)

lemma R_other_directives:
  "R (advance p) (snd (parseRestart sec p))" "R (advance p) (snd (parseLdap sec p))"
  "R (advance p) (snd (parseProxygen sec p))"
proof -
  show "R (advance p) (snd (parseRestart sec p))" "R (advance p) (snd (parseProxygen sec p))"
    by (auto simp: parseRestart_def parseProxygen_def case_prod_unfold R_refl intro!: R_step)
  show "R (advance p) (snd (parseLdap sec p))"
    by (auto simp: parseLdap_def parseLdapDirective_def Let_def case_prod_unfold isAtEnd_def R_refl
        intro!: R_step intro: R_next)
qed

end

section \<open>Conditionals\<close>

definition parseConditionalRequiredVar :: "Conditional \<Rightarrow> parser \<Rightarrow> Conditional parsed" where
  "parseConditionalRequiredVar cond p0 =
     (let cfgType = (if ctype p0 = TokenLocal then ''LOCAL'' else ''VAR''); p1 = advance p0 in
      if ctype p1 \<noteq> TokenIdentifier then (Inl (ExpectedVarAfter cfgType (line_of p0)), p1)
      else (Inr (cond\<lparr>cond_required := mput (lit p1) cfgType (cond_required cond)\<rparr>), p1))"

definition parseConditionalLine :: "Conditional \<Rightarrow> parser \<Rightarrow> Conditional parsed" where
  "parseConditionalLine cond p0 =
     (case ctype p0 of
        TokenPostconf \<Rightarrow>
          (case parsePostconfLine ''POSTCONF'' False p0 of
             (Inl e, p1) \<Rightarrow> (Inl e, p1)
           | (Inr (key, v, lk), p1) \<Rightarrow>
               (Inr (cond\<lparr>cond_postconf := mput key v (cond_postconf cond),
                          cond_required := register lk (cond_required cond)\<rparr>), skipToNewline p1))
      | TokenPostconfd \<Rightarrow>
          (case parsePostconfLine ''POSTCONFD'' False p0 of
             (Inl e, p1) \<Rightarrow> (Inl e, p1)
           | (Inr (key, _, lk), p1) \<Rightarrow>
               (Inr (cond\<lparr>cond_postconfd := mput key [] (cond_postconfd cond),
                          cond_required := register lk (cond_required cond)\<rparr>), skipToNewline p1))
      | TokenVar \<Rightarrow> parseConditionalRequiredVar cond p0
      | TokenLocal \<Rightarrow> parseConditionalRequiredVar cond p0
      | _ \<Rightarrow> (Inr cond, skipToNewline p0))"

context parser_frame
begin

lemma R_parseConditionalLine:
  assumes "\<not> isAtEnd p" "\<not> isAtNewline p"
  shows "R (advance p) (snd (parseConditionalLine cond p))"
proof -
  have skip: "R (advance p) (skipToNewline p)"
    using assms by (simp add: skipToNewline_def R_skip_strict)
  have var: "R (advance p) (snd (parseConditionalRequiredVar cond p))"
    by (simp add: parseConditionalRequiredVar_def Let_def R_refl)
  show ?thesis
    using skip var R_parsePostconfLine [of p "''POSTCONF''" False] R_parsePostconfLine [of p "''POSTCONFD''" False]
    by (auto simp: parseConditionalLine_def split: TokenType.split prod.split sum.split intro!: R_step)
qed

end

function parseConditionalBody :: "Conditional \<Rightarrow> parser \<Rightarrow> Conditional parsed" where
  "parseConditionalBody cond p =
     (if isAtNewline p then parseConditionalBody cond (advance p)
      else if ctype p = TokenFi then (Inr cond, skipToNewline p)
      else if isAtEnd p \<or> ctype p = TokenSection then
        (Inl (UnterminatedIf (cond_type cond) (cond_key cond) (line_of p)), p)
      else (case parseConditionalLine cond p of
              (Inl e, p1) \<Rightarrow> (Inl e, p1)
            | (Inr cond1, p1) \<Rightarrow> parseConditionalBody cond1 p1))"
  by pat_completeness auto
termination
proof (relation "measure (\<lambda>(_, p). psize p)", simp)
  show "((cond, advance p), cond, p) \<in> measure (\<lambda>(_, p). psize p)" if "isAtNewline p" for cond p
    using that psize_advance [of p] by (simp add: isAtNewline_def isAtEnd_def)
  show "((cond1, p1), cond, p) \<in> measure (\<lambda>(_, p). psize p)"
    if "\<not> isAtNewline p" "\<not> (isAtEnd p \<or> ctype p = TokenSection)"
      "(r, p1) = parseConditionalLine cond p" for cond p r p1 cond1
    using that shrink.R_parseConditionalLine [of p cond] psize_after [of p p1]
    by (simp add: that(3) [symmetric])
qed

declare parseConditionalBody.simps [simp del]

definition parseConditionalHeader :: "parser \<Rightarrow> (string \<times> string \<times> bool) parsed" where
  "parseConditionalHeader p0 =
     (let p1 = advance p0 in
      if ctype p1 \<noteq> TokenService \<and> ctype p1 \<noteq> TokenVar
      then (Inl (ExpectedConditionType (line_of p1) (ctype p1)), p1)
      else
        let condType = to_upper (lit p1); p2 = advance p1 in
        if ctype p2 \<noteq> TokenIdentifier then (Inl (ExpectedConditionKey (line_of p2)), p2)
        else
          let negated = has_prefix (lit p2) ''!'';
              condKey = (if negated then drop 1 (lit p2) else lit p2) in
          (Inr (condType, condKey, negated), advance p2))"

definition parseConditional :: "MtaConfigSection \<Rightarrow> parser \<Rightarrow> MtaConfigSection parsed" where
  "parseConditional section p0 =
     (case parseConditionalHeader p0 of
        (Inl e, p1) \<Rightarrow> (Inl e, p1)
      | (Inr (condType, condKey, negated), p1) \<Rightarrow>
          (case parseConditionalBody
                  \<lparr>cond_type = condType, cond_key = condKey, cond_negated = negated,
                   cond_postconf = [], cond_postconfd = [], cond_required = []\<rparr> (skipToNewline p1) of
             (Inl e, p2) \<Rightarrow> (Inl e, p2)
           | (Inr cond, p2) \<Rightarrow>
               (Inr (section\<lparr>sec_conditionals := sec_conditionals section @ [cond]\<rparr>), p2)))"

context parser_frame
begin

lemma R_parseConditionalBody: "R p (snd (parseConditionalBody cond p))"
proof (induction cond p rule: parseConditionalBody.induct)
  case (1 cond p)
  consider "isAtNewline p" | "\<not> isAtNewline p" "ctype p = TokenFi \<or> isAtEnd p \<or> ctype p = TokenSection"
    | "\<not> isAtNewline p" "ctype p \<noteq> TokenFi" "\<not> (isAtEnd p \<or> ctype p = TokenSection)"
    by blast
  then show ?case
  proof cases
    case 1
    have "R p (snd (parseConditionalBody cond (advance p)))"
      by (rule R_after [OF _ "1.IH"(1) [OF 1]]) (use 1 in \<open>simp add: isAtNewline_def isAtEnd_def\<close>)
    then show ?thesis using 1 by (subst parseConditionalBody.simps) simp
  next
    case 2
    then show ?thesis by (subst parseConditionalBody.simps) (auto simp: R_refl)
  next
    case 3
    obtain r p1 where line: "parseConditionalLine cond p = (r, p1)" by fastforce
    have p1: "R p p1"
      using R_after [OF _ R_parseConditionalLine [of p cond]] 3 line by simp
    show ?thesis
    proof (cases r)
      case (Inl e)
      with 3 line p1 show ?thesis by (subst parseConditionalBody.simps) simp
    next
      case (Inr cond1)
      have "R p1 (snd (parseConditionalBody cond1 p1))"
        by (rule "1.IH"(2) [OF 3 line [symmetric] Inr])
      with 3 line p1 Inr show ?thesis by (subst parseConditionalBody.simps) (simp add: R_trans [OF p1])
    qed
  qed
qed

lemma R_parseConditional: "R (advance p) (snd (parseConditional sec p))"
proof -
  have header: "R (advance p) (snd (parseConditionalHeader p))"
    by (auto simp: parseConditionalHeader_def Let_def isAtEnd_def intro: R_refl R_next R_next2)
  show ?thesis
    using header R_trans [OF R_step(1) R_parseConditionalBody]
    by (auto simp: parseConditional_def split: prod.splits sum.splits dest: arg_cong [where f = snd])
      (metis snd_conv)+
qed

end

section \<open>Sections\<close>

definition parseDirective :: "MtaConfigSection \<Rightarrow> parser \<Rightarrow> MtaConfigSection parsed" where
  "parseDirective section p =
     (case ctype p of
        TokenRewrite \<Rightarrow> parseRewrite section p
      | TokenVar \<Rightarrow> parseVar section p
      | TokenLocal \<Rightarrow> parseLocal section p
      | TokenMapfile \<Rightarrow> parseMapfile section p
      | TokenMaplocal \<Rightarrow> parseMaplocal section p
      | TokenPostconf \<Rightarrow> parsePostconf section p
      | TokenPostconfd \<Rightarrow> parsePostconfd section p
      | TokenRestart \<Rightarrow> parseRestart section p
      | TokenProxygen \<Rightarrow> parseProxygen section p
      | TokenIf \<Rightarrow> parseConditional section p
      | TokenFi \<Rightarrow> (Inr section, skipToNewline p)
      | TokenIdentifier \<Rightarrow>
          if equal_fold (lit p) ''LDAP'' then parseLdap section p
          else (Inl (UnknownDirective (lit p) (line_of p)), p)
      | _ \<Rightarrow> (Inl (UnexpectedToken (ctype p) (line_of p)), p))"

context parser_frame
begin

lemma R_parseDirective_Inr:
  assumes "parseDirective sec p = (Inr sec', p')"
  shows "R (advance p) p'" "\<not> isAtEnd p"
proof -
  have fi: "R (advance p) (skipToNewline p)" if "ctype p = TokenFi"
    using that by (simp add: skipToNewline_def R_skip_strict isAtEnd_def isAtNewline_def)
  have p': "p' = snd (parseDirective sec p)" using assms by simp
  show "R (advance p) p'"
    using assms fi R_parseRewrite R_parseRequiredVarDirective R_postconf_directives R_other_directives
      R_parseConditional
    unfolding p'
    by (auto simp: parseDirective_def parseVar_def parseLocal_def parseMapfile_def parseMaplocal_def
        split: TokenType.splits if_splits)
  show "\<not> isAtEnd p" using assms by (auto simp: parseDirective_def isAtEnd_def split: TokenType.splits)
qed

lemma R_parseDirective_Inl:
  assumes "parseDirective sec p = (Inl e, p')" "\<not> isAtEnd p"
  shows "R p p'"
proof -
  have p': "p' = snd (parseDirective sec p)" using assms by simp
  have "p' = p \<or> R (advance p) p'"
    using assms(1) R_parseRewrite R_parseRequiredVarDirective R_postconf_directives R_other_directives
      R_parseConditional
    unfolding p'
    by (auto simp: parseDirective_def parseVar_def parseLocal_def parseMapfile_def parseMaplocal_def
        split: TokenType.splits if_splits)
  then show ?thesis using R_after [OF assms(2)] R_refl by blast
qed

end

text \<open>The loop over the lines of a section.\<close>

function section_body :: "MtaConfigSection \<Rightarrow> parser \<Rightarrow> MtaConfigSection parsed" where
  "section_body section p =
     (if \<not> isAtEnd p \<and> \<not> isNextSection p then
        if isAtNewline p then section_body section (advance p)
        else (case parseDirective section p of
                (Inl e, p1) \<Rightarrow> (Inl e, p1)
              | (Inr section1, p1) \<Rightarrow> section_body section1 p1)
      else (Inr section, p))"
  by pat_completeness auto
termination
proof (relation "measure (\<lambda>(_, p). psize p)", simp)
  show "((sec, advance p), sec, p) \<in> measure (\<lambda>(_, p). psize p)"
    if "\<not> isAtEnd p \<and> \<not> isNextSection p" for sec :: MtaConfigSection and p
    using that psize_advance [of p] by simp
  show "((sec1, p1), sec, p) \<in> measure (\<lambda>(_, p). psize p)"
    if "(r, p1) = parseDirective sec p" "r = Inr sec1" for sec p r p1 sec1
    using shrink.R_parseDirective_Inr [of sec p sec1 p1] psize_after [of p p1] that by simp
qed

declare section_body.simps [simp del]

definition new_section :: "string \<Rightarrow> MtaConfigSection" where
  "new_section sectionName =
     \<lparr>sec_name = sectionName, sec_depends = [], sec_rewrites = [], sec_restarts = [], sec_required = [],
      sec_postconf = [], sec_postconfd = [], sec_ldap = [], sec_proxygen = False, sec_conditionals = []\<rparr>"

definition skip_newlines :: "parser \<Rightarrow> parser" where
  "skip_newlines p = skip_until (\<lambda>q. \<not> isAtNewline q) p"

definition parseSection :: "MtaConfig \<Rightarrow> parser \<Rightarrow> MtaConfig parsed" where
  "parseSection mtaConfig p0 =
     (let p1 = skip_newlines p0 in
      if isAtEnd p1 then (Inr mtaConfig, p1)
      else if ctype p1 \<noteq> TokenSection then (Inl (ExpectedSection (line_of p1) (ctype p1)), p1)
      else
        let p2 = advance p1 in
        if ctype p2 \<noteq> TokenIdentifier then (Inl (ExpectedSectionName (line_of p2)), p2)
        else
          let sectionName = lit p2; p3 = advance p2 in
          case (if ctype p3 = TokenDepends then read_names [] (advance p3) else ([], p3)) of
            (depends, p4) \<Rightarrow>
              if ctype p4 \<noteq> TokenNewline then (Inl (ExpectedHeaderNewline (line_of p4)), p4)
              else
                (case section_body ((new_section sectionName)\<lparr>sec_depends := depends\<rparr>) (advance p4) of
                   (Inl e, p5) \<Rightarrow> (Inl e, p5)
                 | (Inr section, p5) \<Rightarrow>
                     (Inr (mtaConfig\<lparr>mta_sections :=
                             mput sectionName (Some section) (mta_sections mtaConfig)\<rparr>), p5)))"

text \<open>One round of the loop of \<open>ParseString\<close>: a failing section is recorded and left out.\<close>

definition next_section :: "MtaConfig \<Rightarrow> parser \<Rightarrow> MtaConfig \<times> parser" where
  "next_section mtaConfig p =
     (case parseSection mtaConfig p of
        (Inl e, p1) \<Rightarrow> (mtaConfig, skipToNextSection (p1\<lparr>ps_errors := ps_errors p1 @ [e]\<rparr>))
      | (Inr mtaConfig1, p1) \<Rightarrow> (mtaConfig1, p1))"

context parser_frame
begin

lemma R_section_body: "R p (snd (section_body sec p))"
proof (induction sec p rule: section_body.induct)
  case (1 sec p)
  consider "isAtEnd p \<or> isNextSection p" | "\<not> isAtEnd p \<and> \<not> isNextSection p" "isAtNewline p"
    | "\<not> isAtEnd p \<and> \<not> isNextSection p" "\<not> isAtNewline p"
    by blast
  then show ?case
  proof cases
    case 1
    then show ?thesis by (subst section_body.simps) (auto simp: R_refl)
  next
    case 2
    with R_after [OF _ "1.IH"(1) [OF 2]] show ?thesis by (subst section_body.simps) simp
  next
    case 3
    obtain r p1 where d: "parseDirective sec p = (r, p1)" by fastforce
    show ?thesis
    proof (cases r)
      case (Inl e)
      with 3 d R_parseDirective_Inl [of sec p e p1] show ?thesis by (subst section_body.simps) simp
    next
      case (Inr sec1)
      have "R p p1" using R_after [of p p1] R_parseDirective_Inr [of sec p sec1 p1] d Inr by simp
      from R_trans [OF this "1.IH"(2) [OF 3 d [symmetric] Inr]] show ?thesis
        using 3 d Inr by (subst section_body.simps) simp
    qed
  qed
qed

lemma R_parseSection:
  assumes "\<not> isAtEnd (skip_newlines p)" "ctype (skip_newlines p) = TokenSection"
  shows "R (advance (skip_newlines p)) (snd (parseSection cfg p))"
proof -
  let ?p = "advance (skip_newlines p)"
  have names: "R ?p (snd (if ctype (advance ?p) = TokenDepends then read_names [] (advance (advance ?p))
      else ([], advance ?p)))" if "ctype ?p = TokenIdentifier"
    using that by (auto simp: isAtEnd_def intro!: R_step intro: R_refl R_next R_next2)
  have body: "R ?p (snd (section_body sec (advance q)))" if "R ?p q" "ctype q = TokenNewline" for q sec
    using R_trans [OF R_next [OF that(1)] R_section_body] that(2) by (simp add: isAtEnd_def)
  show ?thesis
  proof (cases "ctype ?p = TokenIdentifier")
    case True
    obtain depends p4 where p4: "(if ctype (advance ?p) = TokenDepends then read_names [] (advance (advance ?p))
        else ([], advance ?p)) = (depends, p4)" by fastforce
    then have "R ?p p4" using names [OF True] by simp
    then show ?thesis
      using assms True body [of p4 "(new_section (lit ?p))\<lparr>sec_depends := depends\<rparr>"]
      by (simp add: parseSection_def Let_def p4 case_prod_unfold split: sum.split)
  next
    case False
    then show ?thesis using assms by (simp add: parseSection_def Let_def R_refl)
  qed
qed

lemma R_skip_newlines: "R p (skip_newlines p)"
  by (simp add: skip_newlines_def R_skip_until)

lemma R_parseSection_all: "R p (snd (parseSection cfg p))"
proof (cases "\<not> isAtEnd (skip_newlines p) \<and> ctype (skip_newlines p) = TokenSection")
  case True
  then show ?thesis
    using R_trans [OF R_skip_newlines [of p] R_after [OF _ R_parseSection]] by blast
next
  case False
  then show ?thesis using R_skip_newlines [of p] by (auto simp: parseSection_def Let_def)
qed

lemma R_next_section: "R p (snd (next_section cfg p))"
  using R_parseSection_all [of p cfg]
  by (auto simp: next_section_def split: prod.split sum.split intro!: R_step)

end

text \<open>A round reads at least the token the section starts with, or ends at the end of the file.\<close>

lemma next_section_shrinks:
  assumes "\<not> isAtEnd p"
  shows "psize (snd (next_section cfg p)) < psize p"
proof -
  let ?q = "skip_newlines p"
  have q: "psize ?q \<le> psize p" by (rule shrink.R_skip_newlines)
  consider "isAtEnd ?q" | "\<not> isAtEnd ?q" "ctype ?q = TokenSection" | "\<not> isAtEnd ?q" "ctype ?q \<noteq> TokenSection"
    by blast
  then show ?thesis
  proof cases
    case 1
    then show ?thesis using assms by (simp add: next_section_def parseSection_def psize_def)
  next
    case 2
    have le: "psize (snd (parseSection cfg p)) \<le> psize (advance ?q)" by (rule shrink.R_parseSection [OF 2])
    have skip: "psize (skipToNextSection (x\<lparr>ps_errors := es\<rparr>)) \<le> psize x" for x es
      by (rule order_trans [OF shrink.R_skips(2)]) simp
    have "psize (snd (next_section cfg p)) \<le> psize (snd (parseSection cfg p))"
      by (simp add: next_section_def skip split: prod.split sum.split)
    from psize_after [OF 2(1) order_trans [OF this le]] q show ?thesis by simp
  next
    case 3
    let ?e = "?q\<lparr>ps_errors := ps_errors ?q @ [ExpectedSection (line_of ?q) (ctype ?q)]\<rparr>"
    have "psize (skipToNextSection ?e) < psize ?e"
      using 3 psize_after [of ?e] shrink.R_skip_strict [of isNextSection ?e]
      by (simp add: skipToNextSection_def isNextSection_def)
    then show ?thesis using 3 q by (simp add: next_section_def parseSection_def Let_def)
  qed
qed

section \<open>The whole file\<close>

function parse_sections :: "MtaConfig \<Rightarrow> parser \<Rightarrow> MtaConfig \<times> parser" where
  "parse_sections mtaConfig p =
     (if \<not> isAtEnd p then (case next_section mtaConfig p of (cfg1, p1) \<Rightarrow> parse_sections cfg1 p1)
      else (mtaConfig, p))"
  by pat_completeness auto
termination
proof (relation "measure (\<lambda>(_, p). psize p)", simp)
  show "((cfg1, p1), cfg, p) \<in> measure (\<lambda>(_, p). psize p)"
    if "\<not> isAtEnd p" "(cfg1, p1) = next_section cfg p" for cfg p cfg1 p1
    using next_section_shrinks [OF that(1), of cfg] by (simp add: that(2) [symmetric])
qed

declare parse_sections.simps [simp del]

datatype cf_error =
    EmptyConfigFile
  | ParseErrors "parse_error list"
  | ReadFailed string

text \<open>The configuration (\<open>None\<close> is nil), the error (\<open>None\<close> is nil) and the parser afterwards.\<close>

definition ParseString :: "string \<Rightarrow> parser \<Rightarrow> MtaConfig option \<times> cf_error option \<times> parser" where
  "ParseString content p =
     (if content = [] then (None, Some EmptyConfigFile, p)
      else
        (case parse_sections \<lparr>mta_sections = []\<rparr> (advance (p\<lparr>ps_lexer := NewLexer content\<rparr>)) of
           (mtaConfig, p1) \<Rightarrow>
             (Some mtaConfig, if ps_errors p1 \<noteq> [] then Some (ParseErrors (ps_errors p1)) else None, p1)))"

text \<open>\<open>os.ReadFile\<close> over a file system given by the content of each readable path.\<close>

definition Parse :: "(string \<Rightarrow> string option) \<Rightarrow> string \<Rightarrow> parser \<Rightarrow> MtaConfig option \<times> cf_error option \<times> parser" where
  "Parse fs filepath p =
     (case fs filepath of
        None \<Rightarrow> (None, Some (ReadFailed filepath), p)
      | Some data \<Rightarrow> ParseString data p)"

context parser_frame
begin

lemma R_parse_sections: "R p (snd (parse_sections cfg p))"
proof (induction cfg p rule: parse_sections.induct)
  case (1 cfg p)
  show ?case
  proof (cases "isAtEnd p")
    case False
    obtain cfg1 p1 where n: "next_section cfg p = (cfg1, p1)" by fastforce
    have "R p p1" using R_next_section [of p cfg] n by simp
    from R_trans [OF this "1.IH" [OF False n [symmetric]]] show ?thesis
      using False n by (subst parse_sections.simps) simp
  qed (subst parse_sections.simps, simp add: R_refl)
qed

end

end
