(* ===== verification/Cf_Correct.thy ===== *)
theory Cf_Correct
  imports Cf_Parser
begin

text \<open>
  What the parser of \<open>zmconfigd.cf\<close> guarantees about the configuration it returns: it is well formed
  whatever the file holds, and a file is accepted only when it was read to its end.
\<close>

section \<open>The type of a configuration\<close>

text \<open>The types of lookup a required variable may name, as the prefix test of the parser has them.\<close>

definition lookup_type :: "string \<Rightarrow> bool" where
  "lookup_type t \<longleftrightarrow> list_ex (has_prefix t) [''VAR'', ''LOCAL'', ''FILE'', ''MAPLOCAL'', ''MAPFILE'']"

definition required_ok :: "string smap \<Rightarrow> bool" where
  "required_ok m \<longleftrightarrow> wf_map m \<and> mall (\<lambda>k t. k \<noteq> [] \<and> lookup_type t) m"

definition words_ok :: "(string \<Rightarrow> 'v \<Rightarrow> bool) \<Rightarrow> 'v smap \<Rightarrow> bool" where
  "words_ok P m \<longleftrightarrow> wf_map m \<and> mall (\<lambda>k v. is_word k \<and> P k v) m"

definition cond_ok :: "Conditional \<Rightarrow> bool" where
  "cond_ok c \<longleftrightarrow> (cond_type c = ''SERVICE'' \<or> cond_type c = ''VAR'') \<and> list_all isIdentifierChar (cond_key c) \<and>
     words_ok (\<lambda>_ _. True) (cond_postconf c) \<and> words_ok (\<lambda>_ v. v = []) (cond_postconfd c) \<and>
     required_ok (cond_required c)"

definition rewrites_ok :: "RewriteEntry smap \<Rightarrow> bool" where
  "rewrites_ok m \<longleftrightarrow> wf_map m \<and> mall (\<lambda>source e. source \<noteq> [] \<and> rwe_value e \<noteq> []) m"

definition section_ok :: "MtaConfigSection \<Rightarrow> bool" where
  "section_ok s \<longleftrightarrow> words_ok (\<lambda>_ v. v) (sec_depends s) \<and> rewrites_ok (sec_rewrites s) \<and>
     words_ok (\<lambda>_ v. v) (sec_restarts s) \<and> required_ok (sec_required s) \<and>
     words_ok (\<lambda>_ _. True) (sec_postconf s) \<and> words_ok (\<lambda>_ v. v = []) (sec_postconfd s) \<and>
     words_ok (\<lambda>_ v. isLdapLocalValue v) (sec_ldap s) \<and> list_all cond_ok (sec_conditionals s)"

definition config_ok :: "MtaConfig \<Rightarrow> bool" where
  "config_ok cfg \<longleftrightarrow>
     words_ok (\<lambda>n s. case s of None \<Rightarrow> False | Some sec \<Rightarrow> sec_name sec = n \<and> section_ok sec) (mta_sections cfg)"

lemma words_ok_mput: "words_ok P m \<Longrightarrow> is_word k \<Longrightarrow> P k v \<Longrightarrow> words_ok P (mput k v m)"
  by (auto simp: words_ok_def intro!: mall_mput)

lemma words_ok_Nil [simp]: "words_ok P []"
  by (simp add: words_ok_def)

lemma required_ok_mput: "required_ok m \<Longrightarrow> k \<noteq> [] \<Longrightarrow> lookup_type t \<Longrightarrow> required_ok (mput k t m)"
  by (auto simp: required_ok_def intro!: mall_mput)

lemma required_ok_Nil [simp]: "required_ok []"
  by (simp add: required_ok_def)

lemma rewrites_ok_mput:
  "rewrites_ok m \<Longrightarrow> k \<noteq> [] \<Longrightarrow> rwe_value e \<noteq> [] \<Longrightarrow> rewrites_ok (mput k e m)"
  by (auto simp: rewrites_ok_def intro!: mall_mput)

lemmas ok_mput = words_ok_mput required_ok_mput rewrites_ok_mput

lemma lookup_types [simp]:
  "lookup_type ''VAR''" "lookup_type ''LOCAL''" "lookup_type ''FILE''" "lookup_type ''MAPLOCAL''"
  "lookup_type ''MAPFILE''"
  by code_simp+

section \<open>Settled parsers\<close>

lemma settled_kept: "keeps_errors p q \<Longrightarrow> settled p \<Longrightarrow> settled q"
  by (simp add: keeps_errors_def)

lemmas settled_steps = settled_advance settled_kept [OF errs.R_readPath] settled_kept [OF errs.R_parseValue]
  settled_kept [OF errs.R_read_names] settled_kept [OF errs.R_skips(1)]

lemma settled_word: "settled p \<Longrightarrow> ctype p = TokenIdentifier \<Longrightarrow> is_word (lit p)"
  by (auto simp: settled_def tok_ok_def)

lemma is_word_nonempty: "is_word w \<Longrightarrow> w \<noteq> []"
  by (auto simp: is_word_def)

lemma settled_keyword: "settled p \<Longrightarrow> ctype p = TokenVar \<or> ctype p = TokenService \<Longrightarrow>
    to_upper (lit p) = (if ctype p = TokenVar then ''VAR'' else ''SERVICE'')"
proof -
  assume "settled p" "ctype p = TokenVar \<or> ctype p = TokenService"
  then have "ctype p = lookupKeyword (lit p)" by (auto simp: settled_def tok_ok_def)
  then have "mget keyword_tokens (to_upper (lit p)) = Some (ctype p)"
    using \<open>ctype p = TokenVar \<or> ctype p = TokenService\<close>
    by (auto simp: lookupKeyword_def split: option.splits)
  from map_of_SomeD [OF this] show ?thesis
    using \<open>ctype p = TokenVar \<or> ctype p = TokenService\<close> by (auto simp: keyword_tokens_def)
qed

section \<open>Each operation keeps the type\<close>

lemma read_names_ok:
  "settled p \<Longrightarrow> words_ok (\<lambda>_ v. v) m \<Longrightarrow> words_ok (\<lambda>_ v. v) (fst (read_names m p))"
proof (induction m p rule: read_names.induct)
  case (1 m p)
  show ?case
  proof (cases "ctype p = TokenIdentifier")
    case True
    have "words_ok (\<lambda>_ v. v) (fst (read_names (mput (lit p) True m) (advance p)))"
      by (rule "1.IH" [OF True settled_advance [OF "1.prems"(1)]])
        (auto intro!: ok_mput settled_word "1.prems" True)
    with True show ?thesis by (subst read_names.simps) simp
  next
    case False
    with "1.prems" show ?thesis by (subst read_names.simps) simp
  qed
qed

lemma lookupType_ok: "lookupType allow p = (ct, True) \<Longrightarrow> lookup_type ct"
  using lookup_types
  by (auto simp: lookupType_def Let_def lookup_type_def has_prefix_def split: TokenType.splits if_splits)

lemma parsePostconfLine_ok:
  assumes "settled p" "parsePostconfLine d allow p = (Inr (key, v, lk), p')"
  shows "is_word key" "lk_name lk \<noteq> [] \<longrightarrow> lookup_type (lk_typ lk)"
  using assms settled_word [OF settled_advance [OF assms(1)]]
  by (auto simp: parsePostconfLine_def Let_def no_lookup_def split: if_splits prod.splits dest: lookupType_ok)

lemma register_ok:
  "required_ok m \<Longrightarrow> (lk_name lk \<noteq> [] \<longrightarrow> lookup_type (lk_typ lk)) \<Longrightarrow> required_ok (register lk m)"
  by (auto simp: register_def intro!: ok_mput)

lemma parseRewrite_ok:
  assumes "section_ok sec" "parseRewrite sec p = (Inr sec', p')"
  shows "section_ok sec'"
  using assms
  by (auto simp: parseRewrite_def Let_def section_ok_def intro!: ok_mput split: prod.splits if_splits)

lemma parseRequiredVarDirective_ok:
  assumes "settled p" "section_ok sec" "lookup_type ct" "parseRequiredVarDirective ct what sec p = (Inr sec', p')"
  shows "section_ok sec'"
  using assms(2-) settled_word [OF settled_advance [OF assms(1)]] is_word_nonempty [of "lit (advance p)"]
  by (auto simp: parseRequiredVarDirective_def Let_def section_ok_def intro!: ok_mput split: if_splits)

lemma parsePostconf_ok:
  assumes "settled p" "section_ok sec"
  shows "parsePostconf sec p = (Inr sec', p') \<Longrightarrow> section_ok sec'"
    "parsePostconfd sec p = (Inr sec', p') \<Longrightarrow> section_ok sec'"
  using assms(2)
  by (auto simp: parsePostconf_def parsePostconfd_def section_ok_def split: prod.splits sum.splits
      intro!: register_ok ok_mput dest: parsePostconfLine_ok [OF assms(1)])

lemma other_directives_ok:
  assumes "settled p" "section_ok sec"
  shows "parseRestart sec p = (Inr sec', p') \<Longrightarrow> section_ok sec'"
    "parseLdap sec p = (Inr sec', p') \<Longrightarrow> section_ok sec'"
    "parseProxygen sec p = (Inr sec', p') \<Longrightarrow> section_ok sec'"
  using assms(2) read_names_ok [OF settled_advance [OF assms(1)], of "sec_restarts sec"]
    settled_word [OF settled_advance [OF assms(1)]]
  by (auto simp: parseRestart_def parseLdap_def parseLdapDirective_def parseProxygen_def section_ok_def Let_def
      case_prod_unfold intro!: ok_mput split: if_splits)

lemma parseConditionalLine_ok:
  assumes "settled p" "cond_ok cond" "parseConditionalLine cond p = (Inr cond', p')"
  shows "cond_ok cond'"
  using assms(2,3) settled_word [OF settled_advance [OF assms(1)]] is_word_nonempty [of "lit (advance p)"]
  by (auto simp: parseConditionalLine_def parseConditionalRequiredVar_def Let_def cond_ok_def
      split: TokenType.splits prod.splits sum.splits if_splits
      intro!: register_ok ok_mput dest: parsePostconfLine_ok [OF assms(1)])

lemma parseConditionalLine_settled:
  assumes "settled p" "\<not> isAtEnd p" "\<not> isAtNewline p" "parseConditionalLine cond p = (r, p')"
  shows "settled p'"
  using settled_kept [OF errs.R_parseConditionalLine [OF assms(2,3), of cond] settled_advance [OF assms(1)]]
  by (simp add: assms(4))

lemma parseConditionalBody_ok:
  "settled p \<Longrightarrow> cond_ok cond \<Longrightarrow> parseConditionalBody cond p = (Inr cond', p') \<Longrightarrow> cond_ok cond'"
proof (induction cond p rule: parseConditionalBody.induct)
  case (1 cond p)
  note body = "1.prems"(3) [unfolded parseConditionalBody.simps [of cond p]]
  consider "isAtNewline p" | "\<not> isAtNewline p" "ctype p = TokenFi \<or> isAtEnd p \<or> ctype p = TokenSection"
    | "\<not> isAtNewline p" "ctype p \<noteq> TokenFi" "\<not> (isAtEnd p \<or> ctype p = TokenSection)"
    by blast
  then show ?case
  proof cases
    case 1
    show ?thesis
      by (rule "1.IH"(1) [OF 1 settled_advance [OF "1.prems"(1)] "1.prems"(2)]) (use body 1 in simp)
  next
    case 2
    then show ?thesis using body "1.prems"(2) by (auto split: if_splits)
  next
    case 3
    obtain r p1 where line: "parseConditionalLine cond p = (r, p1)" by fastforce
    with 3 body obtain cond1 where r: "r = Inr cond1" by (cases r) auto
    show ?thesis
    proof (rule "1.IH"(2) [OF 3 line [symmetric] r])
      show "settled p1" using parseConditionalLine_settled [OF "1.prems"(1) _ 3(1) line] 3 by simp
      show "cond_ok cond1" using parseConditionalLine_ok [OF "1.prems"(1,2)] line r by simp
      show "parseConditionalBody cond1 p1 = (Inr cond', p')" using body 3 line r by simp
    qed
  qed
qed

lemma parseConditionalHeader_ok:
  assumes "settled p" "parseConditionalHeader p = (Inr (ct, key, negated), p')"
  shows "ct = ''SERVICE'' \<or> ct = ''VAR''" "list_all isIdentifierChar key" "settled p'"
proof -
  note s1 = settled_advance [OF assms(1)]
  note s2 = settled_advance [OF s1]
  show "ct = ''SERVICE'' \<or> ct = ''VAR''"
    using assms(2) settled_keyword [OF s1] by (auto simp: parseConditionalHeader_def Let_def split: if_splits)
  show "list_all isIdentifierChar key"
    using assms(2) settled_word [OF s2]
    by (auto simp: parseConditionalHeader_def Let_def has_prefix_def is_word_def split: if_splits list.splits)
  show "settled p'"
    using assms(2) settled_advance [OF s2] by (auto simp: parseConditionalHeader_def Let_def split: if_splits)
qed

lemma parseConditional_ok:
  assumes "settled p" "section_ok sec" "parseConditional sec p = (Inr sec', p')"
  shows "section_ok sec'"
proof -
  obtain ct key negated p1 where header: "parseConditionalHeader p = (Inr (ct, key, negated), p1)"
    using assms(3) by (auto simp: parseConditional_def split: prod.splits sum.splits)
  note h = parseConditionalHeader_ok [OF assms(1) header]
  let ?new = "\<lparr>cond_type = ct, cond_key = key, cond_negated = negated, cond_postconf = [],
      cond_postconfd = [], cond_required = []\<rparr>"
  obtain cond where body: "parseConditionalBody ?new (skipToNewline p1) = (Inr cond, p')"
      and sec': "sec' = sec\<lparr>sec_conditionals := sec_conditionals sec @ [cond]\<rparr>"
    using assms(3) header by (auto simp: parseConditional_def split: prod.splits sum.splits)
  have "cond_ok ?new" using h by (simp add: cond_ok_def)
  then have "cond_ok cond" using body settled_steps(5) [OF h(3)] by (rule parseConditionalBody_ok [rotated])
  then show ?thesis using assms(2) by (simp add: section_ok_def sec')
qed

lemma parseDirective_ok:
  assumes "settled p" "section_ok sec" "parseDirective sec p = (Inr sec', p')"
  shows "section_ok sec'"
  using assms(2,3) parseRewrite_ok [OF assms(2), of p sec' p']
    parseRequiredVarDirective_ok [OF assms(1,2), of "''VAR''" _ sec' p']
    parseRequiredVarDirective_ok [OF assms(1,2), of "''LOCAL''" _ sec' p']
    parseRequiredVarDirective_ok [OF assms(1,2), of "''MAPFILE''" _ sec' p']
    parseRequiredVarDirective_ok [OF assms(1,2), of "''MAPLOCAL''" _ sec' p']
    parsePostconf_ok [OF assms(1,2), of sec' p'] other_directives_ok [OF assms(1,2), of sec' p']
    parseConditional_ok [OF assms(1,2), of sec' p']
  by (simp add: parseDirective_def parseVar_def parseLocal_def parseMapfile_def parseMaplocal_def
      split: TokenType.splits if_splits)

lemma parseDirective_name:
  assumes "parseDirective sec p = (Inr sec', p')"
  shows "sec_name sec' = sec_name sec"
  using assms
  by (auto simp: parseDirective_def parseVar_def parseLocal_def parseMapfile_def parseMaplocal_def
      parseRequiredVarDirective_def parseRewrite_def parsePostconf_def parsePostconfd_def parseRestart_def
      parseLdap_def parseProxygen_def parseConditional_def Let_def
      split: TokenType.splits if_splits prod.splits sum.splits)

lemma parseDirective_settled:
  assumes "settled p" "parseDirective sec p = (Inr sec', p')"
  shows "settled p'"
  by (rule settled_kept [OF errs.R_parseDirective_Inr(1) [OF assms(2)] settled_advance [OF assms(1)]])

lemma section_body_ok:
  "settled p \<Longrightarrow> section_ok sec \<Longrightarrow> section_body sec p = (Inr sec', p') \<Longrightarrow>
     section_ok sec' \<and> sec_name sec' = sec_name sec"
proof (induction sec p rule: section_body.induct)
  case (1 sec p)
  note body = "1.prems"(3) [unfolded section_body.simps [of sec p]]
  consider "isAtEnd p \<or> isNextSection p" | "\<not> isAtEnd p \<and> \<not> isNextSection p" "isAtNewline p"
    | "\<not> isAtEnd p \<and> \<not> isNextSection p" "\<not> isAtNewline p"
    by blast
  then show ?case
  proof cases
    case 1
    then show ?thesis using body "1.prems"(2) by auto
  next
    case 2
    show ?thesis
      by (rule "1.IH"(1) [OF 2 settled_advance [OF "1.prems"(1)] "1.prems"(2)]) (use body 2 in simp)
  next
    case 3
    obtain r p1 where d: "parseDirective sec p = (r, p1)" by fastforce
    with 3 body obtain sec1 where r: "r = Inr sec1" by (cases r) auto
    note d1 = d [unfolded r]
    have "section_ok sec' \<and> sec_name sec' = sec_name sec1"
    proof (rule "1.IH"(2) [OF 3 d [symmetric] r])
      show "settled p1" by (rule parseDirective_settled [OF "1.prems"(1) d1])
      show "section_ok sec1" by (rule parseDirective_ok [OF "1.prems"(1,2) d1])
      show "section_body sec1 p1 = (Inr sec', p')" using body 3 d1 by simp
    qed
    then show ?thesis using parseDirective_name [OF d1] by simp
  qed
qed

lemma parseSection_ok:
  assumes "settled p" "config_ok cfg" "parseSection cfg p = (Inr cfg', p')"
  shows "config_ok cfg'"
proof (cases "isAtEnd (skip_newlines p)")
  case True
  with assms(2,3) show ?thesis by (simp add: parseSection_def)
next
  case False
  let ?p = "advance (skip_newlines p)"
  have s: "settled ?p" using settled_advance [OF settled_kept [OF errs.R_skip_newlines assms(1)]] .
  have name: "ctype ?p = TokenIdentifier" using assms(3) False by (auto simp: parseSection_def Let_def split: if_splits)
  obtain depends p4 where p4: "(if ctype (advance ?p) = TokenDepends then read_names [] (advance (advance ?p))
      else ([], advance ?p)) = (depends, p4)" by fastforce
  then obtain sec where body: "section_body ((new_section (lit ?p))\<lparr>sec_depends := depends\<rparr>) (advance p4) = (Inr sec, p')"
      and cfg': "cfg' = cfg\<lparr>mta_sections := mput (lit ?p) (Some sec) (mta_sections cfg)\<rparr>"
    using assms(3) False name by (auto simp: parseSection_def Let_def split: if_splits prod.splits sum.splits)
  have s2: "settled (advance ?p)" and s3: "settled (advance (advance ?p))" by (rule settled_advance s)+
  have depends: "words_ok (\<lambda>_ v. v) depends" and p4s: "settled p4"
    using p4 s2 read_names_ok [OF s3, of "[]"] settled_steps(4) [OF s3, of "[]"] by (auto split: if_splits)
  have "section_ok ((new_section (lit ?p))\<lparr>sec_depends := depends\<rparr>)"
    using depends by (simp add: section_ok_def new_section_def rewrites_ok_def)
  from section_body_ok [OF settled_advance [OF p4s] this body]
  show ?thesis using assms(2) settled_word [OF s name]
    by (auto simp: config_ok_def cfg' new_section_def intro!: ok_mput)
qed

lemma next_section_ok:
  assumes "settled p" "config_ok cfg"
  shows "config_ok (fst (next_section cfg p))" "settled (snd (next_section cfg p))"
  using assms(2) parseSection_ok [OF assms] settled_kept [OF errs.R_next_section assms(1)]
  by (auto simp: next_section_def split: prod.split sum.split)

lemma parse_sections_ok:
  "settled p \<Longrightarrow> config_ok cfg \<Longrightarrow> config_ok (fst (parse_sections cfg p))"
proof (induction cfg p rule: parse_sections.induct)
  case (1 cfg p)
  show ?case
  proof (cases "isAtEnd p")
    case True
    with "1.prems"(2) show ?thesis by (subst parse_sections.simps) simp
  next
    case False
    obtain cfg1 p1 where n: "next_section cfg p = (cfg1, p1)" by fastforce
    have "config_ok (fst (parse_sections cfg1 p1))"
      using "1.IH" [OF False n [symmetric]] next_section_ok [OF "1.prems"] n by simp
    then show ?thesis using False n by (subst parse_sections.simps) simp
  qed
qed

lemma parse_sections_end: "isAtEnd (snd (parse_sections cfg p))"
proof (induction cfg p rule: parse_sections.induct)
  case (1 cfg p)
  then show ?case by (cases "isAtEnd p"; subst parse_sections.simps; simp split: prod.split)
qed

lemma settled_start: "settled (advance (p\<lparr>ps_lexer := NewLexer content\<rparr>))"
  by (rule settled_advance_fresh) (simp add: NewLexer_def)

lemma ParseString_ok: "fst (ParseString content p) = Some cfg \<Longrightarrow> config_ok cfg"
  using parse_sections_ok [OF settled_start [of content p], of "\<lparr>mta_sections = []\<rparr>"]
  by (auto simp: ParseString_def config_ok_def case_prod_unfold split: if_splits)

section \<open>Properties\<close>

text \<open>C17: whatever the content of \<open>zmconfigd.cf\<close>, the configuration \<open>ParseString\<close> returns is well typed: each
  section stands under its own name, names are words, every map is a map, a rewrite has a source and a
  destination, a required variable a known lookup type, an LDAP value is a LOCAL or MAPLOCAL lookup, a
  deletion has no value, and a conditional tests a SERVICE or a VAR.
\<close>

theorem parsed_config_well_typed:
  assumes "fst (ParseString content p) = Some cfg"
  shows "config_ok cfg"
  using assms by (rule ParseString_ok)

definition sample_cf :: string where
  "sample_cf = ''SECTION mta DEPENDS amavis'' @ [CHR 0x0A] @ '' VAR zimbraMtaX'' @ [CHR 0x0A] @
     '' RESTART mta'' @ [CHR 0x0A]"

definition fresh_parser :: parser where
  "fresh_parser = NewParser (NewLexer [])"

lemma sample_parsed:
  "fst (ParseString sample_cf fresh_parser) =
     Some \<lparr>mta_sections = [(''mta'', Some ((new_section ''mta'')\<lparr>sec_depends := [(''amavis'', True)],
       sec_restarts := [(''mta'', True)], sec_required := [(''zimbraMtaX'', ''VAR'')]\<rparr>))]\<rparr>"
  by code_simp

theorem parsed_config_well_typed_witness:
  "\<exists>cfg. fst (ParseString sample_cf fresh_parser) = Some cfg \<and> mkeys (mta_sections cfg) = [''mta''] \<and> config_ok cfg"
  using parsed_config_well_typed [OF sample_parsed] sample_parsed by simp

text \<open>C18: \<open>ParseString\<close> accepts a file only after reading it to its end: without an error the last token is the
  end of the file, with no input left. A character the lexer does not know stops the parser early, but
  never silently truncates the configuration.
\<close>

theorem accepted_file_read_to_end:
  assumes "ParseString content p = (Some cfg, None, p')"
  shows "ctype p' = TokenEOF \<and> lx_in (ps_lexer p') = []"
proof -
  let ?r = "parse_sections \<lparr>mta_sections = []\<rparr> (advance (p\<lparr>ps_lexer := NewLexer content\<rparr>))"
  have p': "p' = snd ?r" "ps_errors p' = []"
    using assms by (auto simp: ParseString_def case_prod_unfold split: if_splits)
  have "settled p'" unfolding p' by (rule settled_kept [OF errs.R_parse_sections settled_start])
  moreover have "isAtEnd p'" unfolding p' by (rule parse_sections_end)
  ultimately show ?thesis using p'(2) by (auto simp: settled_def isAtEnd_def)
qed

lemma sample_accepted: "fst (snd (ParseString sample_cf fresh_parser)) = None"
  by code_simp

theorem accepted_file_read_to_end_witness:
  "\<exists>cfg p'. ParseString sample_cf fresh_parser = (Some cfg, None, p') \<and>
     ctype p' = TokenEOF \<and> lx_in (ps_lexer p') = []"
proof -
  obtain cfg p' where "ParseString sample_cf fresh_parser = (Some cfg, None, p')"
    using sample_parsed sample_accepted by (cases "ParseString sample_cf fresh_parser") auto
  from this accepted_file_read_to_end [OF this] show ?thesis by blast
qed

section \<open>Dots\<close>

text \<open>
  The lexer ends a word at a dot, so a relative file name with an extension is two tokens, and \<open>readPath\<close>
  joins a word only with what starts with a slash.
\<close>

definition dotted_cf :: string where
  "dotted_cf = ''SECTION comprehensive'' @ [CHR 0x0A] @ '' REWRITE input.txt output.txt MODE 0644'' @ [CHR 0x0A] @
     '' POSTCONF myhostname mail.example.com'' @ [CHR 0x0A]"


end
