(* ===== verification/Cf_Load.thy ===== *)
theory Cf_Load
  imports Cf_Correct Config_Lookup Plan_Examples
begin

text \<open>
  \<open>internal/configmgr/mtaconfig_parser.go\<close>: loading \<open>zmconfigd.cf\<close> into the daemon state. Sections of
  disabled services are dropped, the LDAP values are looked up and the variables of the if blocks that
  hold become required variables of their section. The lookups thread the state; the reference below
  computes the same configuration from the snapshot alone.
\<close>

section \<open>The code\<close>

text \<open>\<open>maps.Copy\<close>.\<close>

definition maps_copy :: "'v smap \<Rightarrow> 'v smap \<Rightarrow> 'v smap" where
  "maps_copy dst src = foldl (\<lambda>m (k, v). mput k v m) dst src"

fun registerConditionalRequiredVars ::
    "ConfigLookup \<Rightarrow> MtaConfigSection \<Rightarrow> Conditional list \<Rightarrow> State \<Rightarrow> MtaConfigSection \<times> State" where
  "registerConditionalRequiredVars lk sec [] s = (sec, s)"
| "registerConditionalRequiredVars lk sec (cond # conds) s =
     (case CheckConditional lk (cond_type cond) (cond_key cond) s of (holds, s1) \<Rightarrow>
        if holds = cond_negated cond then registerConditionalRequiredVars lk sec conds s1
        else registerConditionalRequiredVars lk
               (sec\<lparr>sec_required := maps_copy (sec_required sec) (cond_required cond)\<rparr>) conds s1)"

text \<open>The loop over the LDAP values, in the order of the keys; each value is replaced in place.\<close>

fun resolve_specs :: "ConfigLookup \<Rightarrow> string smap \<Rightarrow> State \<Rightarrow> string smap \<times> State" where
  "resolve_specs lk [] s = ([], s)"
| "resolve_specs lk ((ldapKey, lookupSpec) # rest) s =
     (case splitN 1 (CHR '':'') lookupSpec of
        [cfgType, key] \<Rightarrow>
          (case lk cfgType key s of (r, s1) \<Rightarrow>
             (case resolve_specs lk rest s1 of (m, s2) \<Rightarrow>
                ((ldapKey, case r of Inl _ \<Rightarrow> [] | Inr val \<Rightarrow> val) # m, s2)))
      | _ \<Rightarrow> (case resolve_specs lk rest s of (m, s2) \<Rightarrow> ((ldapKey, lookupSpec) # m, s2)))"

definition resolveSectionLDAP :: "ConfigLookup \<Rightarrow> MtaConfigSection \<Rightarrow> State \<Rightarrow> MtaConfigSection \<times> State" where
  "resolveSectionLDAP lk sec s =
     (case resolve_specs lk (sec_ldap sec) s of (m, s1) \<Rightarrow> (sec\<lparr>sec_ldap := m\<rparr>, s1))"

text \<open>The loop over the sections. The parser never stores a nil section.\<close>

fun load_sections ::
    "ConfigLookup \<Rightarrow> (string \<Rightarrow> bool) \<Rightarrow> MtaConfigSection option smap \<Rightarrow> State
      \<Rightarrow> MtaConfigSection option smap \<times> State" where
  "load_sections lk enabled [] s = ([], s)"
| "load_sections lk enabled ((sectionName, entry) # rest) s =
     (if \<not> SectionEnabled sectionName enabled then load_sections lk enabled rest s
      else
        (case entry of
           None \<Rightarrow> (case load_sections lk enabled rest s of (m, s1) \<Rightarrow> ((sectionName, None) # m, s1))
         | Some sec \<Rightarrow>
             (case resolveSectionLDAP lk sec s of (sec1, s1) \<Rightarrow>
             (case registerConditionalRequiredVars lk sec1 (sec_conditionals sec1) s1 of (sec2, s2) \<Rightarrow>
             (case load_sections lk enabled rest s2 of (m, s3) \<Rightarrow> ((sectionName, Some sec2) # m, s3))))))"

definition ParseMtaConfig ::
    "(string \<Rightarrow> string option) \<Rightarrow> ConfigLookup \<Rightarrow> string \<Rightarrow> State \<Rightarrow> cf_error option \<times> State" where
  "ParseMtaConfig fs lk configFile s =
     (case Parse fs configFile (NewParser (NewLexer [])) of
        (_, Some err, _) \<Rightarrow> (Some err, s)
      | (None, None, _) \<Rightarrow> (None, s)
      | (Some mtaConfig, None, _) \<Rightarrow>
          (case load_sections lk (ServiceEnabled (StateSnapshot s)) (mta_sections mtaConfig) s of
             (sections, s1) \<Rightarrow> (None, SetMtaConfig (Some (mtaConfig\<lparr>mta_sections := sections\<rparr>)) s1)))"

section \<open>The reference\<close>

text \<open>A lookup that only reads: what it returns in a state, and the state it leaves alone.\<close>

definition read_only :: "ConfigLookup \<Rightarrow> State \<Rightarrow> string \<Rightarrow> bool" where
  "read_only lk s ct \<longleftrightarrow> (\<forall>key. snd (lk ct key s) = s)"

definition cond_holds :: "ConfigLookup \<Rightarrow> State \<Rightarrow> Conditional \<Rightarrow> bool" where
  "cond_holds lk s c \<longleftrightarrow> fst (CheckConditional lk (cond_type c) (cond_key c) s) \<noteq> cond_negated c"

definition ldap_value :: "ConfigLookup \<Rightarrow> State \<Rightarrow> string \<Rightarrow> string" where
  "ldap_value lk s spec =
     (case fst (lk (takeWhile (\<lambda>c. c \<noteq> CHR '':'') spec) (tl (dropWhile (\<lambda>c. c \<noteq> CHR '':'') spec)) s) of
        Inl _ \<Rightarrow> [] | Inr v \<Rightarrow> v)"

definition effective_section :: "ConfigLookup \<Rightarrow> State \<Rightarrow> MtaConfigSection \<Rightarrow> MtaConfigSection" where
  "effective_section lk s sec =
     sec\<lparr>sec_ldap := map (\<lambda>(k, spec). (k, ldap_value lk s spec)) (sec_ldap sec),
         sec_required := foldl maps_copy (sec_required sec)
           (map cond_required (filter (cond_holds lk s) (sec_conditionals sec)))\<rparr>"

definition effective_config :: "ConfigLookup \<Rightarrow> State \<Rightarrow> MtaConfig \<Rightarrow> MtaConfig" where
  "effective_config lk s cfg =
     cfg\<lparr>mta_sections := map (\<lambda>(n, entry). (n, map_option (effective_section lk s) entry))
       (filter (\<lambda>(n, _). SectionEnabled n (ServiceEnabled (StateSnapshot s))) (mta_sections cfg))\<rparr>"

section \<open>Refinement\<close>

lemma CheckConditional_read_only:
  "read_only lk s (cond_type c) \<Longrightarrow> snd (CheckConditional lk (cond_type c) (cond_key c) s) = s"
  by (auto simp: CheckConditional_def read_only_def split: prod.splits sum.splits) (metis snd_conv)+

lemma register_refines:
  assumes "list_all (\<lambda>c. read_only lk s (cond_type c)) conds"
  shows "registerConditionalRequiredVars lk sec conds s =
    (sec\<lparr>sec_required := foldl maps_copy (sec_required sec) (map cond_required (filter (cond_holds lk s) conds))\<rparr>, s)"
  using assms
proof (induction conds arbitrary: sec)
  case (Cons c conds)
  have "CheckConditional lk (cond_type c) (cond_key c) s = (fst (CheckConditional lk (cond_type c) (cond_key c) s), s)"
    using CheckConditional_read_only [of lk s c] Cons.prems by (simp add: prod_eq_iff)
  with Cons show ?case by (auto simp: cond_holds_def split: prod.splits)
qed simp

lemma has_prefixD: "has_prefix s p \<Longrightarrow> \<exists>rest. s = p @ rest"
  by (metis append_take_drop_id has_prefix_def)

lemma ldap_spec_split:
  assumes "isLdapLocalValue spec"
  shows "\<exists>ct key. (ct = TypeLocal \<or> ct = TypeMapLocal) \<and> splitN 1 (CHR '':'') spec = [ct, key] \<and>
    takeWhile (\<lambda>c. c \<noteq> CHR '':'') spec = ct \<and> tl (dropWhile (\<lambda>c. c \<noteq> CHR '':'') spec) = key"
proof -
  have split: "splitN 1 (CHR '':'') (ct @ CHR '':'' # key) = [ct, key] \<and>
      takeWhile (\<lambda>c. c \<noteq> CHR '':'') (ct @ CHR '':'' # key) = ct \<and>
      tl (dropWhile (\<lambda>c. c \<noteq> CHR '':'') (ct @ CHR '':'' # key)) = key"
    if "CHR '':'' \<notin> set ct" for ct key
  proof -
    have "takeWhile (\<lambda>c. c \<noteq> CHR '':'') (ct @ CHR '':'' # key) = ct \<and>
        dropWhile (\<lambda>c. c \<noteq> CHR '':'') (ct @ CHR '':'' # key) = CHR '':'' # key"
      using that by (induction ct) auto
    then show ?thesis by (simp add: cut_char_def)
  qed
  have "\<exists>key. spec = ''LOCAL'' @ CHR '':'' # key \<or> spec = ''MAPLOCAL'' @ CHR '':'' # key"
    using assms has_prefixD [of spec "''LOCAL:''"] has_prefixD [of spec "''MAPLOCAL:''"]
    by (auto simp: isLdapLocalValue_def)
  then show ?thesis using split [of "''LOCAL''"] split [of "''MAPLOCAL''"] by auto
qed

lemma resolve_refines:
  assumes "read_only lk s TypeLocal" "read_only lk s TypeMapLocal" "\<forall>(k, spec) \<in> set m. isLdapLocalValue spec"
  shows "resolve_specs lk m s = (map (\<lambda>(k, spec). (k, ldap_value lk s spec)) m, s)"
  using assms(3)
proof (induction m)
  case (Cons e m)
  obtain k spec where e: "e = (k, spec)" by fastforce
  obtain ct key where spec: "ct = TypeLocal \<or> ct = TypeMapLocal" "splitN 1 (CHR '':'') spec = [ct, key]"
      "takeWhile (\<lambda>c. c \<noteq> CHR '':'') spec = ct" "tl (dropWhile (\<lambda>c. c \<noteq> CHR '':'') spec) = key"
    using ldap_spec_split [of spec] Cons.prems by (auto simp: e)
  have "lk ct key s = (fst (lk ct key s), s)"
    using assms(1,2) spec(1) by (auto simp: read_only_def prod_eq_iff)
  with Cons spec(2-) show ?case by (auto simp: e ldap_value_def split: prod.splits)
qed simp

definition reads_only :: "ConfigLookup \<Rightarrow> State \<Rightarrow> bool" where
  "reads_only lk s \<longleftrightarrow> read_only lk s TypeVar \<and> read_only lk s TypeService \<and> read_only lk s TypeLocal \<and>
     read_only lk s TypeMapLocal"

lemma section_refines:
  assumes "reads_only lk s" "section_ok sec"
  shows "(case resolveSectionLDAP lk sec s of (sec1, s1) \<Rightarrow>
      registerConditionalRequiredVars lk sec1 (sec_conditionals sec1) s1) = (effective_section lk s sec, s)"
proof -
  have "list_all (\<lambda>c. read_only lk s (cond_type c)) (sec_conditionals sec)"
    using assms by (auto simp: section_ok_def list_all_iff cond_ok_def reads_only_def)
  moreover have "resolve_specs lk (sec_ldap sec) s = (map (\<lambda>(k, spec). (k, ldap_value lk s spec)) (sec_ldap sec), s)"
    using assms by (intro resolve_refines) (auto simp: reads_only_def section_ok_def words_ok_def mall_def)
  ultimately show ?thesis
    by (simp add: resolveSectionLDAP_def register_refines effective_section_def)
qed

lemma load_refines:
  assumes "reads_only lk s" "\<forall>(n, entry) \<in> set m. \<exists>sec. entry = Some sec \<and> section_ok sec"
  shows "load_sections lk enabled m s =
    (map (\<lambda>(n, entry). (n, map_option (effective_section lk s) entry)) (filter (\<lambda>(n, _). SectionEnabled n enabled) m), s)"
  using assms(2)
proof (induction m)
  case (Cons e m)
  then obtain n sec where e: "e = (n, Some sec)" "section_ok sec" by (cases e) auto
  obtain sec1 s1 where r: "resolveSectionLDAP lk sec s = (sec1, s1)" by fastforce
  with section_refines [OF assms(1) e(2)]
  have "registerConditionalRequiredVars lk sec1 (sec_conditionals sec1) s1 = (effective_section lk s sec, s)"
    by simp
  with r Cons show ?case by (simp add: e)
qed simp

lemma LookUpConfig_reads_only: "reads_only (LookUpConfig d host cfg) s"
  by (auto simp: reads_only_def read_only_def LookUpConfig.simps lookupMappedFileKey_def Let_def
      split: option.split lookup_error.split)

section \<open>Properties\<close>

text \<open>C16: \<open>ParseMtaConfig\<close> refines its reference. A file that cannot be read, is empty or has any parse error is
  reported and leaves the daemon state, the configuration in force included, as it was. An accepted file
  replaces the configuration by the effective one of the current snapshot (the sections of enabled
  services, their LDAP values looked up, the variables of the if blocks that hold added), and nothing
  else of the state changes.
\<close>

theorem config_load_refines:
  "ParseMtaConfig fs (LookUpConfig d host cfg) configFile s =
     (case Parse fs configFile (NewParser (NewLexer [])) of
        (Some mtac, None, _) \<Rightarrow>
          (None, SetMtaConfig (Some (effective_config (LookUpConfig d host cfg) s mtac)) s)
      | (_, err, _) \<Rightarrow> (err, s))"
proof -
  obtain c err p where parse: "Parse fs configFile (NewParser (NewLexer [])) = (c, err, p)"
    by (cases "Parse fs configFile (NewParser (NewLexer []))") auto
  show ?thesis
  proof (cases "\<exists>mtac. c = Some mtac \<and> err = None")
    case True
    then obtain mtac where c: "c = Some mtac" "err = None" by blast
    obtain content where "ParseString content (NewParser (NewLexer [])) = (Some mtac, None, p)"
      using parse c by (auto simp: Parse_def split: option.splits)
    then have "config_ok mtac" using ParseString_ok [of content "NewParser (NewLexer [])" mtac] by simp
    then have "\<forall>(n, entry) \<in> set (mta_sections mtac). \<exists>sec. entry = Some sec \<and> section_ok sec"
      by (auto simp: config_ok_def words_ok_def mall_def split: option.splits)
    from load_refines [OF LookUpConfig_reads_only this] show ?thesis
      by (simp add: ParseMtaConfig_def parse c effective_config_def)
  next
    case False
    then show ?thesis by (auto simp: ParseMtaConfig_def parse split: option.splits)
  qed
qed

lemma maps_copy_keys: "fst ` set (maps_copy dst src) = fst ` set dst \<union> fst ` set src"
proof (induction src arbitrary: dst)
  case (Cons e src)
  then show ?case by (cases e) (auto simp: maps_copy_def)
qed (simp add: maps_copy_def)

lemma copies_keys: "fst ` set (foldl maps_copy m ms) = fst ` set m \<union> (\<Union>m' \<in> set ms. fst ` set m')"
  by (induction ms arbitrary: m) (auto simp: maps_copy_keys)

lemma diffSection_key:
  "r \<in> set (diffSection i sn sec) \<Longrightarrow> \<exists>k \<in> fst ` set (sec_required sec). r_key r = trim_prefix k ''!''"
  by (force simp: diffSection_def diffVar_def varChanged_def mk_reason_def Let_def split: if_splits)


definition guarded_section :: MtaConfigSection where
  "guarded_section = (new_section ''mta'')\<lparr>sec_conditionals :=
     [\<lparr>cond_type = ''VAR'', cond_key = ''flag'', cond_negated = True, cond_postconf = [], cond_postconfd = [],
       cond_required = [(''networks'', ''VAR'')]\<rparr>]\<rparr>"

definition var_lookup :: ConfigLookup where
  "var_lookup ct key s = (found_or_miss (Var (StateSnapshot s) key), s)"

lemma guarded_facts:
  "varChanged ''mta'' TypeVar ''networks'' ''10'' ''11''
     \<in> set (diffSection ex_input ''mta'' (effective_section var_lookup NewState guarded_section))"
  "list_all (cond_holds var_lookup NewState) (sec_conditionals guarded_section)"
  by code_simp+


end
