(* ===== verification/Spec2Isabelle.thy ===== *)
theory Spec2Isabelle
  imports Plan_Correct Plan_Change Plan_Carry Plan_Deferred Policy_Correct Cycle_Correct Rewrite_Protocol Execute_Correct File_Correct Cf_Load
begin

text \<open>
  A verification library for carbonio-configd, the daemon that keeps the configuration files and services
  of a Carbonio host in line with LDAP, localconfig and \<open>zmconfigd.cf\<close>.

  \<^bold>\<open>The program.\<close> A cycle of the daemon loads the configuration into an immutable snapshot, observes every
  value the parsed \<open>zmconfigd.cf\<close> depends on, computes a plan from the difference to the last snapshot
  (which templates to render, which postconf, LDAP and mapped-file actions to take, which services to
  restart), executes the plan on the host and hands its restarts to a policy that debounces, retries and
  dispatches them to systemd or to the service manager. REWRITE clients of the control socket wait for the
  cycle that rewrites their sections. What a cycle does not complete is carried to the next one.

  \<^bold>\<open>Conventions.\<close> Go strings are byte strings (\<open>string\<close>), maps are association lists strictly sorted by key
  (\<open>gomap\<close> in \<open>Go_Prelude\<close>: where the code ranges over a map, the model does so in key order), nil
  pointers are \<open>None\<close>, errors are values of sums or options, machine integers keep their width where the
  code computes with them (\<open>signed_take_bit\<close> for durations, words for the sleep timer). Calls of the
  operating system take their fate from a stream, so that each of them can fail at any time; external
  programs, third-party clients and what is not modelled are parameters.

  \<^bold>\<open>Theories and sources\<close> (under \<open>src/internal\<close> unless said otherwise).
  \<^item> \<open>Go_Prelude\<close>, \<open>Go_Regexp\<close>, \<open>Base64\<close>: the parts of Go's library the code uses.
  \<^item> \<open>Config_Types\<close>, \<open>Snapshots\<close>, \<open>Redaction\<close>, \<open>Daemon_State\<close>: \<open>config\<close>, \<open>snapshot\<close>, \<open>redact\<close>, \<open>state\<close>.
  \<^item> \<open>Plan_Types\<close>, \<open>Plan_Compute\<close>: package \<open>plan\<close> with all of \<open>Compute\<close>. \<open>Plan_Builder\<close>, \<open>Plan_Invariants\<close>,
    \<open>Plan_Restarts\<close> hold the lemmas on the builder; \<open>Plan_Correct\<close>, \<open>Plan_Change\<close>, \<open>Plan_Carry\<close> and
    \<open>Plan_Deferred\<close> the properties: well-formedness, which sections are processed, that a change reaches the
    services of its section, that requests restart nothing, what is carried and merged, what is shown.
  \<^item> \<open>Service_Manager\<close>, \<open>Restart_Policy\<close>: \<open>services/manager.go\<close>, \<open>restart/policy.go\<close>; \<open>Service_Correct\<close>,
    \<open>Service_Loop\<close>, \<open>Service_Results\<close> and \<open>Policy_Correct\<close> show when the restart queue empties, what a pass
    touches, the dependency closure, failure counters and debounce.
  \<^item> \<open>Transformer\<close>, \<open>Config_Lookup\<close>, \<open>Lookup_Correct\<close>: the template language and the lookups of \<open>configmgr\<close>.
  \<^item> \<open>Config_Cycle\<close>, \<open>Cycle_Correct\<close>: load, observe, plan and deferred restarts of \<open>configmgr\<close>.
  \<^item> \<open>Cf_Lexer\<close>, \<open>Cf_Parser\<close>: package \<open>parser\<close>, the lexer and the recursive descent parser of \<open>zmconfigd.cf\<close>,
    total by a measure on the input left; \<open>Cf_Correct\<close> shows that the result is well typed and that a file is
    accepted only when read to its end, \<open>Cf_Load\<close> models \<open>configmgr/mtaconfig_parser.go\<close> and shows that it
    refines the effective configuration of a snapshot.
  \<^item> \<open>Host_Files\<close>, \<open>Mta_Ops\<close>, \<open>Plan_Execute\<close>: \<open>sys\<close> and \<open>fileutil\<close>, \<open>mtaops\<close>, and \<open>Execute\<close> with its actions;
    \<open>Execute_Frame\<close> shows what no action touches, \<open>Execute_Correct\<close> that no work is lost, \<open>File_Correct\<close> that
    files are replaced atomically and mapped files round-trip (triples over the calls of the file system).
  \<^item> \<open>Rewrite_Trigger\<close>, \<open>Rewrite_Protocol\<close>: \<open>cmd/configd/mainloop.go\<close>, the protocol between REWRITE clients and
    the loop as a step relation, with its invariants and what a success reply means.

  \<^bold>\<open>Interfaces.\<close> The locales state what a component relies on and are interpreted on the model's own
  definitions: the entries of a plan and of the carry (\<open>plan_entry\<close>, \<open>carried_entry\<close>), the queue of the service
  manager (\<open>restart_queue\<close>), the lookups the transformer, the observation and the conditionals go through
  (\<open>lookup_frame\<close>, \<open>lookup_agree\<close>, \<open>config_lookup\<close>), what the actions keep of the host (\<open>frame\<close>,
  \<open>host_frame\<close>), and what reading keeps of the parser (\<open>parser_frame\<close>).

  \<^bold>\<open>Bounds.\<close> A FILE lookup renders a file whose directives may look FILEs up again, without a bound in the
  source: \<open>LookUpConfig\<close> has the nesting depth as fuel, and a result that is not the exhaustion of the fuel
  is the same for every greater depth. The processing of the restart queue may run for ever in the source
  and is a \<open>partial_function\<close>: that it returns, and a case in which it does not, are both proved. All other
  loops are total functions.

  \<^bold>\<open>Concurrency.\<close> The REWRITE protocol and the publication of snapshots are step relations over the
  operations the code makes atomic with its mutexes. The five concurrent steps of \<open>Execute\<close> are run in an
  arbitrary order.

  \<^bold>\<open>Not modelled.\<close> Command line front ends and process wiring (\<open>cmd/configd\<close> beyond the main loop, \<open>cli\<close>),
  starting and probing processes (\<open>services\<close> beyond the manager; the outcome of an action is a parameter),
  the LDAP client and the HTTP client (third-party protocols), the nginx generator (\<open>proxy\<close>, one action of
  a plan here), logging, metrics and tracing. The manifest gives the reason for each part.
\<close>

end
